(* ===== verification/Prelude.thy ===== *)
theory Prelude
  imports Complex_Main "HOL-Library.List_Lexorder" "HOL-Library.Char_ord"
begin

text \<open>
  Shared vocabulary of the development: byte strings, results of fallible code, the functions of
  Go's package \<^verbatim>\<open>strings\<close> that the sources call, and generic lemmas about lists of consecutive
  sequence numbers, filters and option lookups.

  A Go \<^verbatim>\<open>string\<close> and a Go \<^verbatim>\<open>[]byte\<close> are both \<^typ>\<open>string\<close>, that is a list of 8-bit characters; where
  the code distinguishes \<^verbatim>\<open>nil\<close> from an empty slice the model uses \<open>bytes option\<close>. Sequence numbers
  and Go integers are \<^typ>\<open>int\<close>: the sources compare them with zero and with one another and never
  come near \<open>2 ^ 63\<close>.
\<close>

type_synonym bytes = string
type_synonym cost = rat

named_theorems store_simps \<open>unfolding rules of the event store's statements\<close>
named_theorems loop_simps \<open>unfolding rules of the agent loop\<close>

section \<open>Package strings\<close>

text \<open>Case folding and trimming act on ASCII letters and ASCII white space.\<close>

definition HasPrefix :: "string \<Rightarrow> string \<Rightarrow> bool" where
  "HasPrefix s p \<longleftrightarrow> take (length p) s = p"

definition HasSuffix :: "string \<Rightarrow> string \<Rightarrow> bool" where
  "HasSuffix s p \<longleftrightarrow> length p \<le> length s \<and> drop (length s - length p) s = p"

definition CutPrefix :: "string \<Rightarrow> string \<Rightarrow> string option" where
  "CutPrefix s p = (if HasPrefix s p then Some (drop (length p) s) else None)"

definition CutSuffix :: "string \<Rightarrow> string \<Rightarrow> string option" where
  "CutSuffix s p = (if HasSuffix s p then Some (take (length s - length p) s) else None)"

fun Contains :: "string \<Rightarrow> string \<Rightarrow> bool" where
  "Contains [] p = (p = [])"
| "Contains (c # s) p = (HasPrefix (c # s) p \<or> Contains s p)"

definition lowerChar :: "char \<Rightarrow> char" where
  "lowerChar c = (let n = (of_char c :: nat) in if 65 \<le> n \<and> n \<le> 90 then char_of (n + 32) else c)"

definition ToLower :: "string \<Rightarrow> string" where
  "ToLower s = map lowerChar s"

definition isSpace :: "char \<Rightarrow> bool" where
  "isSpace c \<longleftrightarrow> (of_char c :: nat) \<in> {9, 10, 11, 12, 13, 32}"

definition TrimSpace :: "string \<Rightarrow> string" where
  "TrimSpace s = rev (dropWhile isSpace (rev (dropWhile isSpace s)))"

lemma HasPrefix_iff: "HasPrefix s p \<longleftrightarrow> (\<exists>t. s = p @ t)"
  by (auto simp: HasPrefix_def) (metis append_take_drop_id)

lemma HasSuffix_iff: "HasSuffix s p \<longleftrightarrow> (\<exists>t. s = t @ p)"
  by (auto simp: HasSuffix_def) (metis append_take_drop_id)

lemma Contains_iff: "Contains s p \<longleftrightarrow> (\<exists>a b. s = a @ p @ b)"
proof (induction s p rule: Contains.induct)
  case (2 c s p)
  have "(\<exists>a b. c # s = a @ p @ b) \<longleftrightarrow> HasPrefix (c # s) p \<or> (\<exists>a b. s = a @ p @ b)"
    by (simp only: HasPrefix_iff) (metis append_Cons append_Nil neq_Nil_conv list.inject)
  with 2 show ?case by simp
qed auto

section \<open>Sequence numbers\<close>

text \<open>
  A session's own log carries the consecutive sequence numbers \<open>[lo + 1 .. hi]\<close>. These lemmas let
  the store proofs extend such a log at its end and cut windows out of it.
\<close>

lemma upto_append_consecutive:
  "lo \<le> mid \<Longrightarrow> mid \<le> hi \<Longrightarrow> [lo + 1..mid] @ [mid + 1..hi] = [lo + 1..(hi::int)]"
  using upto_split1 [of "lo + 1" "mid + 1" hi] by (cases "mid = hi") auto

lemma map_int_shift_upto: "map (\<lambda>i. a + 1 + int i) [0..<n] = [a + 1..a + int n]"
proof (induction n)
  case (Suc n)
  have "[a + 1..a + int (Suc n)] = [a + 1..a + int n] @ [a + int (Suc n)]"
    using upto_rec2 [of "a + 1" "a + int (Suc n)"] by simp
  with Suc show ?case by (simp add: algebra_simps)
qed simp

lemma sorted_wrt_less_upto [simp]: "sorted_wrt (<) [i..(j::int)]"
  by (induction i j rule: upto.induct) (subst upto.simps, auto)

text \<open>A slice that may be nil, read as bytes (\<^verbatim>\<open>bytes.Equal\<close> and hashing treat nil as empty).\<close>

definition orNil :: "bytes option \<Rightarrow> bytes" where
  "orNil b = (case b of None \<Rightarrow> [] | Some x \<Rightarrow> x)"

lemma orNil_Some [simp]: "orNil (Some x) = x" by (simp add: orNil_def)

section \<open>Results\<close>

text \<open>
  Fallible code returns a value of a sum type, the error on the left. \<open>andThen\<close> is the early return
  \<^verbatim>\<open>if err != nil { return err }\<close> between two statements and \<open>require\<close> a guard with its error.
\<close>

definition andThen :: "'e + 'a \<Rightarrow> ('a \<Rightarrow> 'e + 'b) \<Rightarrow> 'e + 'b" where
  "andThen m f = (case m of Inl e \<Rightarrow> Inl e | Inr x \<Rightarrow> f x)"

definition require :: "bool \<Rightarrow> 'e \<Rightarrow> 'e + unit" where
  "require b e = (if b then Inr () else Inl e)"

definition isOk :: "'e + 'a \<Rightarrow> bool" where
  "isOk r = (case r of Inl _ \<Rightarrow> False | Inr _ \<Rightarrow> True)"

lemma andThen_simps [simp]: "andThen (Inl e) f = Inl e" "andThen (Inr x) f = f x"
  by (simp_all add: andThen_def)

lemma andThen_Inr_iff: "andThen m f = Inr y \<longleftrightarrow> (\<exists>x. m = Inr x \<and> f x = Inr y)"
  by (cases m) auto

lemma andThen_Inl_iff: "andThen m f = Inl e \<longleftrightarrow> m = Inl e \<or> (\<exists>x. m = Inr x \<and> f x = Inl e)"
  by (cases m) auto

lemma require_simps [simp]: "require True e = Inr ()" "require False e = Inl e"
  by (simp_all add: require_def)

lemma require_Inr_iff [simp]: "require b e = Inr u \<longleftrightarrow> b"
  by (simp add: require_def)

lemma require_Inl_iff [simp]: "require b e = Inl e' \<longleftrightarrow> \<not> b \<and> e = e'"
  by (simp add: require_def)

lemma isOk_iff: "isOk r \<longleftrightarrow> (\<exists>x. r = Inr x)"
  by (cases r) (auto simp: isOk_def)

lemma isOk_simps [simp]: "isOk (Inr x)" "\<not> isOk (Inl e)"
  by (simp_all add: isOk_def)

section \<open>Decimal numerals\<close>

text \<open>
  \<^verbatim>\<open>strconv.FormatInt(n, 10)\<close> and the verb \<open>%d\<close>. Reading the digits back gives the number, so the
  printer is injective; the idempotency keys of the agent loop rely on that.
\<close>

definition digitChar :: "nat \<Rightarrow> char" where
  "digitChar n = char_of (48 + n)"

fun FormatNat :: "nat \<Rightarrow> string" where
  "FormatNat n = (if n < 10 then [digitChar n] else FormatNat (n div 10) @ [digitChar (n mod 10)])"

declare FormatNat.simps [simp del]

definition FormatInt :: "int \<Rightarrow> string" where
  "FormatInt i = (if i < 0 then CHR ''-'' # FormatNat (nat (- i)) else FormatNat (nat i))"

definition readDigits :: "string \<Rightarrow> nat" where
  "readDigits s = foldl (\<lambda>a c. 10 * a + (of_char c - 48)) 0 s"

lemma of_char_digitChar: "n < 10 \<Longrightarrow> (of_char (digitChar n) :: nat) = 48 + n"
  by (simp add: digitChar_def)

lemma readDigits_FormatNat: "readDigits (FormatNat n) = n"
proof (induction n rule: FormatNat.induct)
  case (1 n)
  show ?case
  proof (cases "n < 10")
    case True
    then show ?thesis
      by (subst FormatNat.simps) (simp add: readDigits_def of_char_digitChar)
  next
    case False
    with 1 have "readDigits (FormatNat (n div 10)) = n div 10" by simp
    with False show ?thesis
      by (subst FormatNat.simps) (simp add: readDigits_def of_char_digitChar)
  qed
qed

lemma FormatNat_inj: "FormatNat m = FormatNat n \<Longrightarrow> m = n"
  by (metis readDigits_FormatNat)

lemma digitChar_not_minus: "n < 10 \<Longrightarrow> digitChar n \<noteq> CHR ''-''"
proof
  assume "n < 10" and "digitChar n = CHR ''-''"
  then have "(of_char (CHR ''-'') :: nat) = 48 + n"
    using of_char_digitChar [of n] by simp
  then show False by simp
qed

lemma FormatNat_no_minus: "CHR ''-'' \<notin> set (FormatNat n)"
proof (induction n rule: FormatNat.induct)
  case (1 n)
  show ?case
    by (subst FormatNat.simps) (use 1 digitChar_not_minus [symmetric] in \<open>simp\<close>)
qed

lemma FormatInt_inj: "FormatInt i = FormatInt j \<longleftrightarrow> i = j"
proof
  assume eq: "FormatInt i = FormatInt j"
  have "(i < 0) = (j < 0)"
    using eq FormatNat_no_minus [of "nat i"] FormatNat_no_minus [of "nat j"]
    by (auto simp: FormatInt_def split: if_splits) (metis list.set_intros(1))+
  then show "i = j"
    using eq FormatNat_inj by (fastforce simp: FormatInt_def split: if_splits)
qed simp

end
