(* ===== verification/Domain.thy ===== *)
theory Domain
  imports Prelude
begin

text \<open>
  The vocabulary every component shares: the provider-neutral message kernel of
  \<^verbatim>\<open>internal/platform/llm\<close> and the event, envelope and session types of
  \<^verbatim>\<open>internal/orchestrator/domain\<close>.

  A Go struct is a \<^theory_text>\<open>record\<close>; a union of optional pointers (\<^verbatim>\<open>ContentPart\<close>, \<^verbatim>\<open>StreamEvent\<close>) and the
  sealed interface \<^verbatim>\<open>Event\<close> are datatypes whose constructors carry the struct's fields in
  declaration order. A Go string type with a closed set of constants is a datatype; where the code
  treats the zero value \<open>''''\<close> specially it has a constructor of its own (\<open>ActorUnset\<close>, \<open>ModeUnset\<close>,
  \<open>SideEffectUnset\<close>, \<open>EgressClassUnset\<close>). Dollar amounts (\<^verbatim>\<open>float64\<close>) are exact rationals.
\<close>

section \<open>The llm kernel\<close>

datatype json = JNull | JBool bool | JNum rat | JStr string | JArr "json list"
  | JObj "(string \<times> json) list"

type_synonym args = "(string \<times> json) list"

record Usage =
  InputTokens :: int
  OutputTokens :: int
  CacheReadTokens :: int
  CacheWriteTokens :: int
  ReasoningTokens :: int

definition zeroUsage :: Usage where
  "zeroUsage = \<lparr>InputTokens = 0, OutputTokens = 0, CacheReadTokens = 0, CacheWriteTokens = 0,
     ReasoningTokens = 0\<rparr>"

definition addUsage :: "Usage \<Rightarrow> Usage \<Rightarrow> Usage" where
  "addUsage a b = \<lparr>
     InputTokens = InputTokens a + InputTokens b,
     OutputTokens = OutputTokens a + OutputTokens b,
     CacheReadTokens = CacheReadTokens a + CacheReadTokens b,
     CacheWriteTokens = CacheWriteTokens a + CacheWriteTokens b,
     ReasoningTokens = ReasoningTokens a + ReasoningTokens b\<rparr>"

lemma addUsage_zero [simp]: "addUsage zeroUsage u = u" "addUsage u zeroUsage = u"
  by (simp_all add: addUsage_def zeroUsage_def)

lemma addUsage_assoc: "addUsage (addUsage a b) c = addUsage a (addUsage b c)"
  by (simp add: addUsage_def)

datatype Role = RoleUser | RoleAssistant | RoleTool

record ToolCall =
  tcID :: string
  tcName :: string
  tcArgs :: args

datatype ContentPart =
    TextPart string
  | ImagePart string bytes string string
  | ThinkingPart string string
  | ToolCallPart ToolCall
  | ToolResultPart string string bool

record Message =
  mRole :: Role
  mContent :: "ContentPart list"

datatype StopReason = StopEnd | StopMaxTokens | StopToolUse | StopStopSequence | StopContentFilter
  | StopRefusal | StopContextWindowExceeded | Pause | StopOther

definition IsTerminal :: "StopReason \<Rightarrow> bool" where
  "IsTerminal r \<longleftrightarrow> r \<noteq> Pause"

record Done =
  dStopReason :: StopReason
  dRawStopReason :: string
  dUsage :: Usage
  dProviderRaw :: "bytes option"

record ToolCallDelta =
  tdCallID :: string
  tdName :: string
  tdArgsPath :: string
  tdArgsFragment :: bytes

datatype StreamEvent =
    TextDelta string
  | ThinkingDelta string string
  | ToolCallDeltaEv ToolCallDelta
  | DoneEv Done
  | EmptyEvent

section \<open>Tool classes and termination\<close>

datatype SideEffect = SideEffectReadOnly | SideEffectMutating | SideEffectUnset

datatype EgressClass = EgressClassNone | EgressClassInternal | EgressClassExternal | EgressClassUnset

datatype TerminationReason = Success | ErrorMaxTurns | ErrorMaxBudgetUSD | ErrorDuringExecution
  | ErrorMaxStructuredOutputRetries | Refusal | ErrorDoomLoop

definition IsError :: "TerminationReason \<Rightarrow> bool" where
  "IsError r \<longleftrightarrow> r \<noteq> Success"

section \<open>Events\<close>

datatype Actor = ActorUser | ActorAssistant | ActorTool | ActorSystem | ActorUnset

datatype PermissionDecision = PermissionAllow | PermissionDeny | PermissionAsk

datatype AskResolution = AskUnresolved | AskAllowed | AskDenied

datatype PermissionMode = ModeDefault | ModeAcceptEdits | ModePlan | ModeBypass | ModeUnset

definition OrDefault :: "PermissionMode \<Rightarrow> PermissionMode" where
  "OrDefault m = (if m = ModeUnset then ModeDefault else m)"

record PlanItem =
  piContent :: string
  piStatus :: string

definition PlanStatusPending :: string where "PlanStatusPending = ''pending''"
definition PlanStatusInProgress :: string where "PlanStatusInProgress = ''in_progress''"
definition PlanStatusCompleted :: string where "PlanStatusCompleted = ''completed''"

datatype event =
    SessionStarted string int string
  | MessageAppended Message
  | TurnStarted string string
  | AssistantMessageDelta string string Usage "bytes option"
  | AssistantMessage string Message StopReason string Usage cost "bytes option"
  | ToolExecutionStarted string string string
  | ToolResult string string bool bool string
  | ToolResultCleared string int string
  | TurnAborted string TerminationReason Usage cost
  | TurnFinished string TerminationReason Usage cost int
  | CompactionPerformed int int string
  | PermissionDecided string string PermissionDecision AskResolution string string
  | WorkspaceReset string
  | BypassModeActivated string PermissionMode PermissionMode string
  | MCPToolApprovalRequested string string string string
  | MCPToolApprovalResolved string string bool
  | PlanUpdated string "PlanItem list"
  | ApprovalRequested string string string string args

datatype EventType = EventSessionStarted | EventMessageAppended | EventTurnStarted
  | EventAssistantMessageDelta | EventAssistantMessage | EventToolExecutionStarted
  | EventToolResult | EventToolResultCleared | EventTurnAborted | EventTurnFinished
  | EventCompactionPerformed | EventPermissionDecided | EventWorkspaceReset
  | EventBypassModeActivated | EventMCPToolApprovalRequested | EventMCPToolApprovalResolved
  | EventPlanUpdated | EventApprovalRequested | EventOther string

primrec eventType :: "event \<Rightarrow> EventType" where
  "eventType (SessionStarted _ _ _) = EventSessionStarted"
| "eventType (MessageAppended _) = EventMessageAppended"
| "eventType (TurnStarted _ _) = EventTurnStarted"
| "eventType (AssistantMessageDelta _ _ _ _) = EventAssistantMessageDelta"
| "eventType (AssistantMessage _ _ _ _ _ _ _) = EventAssistantMessage"
| "eventType (ToolExecutionStarted _ _ _) = EventToolExecutionStarted"
| "eventType (ToolResult _ _ _ _ _) = EventToolResult"
| "eventType (ToolResultCleared _ _ _) = EventToolResultCleared"
| "eventType (TurnAborted _ _ _ _) = EventTurnAborted"
| "eventType (TurnFinished _ _ _ _ _) = EventTurnFinished"
| "eventType (CompactionPerformed _ _ _) = EventCompactionPerformed"
| "eventType (PermissionDecided _ _ _ _ _ _) = EventPermissionDecided"
| "eventType (WorkspaceReset _) = EventWorkspaceReset"
| "eventType (BypassModeActivated _ _ _ _) = EventBypassModeActivated"
| "eventType (MCPToolApprovalRequested _ _ _ _) = EventMCPToolApprovalRequested"
| "eventType (MCPToolApprovalResolved _ _ _) = EventMCPToolApprovalResolved"
| "eventType (PlanUpdated _ _) = EventPlanUpdated"
| "eventType (ApprovalRequested _ _ _ _ _) = EventApprovalRequested"

record EventEnvelope =
  envType :: EventType
  envSeq :: int
  envSessionID :: string
  envTenantID :: string
  envRequestID :: string
  envSchemaVersion :: int
  envActor :: Actor
  envCreatedAt :: int
  envEvent :: event
  envPayloadCanonical :: "bytes option"
  envContentHash :: "bytes option"
  envChainHash :: "bytes option"

record AppendInput =
  aiEvent :: event
  aiSchemaVersion :: int
  aiActor :: Actor

section \<open>Plan validation\<close>

datatype plan_error = PlanEmptyContent nat | PlanBadStatus nat string

fun validateFrom :: "nat \<Rightarrow> PlanItem list \<Rightarrow> plan_error option" where
  "validateFrom i [] = None"
| "validateFrom i (it # its) =
     (if piContent it = '''' then Some (PlanEmptyContent i)
      else if piStatus it \<in> {PlanStatusPending, PlanStatusInProgress, PlanStatusCompleted}
      then validateFrom (Suc i) its
      else Some (PlanBadStatus i (piStatus it)))"

definition Validate :: "PlanItem list \<Rightarrow> plan_error option" where
  "Validate its = validateFrom 0 its"

definition wfPlanItem :: "PlanItem \<Rightarrow> bool" where
  "wfPlanItem it \<longleftrightarrow> piContent it \<noteq> '''' \<and>
     piStatus it \<in> {PlanStatusPending, PlanStatusInProgress, PlanStatusCompleted}"

lemma validateFrom_None: "validateFrom i its = None \<longleftrightarrow> list_all wfPlanItem its"
  by (induction i its rule: validateFrom.induct) (auto simp: wfPlanItem_def)

section \<open>Sessions\<close>

datatype SessionStatus = StatusActive | StatusFinished | StatusFailed

record Session =
  sID :: string
  sTenantID :: string
  sParentID :: string
  sForkedFromSeq :: int
  sStatus :: SessionStatus
  sMode :: PermissionMode
  sHeadSeq :: int
  sLeaseOwner :: string
  sLeaseEpoch :: int
  sLeaseExpiry :: int
  sLastEventAt :: int
  sCreatedAt :: int
  sUpdatedAt :: int

definition zeroSession :: Session where
  "zeroSession = \<lparr>sID = '''', sTenantID = '''', sParentID = '''', sForkedFromSeq = 0,
     sStatus = StatusActive, sMode = ModeUnset, sHeadSeq = 0, sLeaseOwner = '''', sLeaseEpoch = 0,
     sLeaseExpiry = 0, sLastEventAt = 0, sCreatedAt = 0, sUpdatedAt = 0\<rparr>"

definition IsActive :: "Session \<Rightarrow> bool" where
  "IsActive s \<longleftrightarrow> sStatus s = StatusActive"

definition IsFork :: "Session \<Rightarrow> bool" where
  "IsFork s \<longleftrightarrow> sParentID s \<noteq> ''''"

end
