(* ===== verification/PolicyEngine.thy ===== *)
theory PolicyEngine
  imports Domain
begin

text \<open>
  The permission pipeline, \<^verbatim>\<open>internal/orchestrator/policy\<close>: deny rules, then the mode, then allow rules,
  then ask. \<^verbatim>\<open>url.Parse\<close> followed by \<^verbatim>\<open>Hostname\<close> is the parameter \<open>parseHost\<close>: \<open>None\<close> is a parse error. The
  arguments of a tool call are an association list; the code looks keys up and quantifies over the
  values, so the order of the list does not matter. The contract that the agent loop relies on is the
  locale \<open>policy_port\<close>, which the engine interprets.
\<close>

section \<open>Data\<close>

datatype Decision = Allow | Deny | Ask

definition ToPersisted :: "Decision \<Rightarrow> PermissionDecision" where
  "ToPersisted d = (case d of Allow \<Rightarrow> PermissionAllow | Deny \<Rightarrow> PermissionDeny | Ask \<Rightarrow> PermissionAsk)"

datatype Mode = PModeDefault | PModeAcceptEdits | PModePlan | PModeBypass | PModeOther string

datatype RuleEffect = EffectDeny | EffectAllow | EffectOther string

record Rule =
  rID :: string
  rEffect :: RuleEffect
  rToolName :: string
  rArgMatch :: string

record Input =
  inSessionID :: string
  inCallID :: string
  inToolName :: string
  inToolArgs :: args
  inSideEffect :: SideEffect
  inEgressClass :: EgressClass
  inMode :: Mode
  inTainted :: bool

record Result =
  resDecision :: Decision
  resRuleID :: string
  resReason :: string

datatype policy_error = ErrBypassForbidden | ErrInvalidEffect nat string RuleEffect

record Config =
  cfgRules :: "Rule list"
  cfgEditTools :: "string list"

definition DefaultEditTools :: "string list" where
  "DefaultEditTools = [''edit'', ''write'']"

record Engine =
  denyRules :: "Rule list"
  allowRules :: "Rule list"
  editTools :: "string list"

section \<open>Construction\<close>

fun partitionRules :: "nat \<Rightarrow> Rule list \<Rightarrow> Rule list \<times> Rule list \<Rightarrow> policy_error + Rule list \<times> Rule list" where
  "partitionRules i [] acc = Inr acc"
| "partitionRules i (r # rs) (ds, as) =
     (case rEffect r of
        EffectDeny \<Rightarrow> partitionRules (Suc i) rs (ds @ [r], as)
      | EffectAllow \<Rightarrow> partitionRules (Suc i) rs (ds, as @ [r])
      | EffectOther e \<Rightarrow> Inl (ErrInvalidEffect i (rID r) (EffectOther e)))"

definition NewEngine :: "Config \<Rightarrow> policy_error + Engine" where
  "NewEngine cfg = andThen (partitionRules 0 (cfgRules cfg) ([], [])) (\<lambda>(ds, as).
     Inr \<lparr>denyRules = ds, allowRules = as,
          editTools = (if cfgEditTools cfg = [] then DefaultEditTools else cfgEditTools cfg)\<rparr>)"

section \<open>Matching\<close>

definition stringArg :: "args \<Rightarrow> string \<Rightarrow> string option" where
  "stringArg as k = (case map_of as k of Some (JStr s) \<Rightarrow> Some s | _ \<Rightarrow> None)"

definition anyStringArg :: "args \<Rightarrow> (string \<Rightarrow> bool) \<Rightarrow> bool" where
  "anyStringArg as pred \<longleftrightarrow> list_ex (\<lambda>(k, v). case v of JStr s \<Rightarrow> pred s | _ \<Rightarrow> False) as"

definition targetHost :: "(string \<Rightarrow> string option) \<Rightarrow> args \<Rightarrow> string" where
  "targetHost parseHost as =
     (case stringArg as ''host'' of
        Some h \<Rightarrow> if h \<noteq> '''' then ToLower h else
          (case stringArg as ''url'' of
             Some raw \<Rightarrow> if raw \<noteq> '''' then (case parseHost raw of Some hn \<Rightarrow> ToLower hn | None \<Rightarrow> '''') else ''''
           | None \<Rightarrow> '''')
      | None \<Rightarrow>
          (case stringArg as ''url'' of
             Some raw \<Rightarrow> if raw \<noteq> '''' then (case parseHost raw of Some hn \<Rightarrow> ToLower hn | None \<Rightarrow> '''') else ''''
           | None \<Rightarrow> ''''))"

definition hostMatches :: "(string \<Rightarrow> string option) \<Rightarrow> string \<Rightarrow> args \<Rightarrow> bool" where
  "hostMatches parseHost want as =
     (let w = ToLower (TrimSpace want); got = targetHost parseHost as in
      w \<noteq> '''' \<and> got \<noteq> '''' \<and> (got = w \<or> HasSuffix got (''.'' @ w)))"

definition argMatches :: "(string \<Rightarrow> string option) \<Rightarrow> string \<Rightarrow> args \<Rightarrow> bool" where
  "argMatches parseHost expr as =
     (case CutPrefix expr ''host:'' of
        Some host \<Rightarrow> hostMatches parseHost host as
      | None \<Rightarrow>
          (case CutSuffix expr ''*'' of
             Some prefix \<Rightarrow> anyStringArg as (\<lambda>v. HasPrefix v prefix)
           | None \<Rightarrow> anyStringArg as (\<lambda>v. Contains v expr)))"

definition ruleMatches :: "(string \<Rightarrow> string option) \<Rightarrow> Rule \<Rightarrow> Input \<Rightarrow> bool" where
  "ruleMatches parseHost r inp =
     (if rToolName r \<noteq> '''' \<and> rToolName r \<noteq> inToolName inp then False
      else if rArgMatch r = '''' then True
      else argMatches parseHost (rArgMatch r) (inToolArgs inp))"

definition firstMatch :: "(string \<Rightarrow> string option) \<Rightarrow> Rule list \<Rightarrow> Input \<Rightarrow> Rule option" where
  "firstMatch parseHost rules inp = find (\<lambda>r. ruleMatches parseHost r inp) rules"

definition isEditTool :: "Engine \<Rightarrow> Input \<Rightarrow> bool" where
  "isEditTool e inp \<longleftrightarrow> inToolName inp \<in> set (editTools e)"

definition isExternal :: "Input \<Rightarrow> bool" where
  "isExternal inp \<longleftrightarrow> (case inEgressClass inp of EgressClassNone \<Rightarrow> False | EgressClassInternal \<Rightarrow> False | _ \<Rightarrow> True)"

definition denyReason :: "Rule \<Rightarrow> string" where
  "denyReason r = (if rID r \<noteq> '''' then ''denied by rule '' @ rID r else ''denied by deny rule'')"

definition allowReason :: "Rule \<Rightarrow> string" where
  "allowReason r = (if rID r \<noteq> '''' then ''allowed by rule '' @ rID r else ''allowed by allow rule'')"

section \<open>The pipeline\<close>

definition allowStage :: "(string \<Rightarrow> string option) \<Rightarrow> Engine \<Rightarrow> Input \<Rightarrow> Result" where
  "allowStage parseHost e inp =
     (case firstMatch parseHost (allowRules e) inp of
        Some r \<Rightarrow>
          if isExternal inp \<and> inTainted inp
          then \<lparr>resDecision = Ask, resRuleID = rID r,
                resReason = ''external-comms escalated to approval: untrusted content present (taint gate)''\<rparr>
          else \<lparr>resDecision = Allow, resRuleID = rID r, resReason = allowReason r\<rparr>
      | None \<Rightarrow>
          if isExternal inp
          then \<lparr>resDecision = Ask, resRuleID = '''', resReason = ''external-comms to non-allowlisted host requires approval''\<rparr>
          else \<lparr>resDecision = Ask, resRuleID = '''', resReason = ''no matching allow rule: action requires approval''\<rparr>)"

definition Evaluate :: "(string \<Rightarrow> string option) \<Rightarrow> Engine \<Rightarrow> Input \<Rightarrow> policy_error + Result" where
  "Evaluate parseHost e inp =
     (case firstMatch parseHost (denyRules e) inp of
        Some r \<Rightarrow> Inr \<lparr>resDecision = Deny, resRuleID = rID r, resReason = denyReason r\<rparr>
      | None \<Rightarrow>
        (case inMode inp of
           PModeBypass \<Rightarrow>
             if inTainted inp then Inl ErrBypassForbidden
             else Inr \<lparr>resDecision = Allow, resRuleID = ''bypass'',
               resReason = ''bypass mode: allow/ask pipeline collapsed by operator (infra controls still enforced)''\<rparr>
         | PModeAcceptEdits \<Rightarrow>
             if isEditTool e inp
             then Inr \<lparr>resDecision = Allow, resRuleID = ''accept_edits'',
                    resReason = ''acceptEdits mode: file edit auto-approved''\<rparr>
             else Inr (allowStage parseHost e inp)
         | PModePlan \<Rightarrow>
             if inSideEffect inp = SideEffectMutating
             then Inr \<lparr>resDecision = Ask, resRuleID = ''plan'',
                    resReason = ''plan mode: mutating tool held for approval (planning only)''\<rparr>
             else Inr (allowStage parseHost e inp)
         | _ \<Rightarrow> Inr (allowStage parseHost e inp)))"

definition severity :: "'err + Result \<Rightarrow> nat" where
  "severity v = (case v of Inl _ \<Rightarrow> 3 | Inr r \<Rightarrow> (case resDecision r of Allow \<Rightarrow> 0 | Ask \<Rightarrow> 1 | Deny \<Rightarrow> 2))"

definition ruleDenies :: "(string \<Rightarrow> string option) \<Rightarrow> Engine \<Rightarrow> Input \<Rightarrow> bool" where
  "ruleDenies parseHost e inp \<longleftrightarrow> (\<exists>r \<in> set (denyRules e). ruleMatches parseHost r inp)"

definition ruleAllows :: "(string \<Rightarrow> string option) \<Rightarrow> Engine \<Rightarrow> Input \<Rightarrow> bool" where
  "ruleAllows parseHost e inp \<longleftrightarrow> (\<exists>r \<in> set (allowRules e). ruleMatches parseHost r inp)"

definition demoRules :: "Rule list" where
  "demoRules = [\<lparr>rID = ''a'', rEffect = EffectAllow, rToolName = ''webfetch'', rArgMatch = ''host:example.com''\<rparr>,
     \<lparr>rID = ''d'', rEffect = EffectDeny, rToolName = ''bash'', rArgMatch = ''rm -rf*''\<rparr>]"

definition demoEngine :: Engine where
  "demoEngine = projr (NewEngine \<lparr>cfgRules = demoRules, cfgEditTools = []\<rparr>)"

definition demoHost :: "string \<Rightarrow> string option" where
  "demoHost u = CutPrefix u ''https://''"

definition demoCall :: "string \<Rightarrow> args \<Rightarrow> Mode \<Rightarrow> bool \<Rightarrow> Input" where
  "demoCall tool as md tainted = \<lparr>inSessionID = ''s'', inCallID = ''c'', inToolName = tool, inToolArgs = as,
     inSideEffect = SideEffectMutating, inEgressClass = EgressClassExternal, inMode = md, inTainted = tainted\<rparr>"

section \<open>The contract\<close>

text \<open>
  What the agent loop relies on: a forbidden call is denied in every mode, with and without taint, and
  taint never makes a decision more permissive.
\<close>

locale policy_port =
  fixes evaluate :: "Input \<Rightarrow> 'err + Result"
    and forbidden :: "Input \<Rightarrow> bool"
  assumes forbidden_denied: "forbidden i \<Longrightarrow> \<exists>r. evaluate i = Inr r \<and> resDecision r = Deny"
    and forbidden_mode: "forbidden (i\<lparr>inMode := m\<rparr>) = forbidden i"
    and forbidden_taint: "forbidden (i\<lparr>inTainted := b\<rparr>) = forbidden i"
    and taint_escalates: "severity (evaluate (i\<lparr>inTainted := False\<rparr>)) \<le> severity (evaluate (i\<lparr>inTainted := True\<rparr>))"
begin

lemma permitted_not_forbidden: "evaluate i = Inr r \<Longrightarrow> resDecision r \<noteq> Deny \<Longrightarrow> \<not> forbidden i"
  using forbidden_denied [of i] by auto

lemma tainted_allow_is_allow:
  assumes "evaluate (i\<lparr>inTainted := True\<rparr>) = Inr r" "resDecision r = Allow"
  shows "\<exists>r'. evaluate (i\<lparr>inTainted := False\<rparr>) = Inr r' \<and> resDecision r' = Allow"
  using taint_escalates [of i] assms
  by (cases "evaluate (i\<lparr>inTainted := False\<rparr>)") (auto simp: severity_def split: Decision.splits)

end

section \<open>Rules\<close>

lemma firstMatch_None: "firstMatch parseHost rs inp = None \<longleftrightarrow> \<not> (\<exists>r \<in> set rs. ruleMatches parseHost r inp)"
  by (auto simp: firstMatch_def find_None_iff)

lemma ruleMatches_cong:
  "inToolName i = inToolName j \<Longrightarrow> inToolArgs i = inToolArgs j \<Longrightarrow> ruleMatches parseHost r i = ruleMatches parseHost r j"
  by (simp add: ruleMatches_def)

lemma firstMatch_update [simp]:
  "firstMatch parseHost rs (i\<lparr>inTainted := b\<rparr>) = firstMatch parseHost rs i"
  "firstMatch parseHost rs (i\<lparr>inMode := m\<rparr>) = firstMatch parseHost rs i"
  by (simp_all add: firstMatch_def ruleMatches_def)

lemma partitionRules_eq:
  "partitionRules i rs (ds, as) =
     (if \<forall>r \<in> set rs. rEffect r \<in> {EffectDeny, EffectAllow}
      then Inr (ds @ filter (\<lambda>r. rEffect r = EffectDeny) rs, as @ filter (\<lambda>r. rEffect r = EffectAllow) rs)
      else Inl (let k = length (takeWhile (\<lambda>r. rEffect r \<in> {EffectDeny, EffectAllow}) rs)
                in ErrInvalidEffect (i + k) (rID (rs ! k)) (rEffect (rs ! k))))"
  by (induction rs arbitrary: i ds as) (auto simp: Let_def split: RuleEffect.splits)

lemma Evaluate_Deny_iff:
  "(\<exists>r. Evaluate parseHost e inp = Inr r \<and> resDecision r = Deny) \<longleftrightarrow> ruleDenies parseHost e inp"
proof (cases "firstMatch parseHost (denyRules e) inp")
  case None
  then have "\<not> ruleDenies parseHost e inp" by (simp add: ruleDenies_def firstMatch_None)
  with None show ?thesis
    by (auto simp: Evaluate_def allowStage_def split: Mode.splits option.splits if_splits)
next
  case (Some r)
  then have "ruleDenies parseHost e inp"
    unfolding ruleDenies_def by (metis firstMatch_None option.distinct(1))
  with Some show ?thesis by (simp add: Evaluate_def)
qed

lemma Evaluate_taint:
  "severity (Evaluate parseHost e (i\<lparr>inTainted := False\<rparr>)) \<le> severity (Evaluate parseHost e (i\<lparr>inTainted := True\<rparr>))"
  by (simp add: Evaluate_def allowStage_def severity_def isExternal_def isEditTool_def split: Mode.splits option.splits EgressClass.splits)

interpretation engine: policy_port "Evaluate parseHost e" "ruleDenies parseHost e" for parseHost e
proof
  show "ruleDenies parseHost e i \<Longrightarrow> \<exists>r. Evaluate parseHost e i = Inr r \<and> resDecision r = Deny" for i
    using Evaluate_Deny_iff by blast
qed (simp_all add: ruleDenies_def ruleMatches_def Evaluate_taint)

section \<open>Properties\<close>

text \<open>
  C12. The pipeline permits a call without approval in exactly three cases, none of which survives a
  matching deny rule: bypass mode in an untainted session; an edit tool in accept-edits mode; or a
  matching allow rule, unless the session is in bypass mode, or plan mode holds a mutating tool, or
  the call is external and the session tainted.
\<close>

theorem evaluate_allow_iff:
  "(\<exists>r. Evaluate parseHost e inp = Inr r \<and> resDecision r = Allow) \<longleftrightarrow>
   \<not> ruleDenies parseHost e inp \<and>
   (if inMode inp = PModeBypass then \<not> inTainted inp
    else inMode inp = PModeAcceptEdits \<and> isEditTool e inp \<or>
         ruleAllows parseHost e inp \<and> \<not> (isExternal inp \<and> inTainted inp) \<and>
         \<not> (inMode inp = PModePlan \<and> inSideEffect inp = SideEffectMutating))"
proof -
  have a: "resDecision (allowStage parseHost e inp) = Allow \<longleftrightarrow> ruleAllows parseHost e inp \<and> \<not> (isExternal inp \<and> inTainted inp)"
  proof (cases "firstMatch parseHost (allowRules e) inp")
    case None
    then have "\<not> ruleAllows parseHost e inp" by (simp add: ruleAllows_def firstMatch_None)
    with None show ?thesis by (simp add: allowStage_def)
  next
    case (Some r)
    then have "ruleAllows parseHost e inp"
      unfolding ruleAllows_def by (metis firstMatch_None option.distinct(1))
    with Some show ?thesis by (simp add: allowStage_def)
  qed
  show ?thesis
  proof (cases "firstMatch parseHost (denyRules e) inp")
    case None
    then have "\<not> ruleDenies parseHost e inp" by (simp add: ruleDenies_def firstMatch_None)
    with None a show ?thesis by (auto simp: Evaluate_def split: Mode.splits if_splits)
  next
    case (Some r)
    then have "ruleDenies parseHost e inp"
      unfolding ruleDenies_def by (metis firstMatch_None option.distinct(1))
    with Some show ?thesis by (simp add: Evaluate_def)
  qed
qed



text \<open>
  C14. Deny rules are absolute and order-free. Inserting a deny rule at any place of a valid rule set
  leaves the configuration valid, makes no decision more permissive, and denies every call the rule
  matches, in every mode, tainted or not.
\<close>

theorem deny_rule_absolute:
  assumes "NewEngine \<lparr>cfgRules = rs1 @ rs2, cfgEditTools = tools\<rparr> = Inr e" and "rEffect d = EffectDeny"
  shows "\<exists>e'. NewEngine \<lparr>cfgRules = rs1 @ [d] @ rs2, cfgEditTools = tools\<rparr> = Inr e' \<and>
    (if ruleMatches parseHost d inp then \<exists>r. Evaluate parseHost e' inp = Inr r \<and> resDecision r = Deny
     else severity (Evaluate parseHost e' inp) = severity (Evaluate parseHost e inp))"
proof -
  have ok: "\<forall>r \<in> set (rs1 @ rs2). rEffect r \<in> {EffectDeny, EffectAllow}"
    using assms(1) by (auto simp: NewEngine_def partitionRules_eq andThen_Inr_iff split: if_splits)
  have e: "e = \<lparr>denyRules = filter (\<lambda>r. rEffect r = EffectDeny) (rs1 @ rs2),
      allowRules = filter (\<lambda>r. rEffect r = EffectAllow) (rs1 @ rs2),
      editTools = (if tools = [] then DefaultEditTools else tools)\<rparr>"
    using assms(1) ok by (auto simp add: NewEngine_def partitionRules_eq)
  define e' where "e' = e\<lparr>denyRules := filter (\<lambda>r. rEffect r = EffectDeny) rs1 @ d # filter (\<lambda>r. rEffect r = EffectDeny) rs2\<rparr>"
  have n: "NewEngine \<lparr>cfgRules = rs1 @ [d] @ rs2, cfgEditTools = tools\<rparr> = Inr e'"
    using ok assms(2) by (simp add: NewEngine_def partitionRules_eq e'_def e)
  have "severity (Evaluate parseHost e' inp) = severity (Evaluate parseHost e inp)" if no: "\<not> ruleMatches parseHost d inp"
  proof -
    have "firstMatch parseHost (denyRules e') inp = firstMatch parseHost (denyRules e) inp"
    proof -
      have "find P (xs @ d # ys) = find P (xs @ ys)" if "\<not> P d" for P :: "Rule \<Rightarrow> bool" and xs ys
        using that by (induction xs) auto
      then show ?thesis using no by (simp add: firstMatch_def e'_def e)
    qed
    moreover have "allowRules e' = allowRules e" "editTools e' = editTools e" by (simp_all add: e'_def)
    ultimately have "Evaluate parseHost e' inp = Evaluate parseHost e inp"
      by (simp only: Evaluate_def allowStage_def isEditTool_def)
    then show ?thesis by simp
  qed
  moreover have "ruleDenies parseHost e' inp" if "ruleMatches parseHost d inp"
    using that by (auto simp: ruleDenies_def e'_def)
  ultimately show ?thesis using n engine.forbidden_denied by auto
qed

theorem deny_rule_absolute_witness:
  "\<exists>e'. NewEngine \<lparr>cfgRules = demoRules @ [\<lparr>rID = ''x'', rEffect = EffectDeny, rToolName = '''', rArgMatch = ''''\<rparr>] @ [], cfgEditTools = []\<rparr> = Inr e' \<and>
     (\<exists>r. Evaluate demoHost e' (demoCall ''edit'' [] PModeBypass False) = Inr r \<and> resDecision r = Deny)"
proof -
  have 1: "NewEngine \<lparr>cfgRules = demoRules @ [], cfgEditTools = []\<rparr> = Inr demoEngine" by code_simp
  have 2: "ruleMatches demoHost \<lparr>rID = ''x'', rEffect = EffectDeny, rToolName = '''', rArgMatch = ''''\<rparr> (demoCall ''edit'' [] PModeBypass False)"
    by code_simp
  show ?thesis
    using deny_rule_absolute [OF 1, of "\<lparr>rID = ''x'', rEffect = EffectDeny, rToolName = '''', rArgMatch = ''''\<rparr>"
        demoHost "demoCall ''edit'' [] PModeBypass False"] 2 by simp
qed

text \<open>
  C15. Construction fails exactly on an unknown effect, and then names the first rule that has one;
  otherwise the engine holds the deny rules and the allow rules, each in their order.
\<close>

theorem new_engine_validates:
  "NewEngine cfg =
    (if \<forall>r \<in> set (cfgRules cfg). rEffect r = EffectDeny \<or> rEffect r = EffectAllow
     then Inr \<lparr>denyRules = filter (\<lambda>r. rEffect r = EffectDeny) (cfgRules cfg),
          allowRules = filter (\<lambda>r. rEffect r = EffectAllow) (cfgRules cfg),
          editTools = (if cfgEditTools cfg = [] then DefaultEditTools else cfgEditTools cfg)\<rparr>
     else (let k = length (takeWhile (\<lambda>r. rEffect r = EffectDeny \<or> rEffect r = EffectAllow) (cfgRules cfg))
           in Inl (ErrInvalidEffect k (rID (cfgRules cfg ! k)) (rEffect (cfgRules cfg ! k)))))"
  by (auto simp: NewEngine_def partitionRules_eq Let_def)

theorem new_engine_validates_witness:
  "NewEngine \<lparr>cfgRules = demoRules @ [\<lparr>rID = ''bad'', rEffect = EffectOther ''maybe'', rToolName = ''t'', rArgMatch = ''x''\<rparr>], cfgEditTools = []\<rparr> =
     Inl (ErrInvalidEffect 2 ''bad'' (EffectOther ''maybe''))"
  by (subst new_engine_validates) code_simp

end
