(* ===== verification/Recovery.thy ===== *)
theory Recovery
  imports Domain
begin

text \<open>
  Crash recovery, \<^verbatim>\<open>internal/orchestrator/app/recovery\<close>: the pure fold of a session's log into the
  adjudication plan a resumed run must carry out. The pointer-valued maps of the code are maps from
  ids to state records, each with the list that keeps the insertion order. The properties compare the
  fold with specifications read off the log itself.
\<close>

section \<open>Data\<close>

record OpenTurn =
  otTurnID :: string
  otRecoveredUsage :: Usage
  otLastProviderRaw :: "bytes option"

record UnknownExecution =
  ueCallID :: string
  ueToolName :: string
  ueIdempotencyKey :: string
  ueSideEffect :: SideEffect
  ueReDispatchable :: bool

record SuspendedApproval =
  saTurnID :: string
  saCallID :: string
  saToolName :: string
  saReason :: string
  saArgs :: args

record Plan =
  OpenTurns :: "OpenTurn list"
  UnknownExecutions :: "UnknownExecution list"
  SuspendedApprovals :: "SuspendedApproval list"

record turnState =
  tsTurnID :: string
  tsRecoveredUsage :: Usage
  tsLastProviderRaw :: "bytes option"
  tsClosed :: bool
  tsTerminated :: bool

record execState =
  esCallID :: string
  esToolName :: string
  esIdempotencyKey :: string
  esClosed :: bool

record approvalState =
  asTurnID :: string
  asCallID :: string
  asToolName :: string
  asReason :: string
  asArgs :: args
  asResolved :: bool

record foldState =
  fsTurns :: "string \<rightharpoonup> turnState"
  fsTurnOrder :: "string list"
  fsExecs :: "string \<rightharpoonup> execState"
  fsExecOrder :: "string list"
  fsApprovals :: "string \<rightharpoonup> approvalState"
  fsApprovalOrder :: "string list"

definition emptyFold :: foldState where
  "emptyFold = \<lparr>fsTurns = Map.empty, fsTurnOrder = [], fsExecs = Map.empty, fsExecOrder = [],
     fsApprovals = Map.empty, fsApprovalOrder = []\<rparr>"

type_synonym SideEffectLookup = "(string \<Rightarrow> SideEffect) option"

section \<open>The fold\<close>

definition updTurn :: "string \<Rightarrow> (turnState \<Rightarrow> turnState) \<Rightarrow> foldState \<Rightarrow> foldState" where
  "updTurn t f s = (case fsTurns s t of None \<Rightarrow> s | Some ts \<Rightarrow> s\<lparr>fsTurns := (fsTurns s)(t \<mapsto> f ts)\<rparr>)"

fun foldEvent :: "event \<Rightarrow> foldState \<Rightarrow> foldState" where
  "foldEvent (TurnStarted t model) s =
     (case fsTurns s t of
        Some _ \<Rightarrow> s
      | None \<Rightarrow> s\<lparr>fsTurns := (fsTurns s)(t \<mapsto> \<lparr>tsTurnID = t, tsRecoveredUsage = zeroUsage,
                    tsLastProviderRaw = None, tsClosed = False, tsTerminated = False\<rparr>),
                 fsTurnOrder := fsTurnOrder s @ [t]\<rparr>)"
| "foldEvent (AssistantMessageDelta t text usage raw) s =
     updTurn t (\<lambda>ts. if tsClosed ts then ts
       else ts\<lparr>tsRecoveredUsage := usage, tsLastProviderRaw := raw\<rparr>) s"
| "foldEvent (AssistantMessage t msg stop rawStop usage c raw) s =
     updTurn t (\<lambda>ts. ts\<lparr>tsClosed := True\<rparr>) s"
| "foldEvent (TurnAborted t reason usage c) s =
     updTurn t (\<lambda>ts. ts\<lparr>tsClosed := True, tsTerminated := True\<rparr>) s"
| "foldEvent (TurnFinished t reason usage c n) s =
     updTurn t (\<lambda>ts. ts\<lparr>tsClosed := True, tsTerminated := True\<rparr>) s"
| "foldEvent (ToolExecutionStarted cid tool key) s =
     (case fsExecs s cid of
        Some _ \<Rightarrow> s
      | None \<Rightarrow> s\<lparr>fsExecs := (fsExecs s)(cid \<mapsto> \<lparr>esCallID = cid, esToolName = tool,
                    esIdempotencyKey = key, esClosed = False\<rparr>),
                 fsExecOrder := fsExecOrder s @ [cid]\<rparr>)"
| "foldEvent (ToolResult cid result isErr trunc ref) s =
     (case fsExecs s cid of
        None \<Rightarrow> s
      | Some es \<Rightarrow> s\<lparr>fsExecs := (fsExecs s)(cid \<mapsto> es\<lparr>esClosed := True\<rparr>)\<rparr>)"
| "foldEvent (ApprovalRequested t cid tool reason as) s =
     (case fsApprovals s cid of
        Some a \<Rightarrow> s\<lparr>fsApprovals := (fsApprovals s)(cid \<mapsto> a\<lparr>asTurnID := t, asToolName := tool,
                    asReason := reason, asArgs := as, asResolved := False\<rparr>)\<rparr>
      | None \<Rightarrow> s\<lparr>fsApprovals := (fsApprovals s)(cid \<mapsto> \<lparr>asTurnID = t, asCallID = cid, asToolName = tool,
                    asReason = reason, asArgs = as, asResolved = False\<rparr>),
                 fsApprovalOrder := fsApprovalOrder s @ [cid]\<rparr>)"
| "foldEvent (PermissionDecided cid tool decision resolved rule reason) s =
     (case fsApprovals s cid of
        None \<Rightarrow> s
      | Some a \<Rightarrow> s\<lparr>fsApprovals := (fsApprovals s)(cid \<mapsto> a\<lparr>asResolved := True\<rparr>)\<rparr>)"
| "foldEvent _ s = s"

definition resolveSideEffect :: "string \<Rightarrow> SideEffectLookup \<Rightarrow> SideEffect" where
  "resolveSideEffect tool lookup =
     (case lookup of None \<Rightarrow> SideEffectMutating
      | Some f \<Rightarrow> if f tool = SideEffectUnset then SideEffectMutating else f tool)"

definition suspendedAt :: "foldState \<Rightarrow> string \<Rightarrow> SuspendedApproval option" where
  "suspendedAt s cid =
     (case fsApprovals s cid of
       None \<Rightarrow> None
     | Some a \<Rightarrow>
         if asResolved a then None
         else (case fsTurns s (asTurnID a) of
                 None \<Rightarrow> None
               | Some ts \<Rightarrow> if tsTerminated ts then None
                   else Some \<lparr>saTurnID = asTurnID a, saCallID = asCallID a, saToolName = asToolName a,
                          saReason = asReason a, saArgs = asArgs a\<rparr>))"

definition suspendedOf :: "foldState \<Rightarrow> SuspendedApproval list" where
  "suspendedOf s = List.map_filter (suspendedAt s) (fsApprovalOrder s)"

definition openTurnsOf :: "foldState \<Rightarrow> OpenTurn list" where
  "openTurnsOf s = List.map_filter (\<lambda>t.
     case fsTurns s t of
       None \<Rightarrow> None
     | Some ts \<Rightarrow>
         if tsClosed ts \<or> t \<in> saTurnID ` set (suspendedOf s) then None
         else Some \<lparr>otTurnID = tsTurnID ts, otRecoveredUsage = tsRecoveredUsage ts,
                otLastProviderRaw = tsLastProviderRaw ts\<rparr>) (fsTurnOrder s)"

definition unknownOf :: "SideEffectLookup \<Rightarrow> foldState \<Rightarrow> UnknownExecution list" where
  "unknownOf lookup s = List.map_filter (\<lambda>cid.
     case fsExecs s cid of
       None \<Rightarrow> None
     | Some es \<Rightarrow>
         if esClosed es then None
         else let se = resolveSideEffect (esToolName es) lookup in
           Some \<lparr>ueCallID = esCallID es, ueToolName = esToolName es, ueIdempotencyKey = esIdempotencyKey es,
             ueSideEffect = se, ueReDispatchable = (se = SideEffectReadOnly)\<rparr>) (fsExecOrder s)"

definition foldLog :: "event list \<Rightarrow> foldState" where
  "foldLog es = fold foldEvent es emptyFold"

definition Analyze :: "EventEnvelope list \<Rightarrow> SideEffectLookup \<Rightarrow> Plan" where
  "Analyze events lookup =
     (let s = foldLog (map envEvent events) in
      \<lparr>OpenTurns = openTurnsOf s, UnknownExecutions = unknownOf lookup s, SuspendedApprovals = suspendedOf s\<rparr>)"

section \<open>Specifications read off the log\<close>

definition isResultOf :: "string \<Rightarrow> event \<Rightarrow> bool" where
  "isResultOf cid e = (case e of ToolResult c _ _ _ _ \<Rightarrow> c = cid | _ \<Rightarrow> False)"

fun startedCalls :: "event list \<Rightarrow> string list" where
  "startedCalls [] = []"
| "startedCalls (e # es) = (case e of ToolExecutionStarted cid _ _ \<Rightarrow> cid # startedCalls es | _ \<Rightarrow> startedCalls es)"

text \<open>The executions with no result after their start.\<close>

fun unfinishedExecutions :: "SideEffectLookup \<Rightarrow> event list \<Rightarrow> UnknownExecution list" where
  "unfinishedExecutions lookup [] = []"
| "unfinishedExecutions lookup (e # es) =
     (case e of
        ToolExecutionStarted cid tool key \<Rightarrow>
          if list_ex (isResultOf cid) es then unfinishedExecutions lookup es
          else \<lparr>ueCallID = cid, ueToolName = tool, ueIdempotencyKey = key,
                 ueSideEffect = resolveSideEffect tool lookup,
                 ueReDispatchable = (resolveSideEffect tool lookup = SideEffectReadOnly)\<rparr> # unfinishedExecutions lookup es
      | _ \<Rightarrow> unfinishedExecutions lookup es)"

definition closesTurn :: "string \<Rightarrow> event \<Rightarrow> bool" where
  "closesTurn t e = (case e of AssistantMessage t' _ _ _ _ _ _ \<Rightarrow> t' = t | TurnAborted t' _ _ _ \<Rightarrow> t' = t
     | TurnFinished t' _ _ _ _ \<Rightarrow> t' = t | _ \<Rightarrow> False)"

definition startsTurn :: "string \<Rightarrow> event \<Rightarrow> bool" where
  "startsTurn t e = (case e of TurnStarted t' _ \<Rightarrow> t' = t | _ \<Rightarrow> False)"

text \<open>A turn is in flight when it was started and nothing after its first start closes it.\<close>

definition inFlight :: "string \<Rightarrow> event list \<Rightarrow> bool" where
  "inFlight t es = (case dropWhile (\<lambda>e. \<not> startsTurn t e) es of [] \<Rightarrow> False | _ # rest \<Rightarrow> \<not> list_ex (closesTurn t) rest)"

definition demoEnv :: "event \<Rightarrow> EventEnvelope" where
  "demoEnv e = \<lparr>envType = eventType e, envSeq = 1, envSessionID = ''s'', envTenantID = ''t'', envRequestID = ''r'',
     envSchemaVersion = 1, envActor = ActorSystem, envCreatedAt = 0, envEvent = e, envPayloadCanonical = None,
     envContentHash = None, envChainHash = None\<rparr>"

definition demoCrash :: "event list" where
  "demoCrash = [TurnStarted ''t1'' ''m'', ToolExecutionStarted ''c1'' ''read'' ''k1'', ToolResult ''c1'' ''ok'' False False '''',
     ToolExecutionStarted ''c2'' ''bash'' ''k2'', TurnStarted ''t2'' ''m'', ApprovalRequested ''t2'' ''c3'' ''bash'' ''why'' [],
     TurnStarted ''t3'' ''m'']"

definition demoReuse :: "event list" where
  "demoReuse = [TurnStarted ''t1'' ''m'', ToolExecutionStarted ''bash-0'' ''bash'' ''k1'',
     ToolResult ''bash-0'' ''ok'' False False '''', TurnFinished ''t1'' Success zeroUsage 0 1,
     TurnStarted ''t2'' ''m'', ToolExecutionStarted ''bash-0'' ''bash'' ''k2'']"

text \<open>The events a resumed run appends for the open turns of a plan.\<close>

definition abortOpenTurns :: "Plan \<Rightarrow> event list" where
  "abortOpenTurns p = map (\<lambda>t. TurnAborted (otTurnID t) ErrorDuringExecution (otRecoveredUsage t) 0) (OpenTurns p)"

section \<open>The state of the fold\<close>

definition execOk :: "foldState \<Rightarrow> bool" where
  "execOk s \<longleftrightarrow> distinct (fsExecOrder s) \<and> set (fsExecOrder s) = dom (fsExecs s) \<and>
     (\<forall>c es. fsExecs s c = Some es \<longrightarrow> esCallID es = c)"

definition execEvent :: "event \<Rightarrow> bool" where
  "execEvent e = (case e of ToolExecutionStarted _ _ _ \<Rightarrow> True | ToolResult _ _ _ _ _ \<Rightarrow> True | _ \<Rightarrow> False)"

definition turnOk :: "foldState \<Rightarrow> bool" where
  "turnOk s \<longleftrightarrow> distinct (fsTurnOrder s) \<and> set (fsTurnOrder s) = dom (fsTurns s) \<and>
     (\<forall>t ts. fsTurns s t = Some ts \<longrightarrow> tsTurnID ts = t)"

lemma map_filter_Nil_Cons [simp]:
  "List.map_filter f [] = []"
  "List.map_filter f (x # xs) = (case f x of None \<Rightarrow> List.map_filter f xs | Some y \<Rightarrow> y # List.map_filter f xs)"
  by (simp_all add: List.map_filter_def split: option.splits)

lemma map_filter_app: "List.map_filter f (xs @ ys) = List.map_filter f xs @ List.map_filter f ys"
  by (induction xs) (auto split: option.splits)

lemma set_map_filter: "set (List.map_filter f xs) = {y. \<exists>x \<in> set xs. f x = Some y}"
  by (induction xs) (auto split: option.splits)

lemma map_filter_cong_set: "(\<And>x. x \<in> set xs \<Longrightarrow> f x = g x) \<Longrightarrow> List.map_filter f xs = List.map_filter g xs"
  by (induction xs) (auto split: option.splits)

lemma map_filter_remove:
  assumes "\<And>x u. x \<in> set xs \<Longrightarrow> f x = Some u \<Longrightarrow> key u = x"
    and "\<And>x. g x = (if x = k then None else f x)"
  shows "List.map_filter g xs = filter (\<lambda>u. key u \<noteq> k) (List.map_filter f xs)"
  using assms by (induction xs) (auto split: option.splits)

lemma foldEvent_execs_other:
  assumes "\<not> execEvent e"
  shows "fsExecs (foldEvent e s) = fsExecs s \<and> fsExecOrder (foldEvent e s) = fsExecOrder s"
  using assms by (cases e) (auto simp: updTurn_def execEvent_def split: option.splits)

lemma foldEvent_turns_other:
  assumes "\<And>t m. e \<noteq> TurnStarted t m"
  shows "fsTurnOrder (foldEvent e s) = fsTurnOrder s \<and> dom (fsTurns (foldEvent e s)) = dom (fsTurns s)"
  using assms by (cases e) (auto simp: updTurn_def split: option.splits if_splits)

lemma execOk_foldEvent:
  assumes ok: "execOk s"
  shows "execOk (foldEvent e s)"
proof (cases "execEvent e")
  case True
  then show ?thesis
    using ok by (cases e) (auto simp: execOk_def execEvent_def split: option.splits if_splits)
next
  case False
  with foldEvent_execs_other show ?thesis using ok by (simp add: execOk_def)
qed

lemma turnOk_foldEvent: "turnOk s \<Longrightarrow> turnOk (foldEvent e s)"
  by (cases e) (auto simp: turnOk_def updTurn_def split: option.splits if_splits)

lemma fold_ok: "execOk s \<Longrightarrow> turnOk s \<Longrightarrow> execOk (fold foldEvent es s) \<and> turnOk (fold foldEvent es s)"
  by (induction es arbitrary: s) (simp_all add: execOk_foldEvent turnOk_foldEvent)

lemma emptyFold_ok: "execOk emptyFold" "turnOk emptyFold"
  by (simp_all add: execOk_def turnOk_def emptyFold_def)

lemmas foldLog_ok = fold_ok [OF emptyFold_ok, folded foldLog_def]

section \<open>Unknown executions\<close>

lemma unknownOf_cong:
  "fsExecs s' = fsExecs s \<Longrightarrow> fsExecOrder s' = fsExecOrder s \<Longrightarrow> unknownOf lookup s' = unknownOf lookup s"
  by (simp add: unknownOf_def)

lemma unknownOf_result:
  assumes "execOk s"
  shows "unknownOf lookup (foldEvent (ToolResult cid r i t b) s) = filter (\<lambda>u. ueCallID u \<noteq> cid) (unknownOf lookup s)"
proof (cases "fsExecs s cid")
  case None
  have "ueCallID u \<noteq> cid" if "u \<in> set (unknownOf lookup s)" for u
    using that assms None by (auto simp: unknownOf_def set_map_filter execOk_def Let_def split: option.splits if_splits)
  then have "filter (\<lambda>u. ueCallID u \<noteq> cid) (unknownOf lookup s) = unknownOf lookup s"
    by (simp add: filter_id_conv)
  with None show ?thesis by simp
next
  case (Some es)
  show ?thesis
    unfolding unknownOf_def using assms Some
    by (simp, intro map_filter_remove) (auto simp: execOk_def Let_def split: option.splits if_splits)
qed

lemma unknownOf_start:
  assumes "execOk s" "fsExecs s cid = None"
  shows "unknownOf lookup (foldEvent (ToolExecutionStarted cid tool key) s) = unknownOf lookup s @
    [\<lparr>ueCallID = cid, ueToolName = tool, ueIdempotencyKey = key, ueSideEffect = resolveSideEffect tool lookup,
      ueReDispatchable = (resolveSideEffect tool lookup = SideEffectReadOnly)\<rparr>]"
proof -
  have "cid \<notin> set (fsExecOrder s)" using assms by (auto simp: execOk_def)
  then show ?thesis
    using assms(2) by (auto simp: unknownOf_def map_filter_app Let_def intro: map_filter_cong_set)
qed

lemma unknownOf_fold:
  assumes "execOk s" "distinct (startedCalls es)" "set (startedCalls es) \<inter> dom (fsExecs s) = {}"
  shows "unknownOf lookup (fold foldEvent es s) =
    filter (\<lambda>u. \<not> list_ex (isResultOf (ueCallID u)) es) (unknownOf lookup s) @ unfinishedExecutions lookup es"
  using assms
proof (induction es arbitrary: s)
  case (Cons e es)
  have ok: "execOk (foldEvent e s)" using Cons.prems(1) by (rule execOk_foldEvent)
  consider (start) c t k where "e = ToolExecutionStarted c t k" | (result) c r i t b where "e = ToolResult c r i t b"
    | (other) "\<not> execEvent e" by (cases e) (auto simp: execEvent_def)
  then show ?case
  proof cases
    case start
    then have new: "fsExecs s c = None" using Cons.prems(3) by auto
    have "unknownOf lookup (fold foldEvent es (foldEvent e s)) =
        filter (\<lambda>u. \<not> list_ex (isResultOf (ueCallID u)) es) (unknownOf lookup (foldEvent e s)) @ unfinishedExecutions lookup es"
      using Cons.prems start new by (intro Cons.IH [OF ok]) (auto split: if_splits)
    moreover have "isResultOf x e = False" for x using start by (simp add: isResultOf_def)
    ultimately show ?thesis
      using unknownOf_start [OF Cons.prems(1) new] start
      by (cases "list_ex (isResultOf c) es") (simp_all del: foldEvent.simps)
  next
    case result
    have "dom (fsExecs (foldEvent e s)) = dom (fsExecs s)" using result by (auto split: option.splits)
    then have "unknownOf lookup (fold foldEvent es (foldEvent e s)) =
        filter (\<lambda>u. \<not> list_ex (isResultOf (ueCallID u)) es) (unknownOf lookup (foldEvent e s)) @ unfinishedExecutions lookup es"
      using Cons.prems result by (intro Cons.IH [OF ok]) auto
    moreover have "isResultOf x e \<longleftrightarrow> x = c" for x using result by (auto simp: isResultOf_def)
    ultimately show ?thesis
      using unknownOf_result [OF Cons.prems(1)] result by (simp add: conj_commute del: foldEvent.simps)
  next
    case other
    then have same: "fsExecs (foldEvent e s) = fsExecs s" "fsExecOrder (foldEvent e s) = fsExecOrder s"
      using foldEvent_execs_other by blast+
    have spec: "startedCalls (e # es) = startedCalls es" "unfinishedExecutions lookup (e # es) = unfinishedExecutions lookup es"
      "isResultOf x e = False" for x
      using other by (cases e; simp add: isResultOf_def execEvent_def)+
    have "unknownOf lookup (fold foldEvent es (foldEvent e s)) =
        filter (\<lambda>u. \<not> list_ex (isResultOf (ueCallID u)) es) (unknownOf lookup (foldEvent e s)) @ unfinishedExecutions lookup es"
      using Cons.prems spec(1) same by (intro Cons.IH [OF ok]) (simp_all add: spec)
    then show ?thesis by (simp add: spec unknownOf_cong [OF same] del: unfinishedExecutions.simps)
  qed
qed simp

section \<open>Open turns\<close>

definition turnSpec :: "string \<Rightarrow> turnState option \<Rightarrow> event list \<Rightarrow> bool" where
  "turnSpec t ts es = (case ts of None \<Rightarrow> inFlight t es | Some x \<Rightarrow> \<not> tsClosed x \<and> \<not> list_ex (closesTurn t) es)"

lemma inFlight_Cons:
  "inFlight t (e # es) = (if startsTurn t e then \<not> list_ex (closesTurn t) es else inFlight t es)"
  by (simp add: inFlight_def)

lemma turn_foldEvent:
  "turnSpec t (fsTurns s t) (e # es) = turnSpec t (fsTurns (foldEvent e s) t) es"
  by (cases e) (auto simp: turnSpec_def inFlight_Cons startsTurn_def closesTurn_def updTurn_def split: option.splits)

lemma turn_open_fold:
  "(\<exists>ts. fsTurns (fold foldEvent es s) t = Some ts \<and> \<not> tsClosed ts) \<longleftrightarrow> turnSpec t (fsTurns s t) es"
proof (induction es arbitrary: s)
  case Nil
  then show ?case by (simp add: turnSpec_def inFlight_def split: option.splits)
next
  case (Cons e es)
  show ?case
    unfolding turn_foldEvent using Cons.IH [of "foldEvent e s"] by simp
qed

lemma turn_open_log: "(\<exists>ts. fsTurns (foldLog es) t = Some ts \<and> \<not> tsClosed ts) \<longleftrightarrow> inFlight t es"
  unfolding foldLog_def turn_open_fold by (simp add: turnSpec_def emptyFold_def)

lemma openTurnsOf_ids:
  assumes "turnOk s"
  shows "map otTurnID (openTurnsOf s) =
    filter (\<lambda>t. (\<exists>ts. fsTurns s t = Some ts \<and> \<not> tsClosed ts) \<and> t \<notin> saTurnID ` set (suspendedOf s)) (fsTurnOrder s)"
proof -
  have "map otTurnID (List.map_filter (\<lambda>t. case fsTurns s t of None \<Rightarrow> None
       | Some ts \<Rightarrow> if tsClosed ts \<or> t \<in> S then None else Some \<lparr>otTurnID = tsTurnID ts,
           otRecoveredUsage = tsRecoveredUsage ts, otLastProviderRaw = tsLastProviderRaw ts\<rparr>) ts) =
      filter (\<lambda>t. (\<exists>ts. fsTurns s t = Some ts \<and> \<not> tsClosed ts) \<and> t \<notin> S) ts" for ts S
    using assms by (induction ts) (auto simp: turnOk_def split: option.splits)
  then show ?thesis by (simp add: openTurnsOf_def)
qed

lemma terminated_closed:
  "(\<forall>t ts. fsTurns s t = Some ts \<longrightarrow> tsTerminated ts \<longrightarrow> tsClosed ts) \<Longrightarrow>
     \<forall>t ts. fsTurns (fold foldEvent es s) t = Some ts \<longrightarrow> tsTerminated ts \<longrightarrow> tsClosed ts"
proof (induction es arbitrary: s)
  case (Cons e es)
  have "\<forall>t ts. fsTurns (foldEvent e s) t = Some ts \<longrightarrow> tsTerminated ts \<longrightarrow> tsClosed ts"
    using Cons.prems by (cases e) (auto simp: updTurn_def split: option.splits if_splits)
  then show ?case using Cons.IH by simp
qed simp

section \<open>Adjudicating the plan\<close>

lemma inFlight_append_closing:
  assumes "\<exists>e \<in> set fs. closesTurn t e" "\<forall>e \<in> set fs. \<not> startsTurn t e"
  shows "\<not> inFlight t (es @ fs)"
proof (induction es)
  case Nil
  have "dropWhile (\<lambda>e. \<not> startsTurn t e) fs = []" using assms(2) by simp
  then show ?case by (simp add: inFlight_def del: dropWhile_eq_Nil_conv)
qed (use assms(1) in \<open>auto simp: inFlight_Cons list_ex_iff\<close>)

lemma inFlight_append_other:
  "\<forall>e \<in> set fs. \<not> startsTurn t e \<Longrightarrow> inFlight t (es @ fs) \<Longrightarrow> inFlight t es"
proof (induction es)
  case Nil
  then have "dropWhile (\<lambda>e. \<not> startsTurn t e) fs = []" by simp
  with Nil show ?case by (simp add: inFlight_def del: dropWhile_eq_Nil_conv)
qed (auto simp: inFlight_Cons list_ex_iff)

lemma suspendedOf_abort:
  assumes "t \<notin> saTurnID ` set (suspendedOf s)"
  shows "suspendedOf (foldEvent (TurnAborted t r u c) s) = suspendedOf s"
proof (cases "fsTurns s t")
  case (Some ts)
  have "suspendedAt (foldEvent (TurnAborted t r u c) s) cid = suspendedAt s cid" if "cid \<in> set (fsApprovalOrder s)" for cid
  proof (cases "suspendedAt s cid")
    case None
    then show ?thesis using Some by (auto simp: suspendedAt_def updTurn_def split: option.splits if_splits)
  next
    case (Some a)
    then have "saTurnID a \<noteq> t" using assms that by (auto simp: suspendedOf_def set_map_filter)
    then show ?thesis
      using Some \<open>fsTurns s t = Some ts\<close> by (auto simp: suspendedAt_def updTurn_def split: option.splits if_splits)
  qed
  then show ?thesis
    unfolding suspendedOf_def using Some by (auto simp: updTurn_def intro: map_filter_cong_set)
qed (simp add: updTurn_def)

lemma suspendedOf_aborts:
  assumes "\<forall>t \<in> set ts. fst t \<notin> saTurnID ` set (suspendedOf s)"
  shows "suspendedOf (fold foldEvent (map (\<lambda>(t, u). TurnAborted t ErrorDuringExecution u 0) ts) s) = suspendedOf s"
  using assms
proof (induction ts arbitrary: s)
  case (Cons tu ts)
  obtain t u where tu: "tu = (t, u)" by (cases tu)
  have same: "suspendedOf (foldEvent (TurnAborted t ErrorDuringExecution u 0) s) = suspendedOf s"
    using Cons.prems by (intro suspendedOf_abort) (simp add: tu)
  have "suspendedOf (fold foldEvent (map (\<lambda>(t, u). TurnAborted t ErrorDuringExecution u 0) ts)
      (foldEvent (TurnAborted t ErrorDuringExecution u 0) s)) = suspendedOf (foldEvent (TurnAborted t ErrorDuringExecution u 0) s)"
    using Cons.prems by (intro Cons.IH) (simp add: same del: foldEvent.simps)
  then show ?case by (simp add: tu same del: foldEvent.simps)
qed simp

lemma execs_aborts:
  "fsExecs (fold foldEvent (map (\<lambda>(t, u). TurnAborted t ErrorDuringExecution u 0) ts) s) = fsExecs s \<and>
   fsExecOrder (fold foldEvent (map (\<lambda>(t, u). TurnAborted t ErrorDuringExecution u 0) ts) s) = fsExecOrder s"
proof (induction ts arbitrary: s)
  case (Cons tu ts)
  then show ?case
    using foldEvent_execs_other [of "TurnAborted (fst tu) ErrorDuringExecution (snd tu) 0" s]
    by (simp add: execEvent_def case_prod_beta del: foldEvent.simps)
qed simp

lemma open_turns_log:
  "distinct (map otTurnID (OpenTurns (Analyze events lookup))) \<and>
   set (map otTurnID (OpenTurns (Analyze events lookup))) =
     {t. inFlight t (map envEvent events)} - set (map saTurnID (SuspendedApprovals (Analyze events lookup)))"
proof -
  define s where "s = foldLog (map envEvent events)"
  have ok: "turnOk s" using foldLog_ok s_def by blast
  have ids: "map otTurnID (openTurnsOf s) =
      filter (\<lambda>t. inFlight t (map envEvent events) \<and> t \<notin> saTurnID ` set (suspendedOf s)) (fsTurnOrder s)"
    using openTurnsOf_ids [OF ok] turn_open_log [of "map envEvent events"] by (simp add: s_def)
  moreover have "t \<in> set (fsTurnOrder s)" if "inFlight t (map envEvent events)" for t
  proof -
    from that turn_open_log obtain ts where "fsTurns s t = Some ts" unfolding s_def by blast
    then show ?thesis using ok by (auto simp: turnOk_def)
  qed
  moreover have "distinct (fsTurnOrder s)" using ok by (simp add: turnOk_def)
  ultimately show ?thesis by (auto simp: Analyze_def Let_def simp flip: s_def)
qed

section \<open>Properties\<close>



text \<open>
  C17. The open turns of the plan are exactly the turns of the log in flight, that is started and not
  closed after their first start by an assistant message, an abort or a finish, which are not
  suspended on an approval; each is listed once, and none is both open and suspended.
\<close>

theorem open_turns_exact:
  "distinct (map otTurnID (OpenTurns (Analyze events lookup))) \<and>
   set (map otTurnID (OpenTurns (Analyze events lookup))) =
     {t. inFlight t (map envEvent events)} - set (map saTurnID (SuspendedApprovals (Analyze events lookup)))"
  by (rule open_turns_log)

text \<open>
  C18. Recovery converges. After the abort of every open turn of the plan is appended, analysing the
  extended log yields no open turn, and the same unknown executions and suspended approvals.
\<close>

theorem recovery_converges:
  assumes "map envEvent new = abortOpenTurns (Analyze events lookup)"
  shows "Analyze (events @ new) lookup = (Analyze events lookup)\<lparr>OpenTurns := []\<rparr>"
proof -
  define s where "s = foldLog (map envEvent events)"
  define ts where "ts = map (\<lambda>t. (otTurnID t, otRecoveredUsage t)) (openTurnsOf s)"
  define s' where "s' = foldLog (map envEvent (events @ new))"
  have new: "map envEvent new = map (\<lambda>(t, u). TurnAborted t ErrorDuringExecution u 0) ts"
    unfolding assms abortOpenTurns_def ts_def s_def by (simp add: Analyze_def Let_def)
  have s': "s' = fold foldEvent (map (\<lambda>(t, u). TurnAborted t ErrorDuringExecution u 0) ts) s"
    by (simp add: s'_def s_def foldLog_def new)
  have ok: "turnOk s" using foldLog_ok s_def by blast
  have disj: "\<forall>t \<in> set ts. fst t \<notin> saTurnID ` set (suspendedOf s)"
  proof
    fix t assume "t \<in> set ts"
    then have "fst t \<in> set (map otTurnID (openTurnsOf s))" by (auto simp: ts_def)
    then show "fst t \<notin> saTurnID ` set (suspendedOf s)" unfolding openTurnsOf_ids [OF ok] by simp
  qed
  have sus: "suspendedOf s' = suspendedOf s" using suspendedOf_aborts [OF disj] s' by simp
  have unk: "unknownOf lookup s' = unknownOf lookup s" using execs_aborts s' unknownOf_cong by metis
  have "set (map otTurnID (OpenTurns (Analyze (events @ new) lookup))) = {}"
  proof -
    have "t \<in> saTurnID ` set (suspendedOf s)" if t: "inFlight t (map envEvent (events @ new))" for t
    proof (rule ccontr)
      assume no: "t \<notin> saTurnID ` set (suspendedOf s)"
      have ns: "\<forall>e \<in> set (map envEvent new). \<not> startsTurn t e" by (auto simp: new startsTurn_def)
      then have "inFlight t (map envEvent events)" using t inFlight_append_other [OF ns] by simp
      then have "t \<in> set (map otTurnID (openTurnsOf s))"
        using no open_turns_log [of events lookup] by (simp add: Analyze_def Let_def s_def)
      then have "\<exists>e \<in> set (map envEvent new). closesTurn t e"
        by (force simp: new ts_def closesTurn_def)
      with inFlight_append_closing [OF _ ns] t show False by simp
    qed
    then have "{t. inFlight t (map envEvent (events @ new))} \<subseteq> saTurnID ` set (suspendedOf s)" by auto
    moreover have "set (map saTurnID (SuspendedApprovals (Analyze (events @ new) lookup))) = saTurnID ` set (suspendedOf s)"
      using sus by (simp add: Analyze_def Let_def s'_def)
    ultimately show ?thesis
      unfolding conjunct2 [OF open_turns_log [of "events @ new" lookup]] by (simp only: Diff_eq_empty_iff)
  qed
  then have "openTurnsOf s' = []" by (simp add: Analyze_def Let_def s'_def)
  then show ?thesis using sus unk by (simp add: Analyze_def Let_def s'_def s_def)
qed

theorem recovery_converges_witness:
  "OpenTurns (Analyze (map demoEnv demoCrash @ map demoEnv [TurnAborted ''t1'' ErrorDuringExecution zeroUsage 0,
     TurnAborted ''t3'' ErrorDuringExecution zeroUsage 0]) None) = []"
proof -
  have "map envEvent (map demoEnv [TurnAborted ''t1'' ErrorDuringExecution zeroUsage 0, TurnAborted ''t3'' ErrorDuringExecution zeroUsage 0]) =
      abortOpenTurns (Analyze (map demoEnv demoCrash) None)" by code_simp
  from recovery_converges [OF this] show ?thesis by simp
qed


end
