(* ===== verification/Assembler.thy ===== *)
theory Assembler
  imports Domain
begin

text \<open>
  The delta assembler, \<^verbatim>\<open>app/agent/assembler.go\<close>: one streamed generation folded into the assistant
  message, its outcome and the terminal event. A \<^verbatim>\<open>StreamReader\<close> is the list of what its successive
  \<^verbatim>\<open>Recv\<close> calls return; past the end of the list it reports end of file. The JSON library is a
  parameter: an encoder for an object of raw values and a decoder for objects, where JSON null
  decodes to \<^const>\<open>None\<close>. The zero \<^verbatim>\<open>Done\<close> of a failed assembly is \<^const>\<open>None\<close>.
\<close>

section \<open>Data\<close>

datatype recv = RecvEvent StreamEvent | RecvEOF | RecvErr string

datatype Outcome = OutcomeFinal | OutcomeNeedsToolExecution | OutcomeNeedsContinuation

record jsonlib =
  jlMarshalObject :: "(string \<times> bytes) list \<Rightarrow> string + bytes"
  jlUnmarshalObject :: "bytes \<Rightarrow> string + args option"

record Assembled =
  arMessage :: Message
  arOutcome :: Outcome
  arDone :: "Done option"

datatype assemble_error = StreamRecv string | ErrIncompleteStream | ErrMalformedToolArgs string string string

record callAcc =
  caID :: string
  caName :: string
  caAppendBuf :: bytes
  caPathArgs :: "string \<rightharpoonup> bytes"
  caPathOrder :: "string list"

record accumulator =
  acThinkingText :: bytes
  acThinkingSig :: bytes
  acText :: bytes
  acCalls :: "string \<rightharpoonup> callAcc"
  acCallOrder :: "string list"

section \<open>One call's arguments\<close>

definition newCall :: "string \<Rightarrow> callAcc" where
  "newCall cid = \<lparr>caID = cid, caName = '''', caAppendBuf = [], caPathArgs = Map.empty, caPathOrder = []\<rparr>"

definition addArgs :: "string \<Rightarrow> bytes \<Rightarrow> callAcc \<Rightarrow> callAcc" where
  "addArgs path frag c =
     (if path = '''' then c\<lparr>caAppendBuf := caAppendBuf c @ frag\<rparr>
      else c\<lparr>caPathArgs := (caPathArgs c)(path \<mapsto> frag),
             caPathOrder := (if caPathArgs c path = None then caPathOrder c @ [path] else caPathOrder c)\<rparr>)"

definition decodeObject :: "jsonlib \<Rightarrow> bytes \<Rightarrow> args \<times> string option" where
  "decodeObject jl buf = (case jlUnmarshalObject jl buf of
       Inl e \<Rightarrow> ([], Some e)
     | Inr None \<Rightarrow> ([], None)
     | Inr (Some m) \<Rightarrow> (m, None))"

definition parseArgs :: "jsonlib \<Rightarrow> callAcc \<Rightarrow> args \<times> string option" where
  "parseArgs jl c =
     (if caPathOrder c \<noteq> []
      then (case jlMarshalObject jl (map (\<lambda>k. (k, the (caPathArgs c k))) (caPathOrder c)) of
          Inl e \<Rightarrow> ([], Some e)
        | Inr buf \<Rightarrow> decodeObject jl buf)
      else if caAppendBuf c = [] then ([], None)
      else decodeObject jl (caAppendBuf c))"

section \<open>The accumulator\<close>

definition newAccumulator :: accumulator where
  "newAccumulator = \<lparr>acThinkingText = [], acThinkingSig = [], acText = [], acCalls = Map.empty, acCallOrder = []\<rparr>"

definition addText :: "string \<Rightarrow> accumulator \<Rightarrow> accumulator" where
  "addText s a = a\<lparr>acText := acText a @ s\<rparr>"

definition addThinking :: "string \<Rightarrow> string \<Rightarrow> accumulator \<Rightarrow> accumulator" where
  "addThinking text sig a = a\<lparr>acThinkingText := acThinkingText a @ text, acThinkingSig := acThinkingSig a @ sig\<rparr>"

definition foldDelta :: "ToolCallDelta \<Rightarrow> callAcc \<Rightarrow> callAcc" where
  "foldDelta d c =
     addArgs (tdArgsPath d) (tdArgsFragment d)
       (if tdName d \<noteq> '''' \<and> caName c = '''' then c\<lparr>caName := tdName d\<rparr> else c)"

definition addToolCall :: "ToolCallDelta \<Rightarrow> accumulator \<Rightarrow> accumulator" where
  "addToolCall d a =
     (case acCalls a (tdCallID d) of
        Some c \<Rightarrow> a\<lparr>acCalls := (acCalls a)(tdCallID d \<mapsto> foldDelta d c)\<rparr>
      | None \<Rightarrow> a\<lparr>acCalls := (acCalls a)(tdCallID d \<mapsto> foldDelta d (newCall (tdCallID d))),
                 acCallOrder := acCallOrder a @ [tdCallID d]\<rparr>)"

definition contentSansTools :: "accumulator \<Rightarrow> ContentPart list" where
  "contentSansTools a =
     (if acThinkingText a \<noteq> [] \<or> acThinkingSig a \<noteq> [] then [ThinkingPart (acThinkingText a) (acThinkingSig a)] else []) @
     (if acText a \<noteq> [] then [TextPart (acText a)] else [])"

definition partialMessage :: "accumulator \<Rightarrow> Message" where
  "partialMessage a = \<lparr>mRole = RoleAssistant, mContent = contentSansTools a @
     map (\<lambda>cid. let c = the (acCalls a cid) in ToolCallPart \<lparr>tcID = caID c, tcName = caName c, tcArgs = []\<rparr>)
       (acCallOrder a)\<rparr>"

definition callPart :: "jsonlib \<Rightarrow> callAcc \<Rightarrow> ContentPart" where
  "callPart jl c = ToolCallPart \<lparr>tcID = caID c, tcName = caName c, tcArgs = fst (parseArgs jl c)\<rparr>"

definition callError :: "jsonlib \<Rightarrow> callAcc \<Rightarrow> assemble_error option" where
  "callError jl c = map_option (ErrMalformedToolArgs (caID c) (caName c)) (snd (parseArgs jl c))"

definition firstSome :: "'a option list \<Rightarrow> 'a option" where
  "firstSome os = (case dropWhile (\<lambda>x. x = None) os of [] \<Rightarrow> None | x # _ \<Rightarrow> x)"

definition finalize :: "jsonlib \<Rightarrow> accumulator \<Rightarrow> Message \<times> assemble_error option" where
  "finalize jl a =
     (let cs = map (\<lambda>cid. the (acCalls a cid)) (acCallOrder a)
      in (\<lparr>mRole = RoleAssistant, mContent = contentSansTools a @ map (callPart jl) cs\<rparr>,
          firstSome (map (callError jl) cs)))"

section \<open>Assembly\<close>

definition isToolCallPart :: "ContentPart \<Rightarrow> bool" where
  "isToolCallPart p = (case p of ToolCallPart _ \<Rightarrow> True | _ \<Rightarrow> False)"

definition hasToolCall :: "Message \<Rightarrow> bool" where
  "hasToolCall msg = list_ex isToolCallPart (mContent msg)"

definition classify :: "StopReason \<Rightarrow> Message \<Rightarrow> Outcome" where
  "classify reason msg =
     (if \<not> IsTerminal reason then OutcomeNeedsContinuation
      else if reason = StopToolUse \<and> hasToolCall msg then OutcomeNeedsToolExecution
      else OutcomeFinal)"

definition addEvent :: "StreamEvent \<Rightarrow> accumulator \<Rightarrow> accumulator" where
  "addEvent ev a = (case ev of
       TextDelta s \<Rightarrow> addText s a
     | ThinkingDelta t sig \<Rightarrow> addThinking t sig a
     | ToolCallDeltaEv d \<Rightarrow> addToolCall d a
     | _ \<Rightarrow> a)"

text \<open>The receive loop: how it ends, and what was accumulated by then.\<close>

datatype loop_end = GotDone Done | GotEOF | GotErr string

fun recvLoop :: "recv list \<Rightarrow> accumulator \<Rightarrow> loop_end \<times> accumulator" where
  "recvLoop [] a = (GotEOF, a)"
| "recvLoop (RecvEOF # _) a = (GotEOF, a)"
| "recvLoop (RecvErr e # _) a = (GotErr e, a)"
| "recvLoop (RecvEvent ev # rs) a =
     (case ev of DoneEv d \<Rightarrow> (GotDone d, a) | _ \<Rightarrow> recvLoop rs (addEvent ev a))"

definition Assemble :: "jsonlib \<Rightarrow> recv list \<Rightarrow> Assembled \<times> assemble_error option" where
  "Assemble jl reader =
     (case recvLoop reader newAccumulator of
        (GotErr e, a) \<Rightarrow> (\<lparr>arMessage = partialMessage a, arOutcome = OutcomeFinal, arDone = None\<rparr>, Some (StreamRecv e))
      | (GotEOF, a) \<Rightarrow>
          (\<lparr>arMessage = fst (finalize jl a), arOutcome = OutcomeFinal, arDone = None\<rparr>, Some ErrIncompleteStream)
      | (GotDone d, a) \<Rightarrow>
          (let (msg, parseErr) = finalize jl a in
           case parseErr of
             Some e \<Rightarrow> (\<lparr>arMessage = msg, arOutcome = OutcomeFinal, arDone = Some d\<rparr>, Some e)
           | None \<Rightarrow> (\<lparr>arMessage = msg, arOutcome = classify (dStopReason d) msg, arDone = Some d\<rparr>, None)))"

section \<open>The reference: what a stream says\<close>

text \<open>
  Read off the received events directly: the concatenated text and thinking, the call ids in order of
  first appearance, and per call the name, the concatenation of its unaddressed fragments and its
  addressed fragments.
\<close>

definition textOf :: "StreamEvent list \<Rightarrow> string" where
  "textOf evs = concat (map (\<lambda>ev. case ev of TextDelta s \<Rightarrow> s | _ \<Rightarrow> []) evs)"

definition thinkingOf :: "StreamEvent list \<Rightarrow> string" where
  "thinkingOf evs = concat (map (\<lambda>ev. case ev of ThinkingDelta t _ \<Rightarrow> t | _ \<Rightarrow> []) evs)"

definition signatureOf :: "StreamEvent list \<Rightarrow> string" where
  "signatureOf evs = concat (map (\<lambda>ev. case ev of ThinkingDelta _ s \<Rightarrow> s | _ \<Rightarrow> []) evs)"

definition deltasOf :: "StreamEvent list \<Rightarrow> ToolCallDelta list" where
  "deltasOf evs = concat (map (\<lambda>ev. case ev of ToolCallDeltaEv d \<Rightarrow> [d] | _ \<Rightarrow> []) evs)"

definition firstSeen :: "'a list \<Rightarrow> 'a list" where
  "firstSeen xs = rev (remdups (rev xs))"

definition fragmentsOf :: "string \<Rightarrow> ToolCallDelta list \<Rightarrow> ToolCallDelta list" where
  "fragmentsOf cid ds = filter (\<lambda>d. tdCallID d = cid) ds"

definition callOf :: "string \<Rightarrow> ToolCallDelta list \<Rightarrow> callAcc" where
  "callOf cid ds =
     (let fs = fragmentsOf cid ds; addressed = filter (\<lambda>d. tdArgsPath d \<noteq> '''') fs in
      \<lparr>caID = cid,
       caName = (case filter (\<lambda>d. tdName d \<noteq> '''') fs of [] \<Rightarrow> '''' | d # _ \<Rightarrow> tdName d),
       caAppendBuf = concat (map tdArgsFragment (filter (\<lambda>d. tdArgsPath d = '''') fs)),
       caPathArgs = map_of (rev (map (\<lambda>d. (tdArgsPath d, tdArgsFragment d)) addressed)),
       caPathOrder = firstSeen (map tdArgsPath addressed)\<rparr>)"

definition callsOf :: "StreamEvent list \<Rightarrow> callAcc list" where
  "callsOf evs = map (\<lambda>cid. callOf cid (deltasOf evs)) (firstSeen (map tdCallID (deltasOf evs)))"

text \<open>The accumulated events of a reader: those before the first terminal event, error or end.\<close>

fun received :: "recv list \<Rightarrow> StreamEvent list" where
  "received (RecvEvent ev # rs) = (case ev of DoneEv _ \<Rightarrow> [] | _ \<Rightarrow> ev # received rs)"
| "received _ = []"

fun ending :: "recv list \<Rightarrow> loop_end" where
  "ending (RecvEvent ev # rs) = (case ev of DoneEv d \<Rightarrow> GotDone d | _ \<Rightarrow> ending rs)"
| "ending (RecvErr e # _) = GotErr e"
| "ending _ = GotEOF"

definition partsOf :: "StreamEvent list \<Rightarrow> ContentPart list" where
  "partsOf evs =
     (if thinkingOf evs \<noteq> [] \<or> signatureOf evs \<noteq> [] then [ThinkingPart (thinkingOf evs) (signatureOf evs)] else []) @
     (if textOf evs \<noteq> [] then [TextPart (textOf evs)] else [])"

definition messageOf :: "jsonlib \<Rightarrow> StreamEvent list \<Rightarrow> Message" where
  "messageOf jl evs = \<lparr>mRole = RoleAssistant, mContent = partsOf evs @ map (callPart jl) (callsOf evs)\<rparr>"

section \<open>The fold agrees with the reference\<close>

lemma firstSeen_snoc: "firstSeen (xs @ [x]) = (if x \<in> set xs then firstSeen xs else firstSeen xs @ [x])"
  by (simp add: firstSeen_def)

lemma firstSeen_Nil [simp]: "firstSeen [] = []"
  by (simp add: firstSeen_def)

lemma set_firstSeen [simp]: "set (firstSeen xs) = set xs"
  by (simp add: firstSeen_def)

lemma distinct_firstSeen [simp]: "distinct (firstSeen xs)"
  by (simp add: firstSeen_def)

lemma callOf_Nil: "callOf cid [] = newCall cid"
  by (simp add: callOf_def fragmentsOf_def newCall_def Let_def)

lemma callOf_other: "tdCallID d \<noteq> cid \<Longrightarrow> callOf cid (ds @ [d]) = callOf cid ds"
  by (simp add: callOf_def fragmentsOf_def)

lemma caPathArgs_seen:
  "caPathArgs (callOf cid ds) p = None \<longleftrightarrow>
     p \<notin> set (map tdArgsPath (filter (\<lambda>d. tdArgsPath d \<noteq> '''') (fragmentsOf cid ds)))"
  by (simp add: callOf_def Let_def map_of_eq_None_iff image_image del: set_map) (auto simp: image_iff)

lemma filter_head: "filter P xs = y # ys \<Longrightarrow> P y"
  by (auto simp: filter_eq_Cons_iff)

lemma callOf_snoc:
  assumes "tdCallID d = cid"
  shows "callOf cid (ds @ [d]) = foldDelta d (callOf cid ds)"
proof (cases "tdArgsPath d = ''''")
  case True
  with assms show ?thesis
    by (auto simp: callOf_def fragmentsOf_def foldDelta_def addArgs_def Let_def split: list.splits
        dest: filter_head)
next
  case False
  with assms caPathArgs_seen [of cid ds "tdArgsPath d"] show ?thesis
    by (auto simp: callOf_def fragmentsOf_def foldDelta_def addArgs_def Let_def firstSeen_snoc split: list.splits
        dest: filter_head)
qed

definition callTable :: "ToolCallDelta list \<Rightarrow> string \<rightharpoonup> callAcc" where
  "callTable ds = (\<lambda>cid. if cid \<in> set (map tdCallID ds) then Some (callOf cid ds) else None)"

definition accOf :: "StreamEvent list \<Rightarrow> accumulator" where
  "accOf evs = \<lparr>acThinkingText = thinkingOf evs, acThinkingSig = signatureOf evs, acText = textOf evs,
     acCalls = callTable (deltasOf evs), acCallOrder = firstSeen (map tdCallID (deltasOf evs))\<rparr>"

lemma stream_snoc:
  "textOf (evs @ [ev]) = textOf evs @ (case ev of TextDelta s \<Rightarrow> s | _ \<Rightarrow> [])"
  "thinkingOf (evs @ [ev]) = thinkingOf evs @ (case ev of ThinkingDelta t _ \<Rightarrow> t | _ \<Rightarrow> [])"
  "signatureOf (evs @ [ev]) = signatureOf evs @ (case ev of ThinkingDelta _ s \<Rightarrow> s | _ \<Rightarrow> [])"
  "deltasOf (evs @ [ev]) = deltasOf evs @ (case ev of ToolCallDeltaEv d \<Rightarrow> [d] | _ \<Rightarrow> [])"
  by (simp_all add: textOf_def thinkingOf_def signatureOf_def deltasOf_def)

lemma callOf_unseen: "cid \<notin> set (map tdCallID ds) \<Longrightarrow> callOf cid ds = newCall cid"
proof -
  assume "cid \<notin> set (map tdCallID ds)"
  then have "fragmentsOf cid ds = []" by (auto simp: fragmentsOf_def filter_empty_conv)
  then show ?thesis by (simp add: callOf_def newCall_def Let_def)
qed

lemma callTable_snoc:
  "callTable (ds @ [d]) = (callTable ds)(tdCallID d \<mapsto> foldDelta d (callOf (tdCallID d) ds))"
  by (rule ext) (auto simp: callTable_def callOf_snoc callOf_other)

lemma callTable_lookup:
  "callTable ds cid = (if cid \<in> set (map tdCallID ds) then Some (callOf cid ds) else None)"
  by (simp add: callTable_def)

lemma addToolCall_accOf:
  "addToolCall d (accOf evs) = accOf (evs @ [ToolCallDeltaEv d])"
  by (cases "tdCallID d \<in> set (map tdCallID (deltasOf evs))")
    (simp_all add: addToolCall_def accOf_def stream_snoc firstSeen_snoc callTable_snoc callTable_lookup callOf_unseen)

lemma addEvent_accOf: "addEvent ev (accOf evs) = accOf (evs @ [ev])"
proof (cases ev)
  case (ToolCallDeltaEv d)
  then show ?thesis by (simp add: addEvent_def addToolCall_accOf)
qed (simp_all add: addEvent_def addText_def addThinking_def accOf_def stream_snoc)

lemma newAccumulator_accOf: "newAccumulator = accOf []"
  by (simp add: newAccumulator_def accOf_def textOf_def thinkingOf_def signatureOf_def deltasOf_def callTable_def)

lemma recvLoop_accOf: "recvLoop rs (accOf evs) = (ending rs, accOf (evs @ received rs))"
proof (induction rs arbitrary: evs)
  case (Cons r rs)
  show ?case
  proof (cases r)
    case (RecvEvent ev)
    then show ?thesis by (cases ev) (simp_all add: Cons addEvent_accOf del: append_assoc, simp_all)
  qed simp_all
qed simp

lemma finalize_accOf:
  "finalize jl (accOf evs) = (messageOf jl evs, firstSome (map (callError jl) (callsOf evs)))"
proof -
  have "map (\<lambda>cid. the (acCalls (accOf evs) cid)) (acCallOrder (accOf evs)) = callsOf evs"
    by (auto simp: accOf_def callsOf_def callTable_lookup)
  then show ?thesis
    by (simp add: finalize_def messageOf_def partsOf_def contentSansTools_def Let_def) (simp add: accOf_def)
qed

text \<open>A partial message lists the calls seen so far without arguments.\<close>

definition partialOf :: "StreamEvent list \<Rightarrow> Message" where
  "partialOf evs = \<lparr>mRole = RoleAssistant, mContent = partsOf evs @
     map (\<lambda>c. ToolCallPart \<lparr>tcID = caID c, tcName = caName c, tcArgs = []\<rparr>) (callsOf evs)\<rparr>"

lemma partialMessage_accOf: "partialMessage (accOf evs) = partialOf evs"
proof -
  have "map (\<lambda>cid. let c = the (acCalls (accOf evs) cid) in ToolCallPart \<lparr>tcID = caID c, tcName = caName c, tcArgs = []\<rparr>)
      (acCallOrder (accOf evs)) = map (\<lambda>c. ToolCallPart \<lparr>tcID = caID c, tcName = caName c, tcArgs = []\<rparr>) (callsOf evs)"
    by (auto simp: accOf_def callsOf_def callTable_lookup Let_def)
  then show ?thesis
    by (simp add: partialMessage_def partialOf_def partsOf_def contentSansTools_def) (simp add: accOf_def)
qed

text \<open>What a successful assembly carries, for the agent loop.\<close>

lemma Assemble_ok:
  assumes "Assemble jl reader = (r, None)"
  shows "\<exists>d. arDone r = Some d \<and> arOutcome r = classify (dStopReason d) (arMessage r) \<and>
    mRole (arMessage r) = RoleAssistant"
  using assms
  by (auto simp: Assemble_def newAccumulator_accOf recvLoop_accOf finalize_accOf messageOf_def Let_def
      split: loop_end.splits option.splits)

text \<open>Only the per-call order of fragments matters, not how the calls interleave.\<close>

lemma callsOf_interleaving:
  assumes "\<And>cid. fragmentsOf cid (deltasOf evs) = fragmentsOf cid (deltasOf evs')"
    and "firstSeen (map tdCallID (deltasOf evs)) = firstSeen (map tdCallID (deltasOf evs'))"
  shows "callsOf evs = callsOf evs'"
  using assms by (simp add: callsOf_def callOf_def)

text \<open>The ids of the assembled calls are those of the fragments, each once.\<close>

lemma caID_callOf [simp]: "caID (callOf cid ds) = cid"
  by (simp add: callOf_def Let_def)

lemma callsOf_ids: "map caID (callsOf evs) = firstSeen (map tdCallID (deltasOf evs))"
  by (simp add: callsOf_def comp_def)

lemma distinct_call_ids: "distinct (map caID (callsOf evs))"
  by (simp add: callsOf_ids)

text \<open>
  C32. The assembler computes what the stream says: up to the first terminal event, read error or
  end of the stream, the message is the concatenated thinking, then the concatenated text, then one
  call per call id in order of first appearance, with the first non-empty name, the concatenation of
  its unaddressed fragments or, if there are any, the last value written at each addressed path; no
  call id appears twice. A terminal event gives the outcome (a pause asks for continuation, tool use
  with at least one call asks for execution, everything else is final) unless some call's arguments
  do not parse, in which case the first such call is reported; a stream that ends early is reported
  as incomplete and a read error is passed on, both without a terminal event.
\<close>

theorem assemble_reference:
  "Assemble jl reader =
     (let evs = received reader; msg = messageOf jl evs in
      case ending reader of
        GotErr e \<Rightarrow> (\<lparr>arMessage = partialOf evs, arOutcome = OutcomeFinal, arDone = None\<rparr>, Some (StreamRecv e))
      | GotEOF \<Rightarrow> (\<lparr>arMessage = msg, arOutcome = OutcomeFinal, arDone = None\<rparr>, Some ErrIncompleteStream)
      | GotDone d \<Rightarrow> (case firstSome (map (callError jl) (callsOf evs)) of
            Some e \<Rightarrow> (\<lparr>arMessage = msg, arOutcome = OutcomeFinal, arDone = Some d\<rparr>, Some e)
          | None \<Rightarrow> (\<lparr>arMessage = msg, arOutcome = classify (dStopReason d) msg, arDone = Some d\<rparr>, None)))
   \<and> distinct (map caID (callsOf (received reader)))"
  by (simp add: Assemble_def newAccumulator_accOf recvLoop_accOf finalize_accOf partialMessage_accOf
      distinct_call_ids Let_def split: loop_end.splits)

end
