(* ===== verification/HashChain.thy ===== *)
theory HashChain
  imports Domain
begin

text \<open>
  The hash-chain and checkpoint formulas of \<^verbatim>\<open>domain/hashchain.go\<close> and \<^verbatim>\<open>domain/checkpoint.go\<close>. SHA-256
  is the parameter \<open>sha\<close> of every definition: nothing below depends on which function it is, and
  the tamper-evidence results are stated as reductions, that is a forged log exhibits two different
  byte strings with the same digest.
\<close>

type_synonym hashfun = "bytes \<Rightarrow> bytes"

section \<open>The per-session chain\<close>

definition genesisPrefix :: string where
  "genesisPrefix = ''boltrope-audit-genesis-v1:''"

definition ContentHash :: "hashfun \<Rightarrow> bytes \<Rightarrow> bytes" where
  "ContentHash sha payload = sha payload"

definition GenesisChainHash :: "hashfun \<Rightarrow> string \<Rightarrow> bytes" where
  "GenesisChainHash sha sessionID = sha (genesisPrefix @ sessionID)"

definition ChainHash :: "hashfun \<Rightarrow> bytes \<Rightarrow> bytes \<Rightarrow> bytes" where
  "ChainHash sha prevChainHash contentHash = sha (prevChainHash @ contentHash)"

record ChainVerification =
  cvValid :: bool
  cvFirstBadSeq :: int
  cvReason :: string
  cvChecked :: nat

section \<open>The checkpoint chain\<close>

definition checkpointGenesisPrefix :: string where
  "checkpointGenesisPrefix = ''boltrope-audit-checkpoint-genesis-v1:''"

definition CheckpointGenesisPrev :: "hashfun \<Rightarrow> bytes" where
  "CheckpointGenesisPrev sha = sha checkpointGenesisPrefix"

definition LeavesDigest :: "hashfun \<Rightarrow> bytes list \<Rightarrow> bytes" where
  "LeavesDigest sha leaves = sha (concat leaves)"

definition CheckpointHash :: "hashfun \<Rightarrow> bytes \<Rightarrow> bytes \<Rightarrow> bytes" where
  "CheckpointHash sha prev leavesDigest = sha (prev @ leavesDigest)"

record CheckpointVerification =
  kvValid :: bool
  kvFirstBadCheckpointID :: int
  kvReason :: string
  kvChecked :: nat

section \<open>Collisions\<close>

text \<open>
  A forgery argument exhibits a collision among the byte strings that the two logs actually hash:
  \<open>collides sha xs ys\<close> says that some string hashed for the first log and a different one hashed for
  the second have the same digest.
\<close>

definition collides :: "hashfun \<Rightarrow> bytes list \<Rightarrow> bytes list \<Rightarrow> bool" where
  "collides sha xs ys \<longleftrightarrow> (\<exists>x \<in> set xs. \<exists>y \<in> set ys. x \<noteq> y \<and> sha x = sha y)"

lemma collidesI: "x \<in> set xs \<Longrightarrow> y \<in> set ys \<Longrightarrow> x \<noteq> y \<Longrightarrow> sha x = sha y \<Longrightarrow> collides sha xs ys"
  by (auto simp: collides_def)

lemma collides_mono:
  "collides sha xs ys \<Longrightarrow> set xs \<subseteq> set xs' \<Longrightarrow> set ys \<subseteq> set ys' \<Longrightarrow> collides sha xs' ys'"
  by (auto simp: collides_def)

text \<open>The fold of a list of payloads into the chain, and every string hashed on the way.\<close>

fun chainFold :: "hashfun \<Rightarrow> bytes \<Rightarrow> bytes list \<Rightarrow> bytes" where
  "chainFold sha prev [] = prev"
| "chainFold sha prev (p # ps) = chainFold sha (ChainHash sha prev (ContentHash sha p)) ps"

fun chainInputs :: "hashfun \<Rightarrow> bytes \<Rightarrow> bytes list \<Rightarrow> bytes list" where
  "chainInputs sha prev [] = []"
| "chainInputs sha prev (p # ps) =
     p # (prev @ ContentHash sha p) # chainInputs sha (ChainHash sha prev (ContentHash sha p)) ps"

lemma chainFold_append [simp]:
  "chainFold sha prev (ps @ qs) = chainFold sha (chainFold sha prev ps) qs"
  by (induction ps arbitrary: prev) auto

lemma ChainHash_inj:
  assumes "length (sha p) = length (sha q)" and "ChainHash sha a (sha p) = ChainHash sha b (sha q)"
  shows "a = b \<and> p = q \<or> collides sha [p, a @ sha p] [q, b @ sha q]"
proof (cases "a @ sha p = b @ sha q")
  case True
  with assms(1) have "a = b" "sha p = sha q" by auto
  then show ?thesis by (auto simp: collides_def)
next
  case False
  with assms(2) show ?thesis by (auto simp: collides_def ChainHash_def)
qed

lemma chainFold_inj:
  assumes "length ps = length qs" and "\<And>x. length (sha x) = n"
    and "chainFold sha a ps = chainFold sha b qs"
  shows "a = b \<and> ps = qs \<or> collides sha (chainInputs sha a ps) (chainInputs sha b qs)"
  using assms(1,3-)
proof (induction ps qs arbitrary: a b rule: list_induct2)
  case (Cons p ps q qs)
  let ?a = "ChainHash sha a (sha p)" and ?b = "ChainHash sha b (sha q)"
  from Cons have "?a = ?b \<and> ps = qs \<or> collides sha (chainInputs sha ?a ps) (chainInputs sha ?b qs)"
    by (simp add: ContentHash_def)
  then show ?case
  proof (elim disjE conjE)
    assume "?a = ?b" "ps = qs"
    with ChainHash_inj [of sha p q a b] assms(2) show ?thesis
      by (auto simp: ContentHash_def collides_def)
  qed (auto simp: ContentHash_def collides_def)
qed simp

lemma LeavesDigest_inj:
  assumes "LeavesDigest sha ls = LeavesDigest sha ms"
    and "\<forall>l \<in> set ls \<union> set ms. length l = n" and "0 < n"
  shows "ls = ms \<or> collides sha [concat ls] [concat ms]"
proof (cases "concat ls = concat ms")
  case True
  then have "ls = ms" using assms(2)
  proof (induction ls arbitrary: ms)
    case Nil
    then show ?case using assms(3) by (cases ms) auto
  next
    case (Cons l ls)
    then obtain m ms' where ms: "ms = m # ms'"
      using assms(3) by (cases ms) auto
    with Cons.prems have "l = m \<and> concat ls = concat ms'" by auto
    with Cons ms show ?case by auto
  qed
  then show ?thesis ..
next
  case False
  with assms(1) show ?thesis by (auto simp: collides_def LeavesDigest_def)
qed

end
