(* ===== verification/Encoding.thy ===== *)
theory Encoding
  imports Prelude
begin

text \<open>
  The two encoders of the Go standard library that the sources feed to a hash or print a digest
  with: \<^verbatim>\<open>encoding/hex\<close> and the big-endian 64-bit prefix of \<^verbatim>\<open>encoding/binary\<close>. Both are injective, the
  prefix on lengths below \<open>2 ^ 64\<close>, and a length-prefixed field can be cut off in only one way. The
  quoting verb \<open>%q\<close> of \<^verbatim>\<open>fmt\<close> is here as well.
\<close>

definition hexDigit :: "nat \<Rightarrow> char" where
  "hexDigit n = (if n < 10 then char_of (48 + n) else char_of (87 + n))"

definition hexEncode :: "bytes \<Rightarrow> string" where
  "hexEncode bs = concat (map (\<lambda>c. [hexDigit (of_char c div 16), hexDigit (of_char c mod 16)]) bs)"

text \<open>The verb \<open>%q\<close> on printable text.\<close>

definition goQuote :: "string \<Rightarrow> string" where
  "goQuote s = ''\"'' @ concat (map (\<lambda>c. if c = CHR 0x22 \<or> c = CHR 0x5C then [CHR 0x5C, c] else [c]) s) @ ''\"''"

text \<open>\<^verbatim>\<open>binary.BigEndian.PutUint64\<close>: \<open>beBytes k n\<close> is the last \<open>k\<close> base-256 digits of \<open>n\<close>.\<close>

fun beBytes :: "nat \<Rightarrow> nat \<Rightarrow> bytes" where
  "beBytes 0 n = []"
| "beBytes (Suc k) n = beBytes k (n div 256) @ [char_of (n mod 256)]"

definition PutUint64 :: "nat \<Rightarrow> bytes" where
  "PutUint64 n = beBytes 8 n"

text \<open>One field with its length in front.\<close>

definition writeField :: "bytes \<Rightarrow> bytes" where
  "writeField b = PutUint64 (length b) @ b"

definition fitsUint64 :: "nat \<Rightarrow> bool" where
  "fitsUint64 n \<longleftrightarrow> n < 2 ^ 64"

lemma hexDigit_inj: "m < 16 \<Longrightarrow> n < 16 \<Longrightarrow> hexDigit m = hexDigit n \<Longrightarrow> m = n"
proof -
  assume lt: "m < 16" "n < 16" and eq: "hexDigit m = hexDigit n"
  from eq have "(of_char (hexDigit m) :: nat) = of_char (hexDigit n)" by simp
  with lt show "m = n" by (simp add: hexDigit_def split: if_splits)
qed

lemma hexEncode_Nil [simp]: "hexEncode [] = []" by (simp add: hexEncode_def)

lemma hexEncode_Cons:
  "hexEncode (c # bs) = hexDigit (of_char c div 16) # hexDigit (of_char c mod 16) # hexEncode bs"
  by (simp add: hexEncode_def)

lemma of_char_less: "(of_char c :: nat) < 256"
  by (metis of_char_mod_256 mod_less_divisor zero_less_numeral)

lemma hexEncode_inj: "hexEncode xs = hexEncode ys \<Longrightarrow> xs = ys"
proof (induction xs arbitrary: ys)
  case Nil
  then show ?case by (cases ys) (simp_all add: hexEncode_Cons)
next
  case (Cons x xs)
  then obtain y ys' where ys: "ys = y # ys'" by (cases ys) (simp_all add: hexEncode_Cons)
  with Cons.prems have hi: "hexDigit (of_char x div 16) = hexDigit (of_char y div 16)"
    and lo: "hexDigit (of_char x mod 16) = hexDigit (of_char y mod 16)"
    and rest: "hexEncode xs = hexEncode ys'"
    by (simp_all add: hexEncode_Cons)
  have "(of_char x :: nat) div 16 < 16" "(of_char y :: nat) div 16 < 16"
    using of_char_less [of x] of_char_less [of y] by (simp_all add: less_mult_imp_div_less)
  then have "(of_char x :: nat) div 16 = of_char y div 16" "(of_char x :: nat) mod 16 = of_char y mod 16"
    using hexDigit_inj [OF _ _ hi] hexDigit_inj [OF _ _ lo] by simp_all
  then have "(of_char x :: nat) = of_char y" by (metis mult_div_mod_eq)
  with rest ys Cons.IH show ?case by simp
qed

lemma length_hexEncode [simp]: "length (hexEncode bs) = 2 * length bs"
  by (induction bs) (simp_all add: hexEncode_Cons)

lemma length_beBytes [simp]: "length (beBytes k n) = k"
  by (induction k arbitrary: n) simp_all

lemma beBytes_inj: "m < 256 ^ k \<Longrightarrow> n < 256 ^ k \<Longrightarrow> beBytes k m = beBytes k n \<Longrightarrow> m = n"
proof (induction k arbitrary: m n)
  case (Suc k)
  from Suc.prems(3) have "beBytes k (m div 256) = beBytes k (n div 256)"
    and c: "(char_of (m mod 256) :: char) = char_of (n mod 256)" by simp_all
  moreover have "m div 256 < 256 ^ k" "n div 256 < 256 ^ k"
    using Suc.prems(1,2) by (simp_all add: less_mult_imp_div_less mult.commute)
  ultimately have "m div 256 = n div 256" using Suc.IH by blast
  moreover have "m mod 256 = n mod 256"
    using arg_cong [OF c, of "of_char :: char \<Rightarrow> nat"] by simp
  ultimately show ?case by (metis mult_div_mod_eq)
qed simp

lemma length_PutUint64 [simp]: "length (PutUint64 n) = 8"
  by (simp add: PutUint64_def)

lemma PutUint64_inj: "fitsUint64 m \<Longrightarrow> fitsUint64 n \<Longrightarrow> PutUint64 m = PutUint64 n \<Longrightarrow> m = n"
  using beBytes_inj [of m 8 n] by (simp add: PutUint64_def fitsUint64_def)

text \<open>A length-prefixed field can be cut off the front of a byte string in only one way.\<close>

lemma writeField_cut:
  assumes "fitsUint64 (length a)" and "fitsUint64 (length b)" and "writeField a @ x = writeField b @ y"
  shows "a = b \<and> x = y"
proof -
  from assms(3) have "PutUint64 (length a) = PutUint64 (length b)" "a @ x = b @ y"
    by (simp_all add: writeField_def)
  with assms(1,2) have "length a = length b" using PutUint64_inj by blast
  with \<open>a @ x = b @ y\<close> show ?thesis by simp
qed

end
