(* ===== verification/AgentCtx.thy ===== *)
theory AgentCtx
  imports HashChain Encoding
begin

text \<open>
  The context manager, \<^verbatim>\<open>internal/orchestrator/app/agentctx\<close>: the model-visible window folded from a
  session's log, tool-result clearing, the compaction decision, and the tenant-scoped key of the
  cacheable prefix. The token counter is a port: a function on the surrounding state \<open>'e\<close> that may
  fail. The compaction fraction (\<^verbatim>\<open>float64\<close>) is an exact rational.
\<close>

section \<open>The window\<close>

record ToolDef =
  dfName :: string
  dfDescription :: string
  dfSchema :: bytes

record Window =
  wSystem :: string
  wMessages :: "Message list"

record WindowOptions =
  woClearedStub :: string
  woCompactionSummary :: string

definition noOptions :: WindowOptions where
  "noOptions = \<lparr>woClearedStub = '''', woCompactionSummary = ''''\<rparr>"

definition DefaultClearedStub :: string where
  "DefaultClearedStub = ''[tool result cleared to reclaim context; re-run the tool if its output is needed again]''"

definition DefaultCompactionSummary :: string where
  "DefaultCompactionSummary = ''[earlier conversation compacted to reclaim context]''"

definition PlanNotePrefix :: string where
  "PlanNotePrefix = ''[current plan]''"

definition userText :: "string \<Rightarrow> Message" where
  "userText t = \<lparr>mRole = RoleUser, mContent = [TextPart t]\<rparr>"

definition renderPlanNote :: "PlanItem list \<Rightarrow> string" where
  "renderPlanNote items =
     (if items = [] then PlanNotePrefix @ '' (no items)''
      else PlanNotePrefix @
        concat (map (\<lambda>it. CHR 0x0A # ''- ['' @ piStatus it @ ''] '' @ piContent it) items))"

text \<open>The \<open>(session, seq)\<close> pairs of the tool results, then the sequence numbers a clear refers to.\<close>

definition toolResultRefs :: "EventEnvelope list \<Rightarrow> (string \<times> int) list" where
  "toolResultRefs events =
     map (\<lambda>env. (envSessionID env, envSeq env)) (filter (\<lambda>env. envType env = EventToolResult) events)"

definition clearedSet :: "EventEnvelope list \<Rightarrow> int set" where
  "clearedSet events = set (concat (map (\<lambda>env. case envEvent env of
       ToolResultCleared sid q _ \<Rightarrow> if (sid, q) \<in> set (toolResultRefs events) then [q] else []
     | _ \<Rightarrow> []) events))"

definition renderMessage :: "EventEnvelope \<Rightarrow> int set \<Rightarrow> string \<Rightarrow> Message option" where
  "renderMessage env clearedSeqs stub = (case envEvent env of
       MessageAppended m \<Rightarrow> Some m
     | AssistantMessage _ m _ _ _ _ _ \<Rightarrow> Some m
     | ToolResult cid result isErr _ _ \<Rightarrow>
         Some \<lparr>mRole = RoleTool, mContent =
           [if envSeq env \<in> clearedSeqs then ToolResultPart cid stub False
            else ToolResultPart cid result isErr]\<rparr>
     | _ \<Rightarrow> None)"

definition lastCompaction :: "EventEnvelope list \<Rightarrow> int" where
  "lastCompaction events =
     foldl (\<lambda>m env. if envType env = EventCompactionPerformed \<and> m < envSeq env then envSeq env else m) (-1) events"

text \<open>The accumulators of the main loop: system prompt, messages before and after the boundary, plan.\<close>

record windowAcc =
  waSystem :: string
  waPre :: "Message list"
  waPost :: "Message list"
  waPlan :: "PlanItem list option"

definition windowStep :: "int set \<Rightarrow> string \<Rightarrow> int \<Rightarrow> windowAcc \<Rightarrow> EventEnvelope \<Rightarrow> windowAcc" where
  "windowStep cleared stub lastSeq a env = (case envEvent env of
       SessionStarted _ _ prompt \<Rightarrow> a\<lparr>waSystem := prompt\<rparr>
     | PlanUpdated _ items \<Rightarrow> a\<lparr>waPlan := Some items\<rparr>
     | _ \<Rightarrow> (case renderMessage env cleared stub of
           None \<Rightarrow> a
         | Some msg \<Rightarrow>
             if 0 \<le> lastSeq \<and> envSeq env < lastSeq then a\<lparr>waPre := waPre a @ [msg]\<rparr>
             else a\<lparr>waPost := waPost a @ [msg]\<rparr>))"

definition BuildWindow :: "EventEnvelope list \<Rightarrow> WindowOptions \<Rightarrow> Window" where
  "BuildWindow events opts =
     (let stub = (if woClearedStub opts = '''' then DefaultClearedStub else woClearedStub opts);
          summary = (if woCompactionSummary opts = '''' then DefaultCompactionSummary else woCompactionSummary opts);
          lastSeq = lastCompaction events;
          a = foldl (windowStep (clearedSet events) stub lastSeq)
                \<lparr>waSystem = '''', waPre = [], waPost = [], waPlan = None\<rparr> events
      in \<lparr>wSystem = waSystem a,
          wMessages =
            (if 0 \<le> lastSeq \<and> waPre a \<noteq> [] then [userText summary] else []) @ waPost a @
            (case waPlan a of None \<Rightarrow> [] | Some items \<Rightarrow> [userText (renderPlanNote items)])\<rparr>)"

section \<open>Clearing\<close>

datatype ctx_error = ErrFailedPrecondition | CountCurrent string | CountProjected string

fun findToolResult :: "EventEnvelope list \<Rightarrow> string \<Rightarrow> int \<Rightarrow> event option" where
  "findToolResult [] sid q = None"
| "findToolResult (env # events) sid q =
     (if envSessionID env \<noteq> sid \<or> envSeq env \<noteq> q then findToolResult events sid q
      else case envEvent env of ToolResult _ _ _ _ _ \<Rightarrow> Some (envEvent env) | _ \<Rightarrow> None)"

definition alreadyCleared :: "EventEnvelope list \<Rightarrow> string \<Rightarrow> int \<Rightarrow> bool" where
  "alreadyCleared events sid q \<longleftrightarrow> (\<exists>env \<in> set events. case envEvent env of
       ToolResultCleared s n _ \<Rightarrow> s = sid \<and> n = q | _ \<Rightarrow> False)"

definition ValidateClear :: "EventEnvelope list \<Rightarrow> string \<Rightarrow> int \<Rightarrow> ctx_error + unit" where
  "ValidateClear events sid q = require (findToolResult events sid q \<noteq> None) ErrFailedPrecondition"

definition IsCleared :: "EventEnvelope list \<Rightarrow> string \<Rightarrow> int \<Rightarrow> ctx_error + bool" where
  "IsCleared events sid q =
     (if findToolResult events sid q = None then Inl ErrFailedPrecondition
      else Inr (alreadyCleared events sid q))"

section \<open>Compaction\<close>

type_synonym 'e counter = "string \<Rightarrow> Message list \<Rightarrow> 'e \<Rightarrow> 'e \<times> (string + int)"

record CtxConfig =
  ctModel :: string
  ctMaxContextTokens :: int
  ctCompactionFraction :: rat

record 'e Manager =
  mgCounter :: "'e counter"
  mgConfig :: CtxConfig

record CompactionPlan =
  cpShouldCompact :: bool
  cpEvent :: "event option"
  cpCurrentTokens :: int

definition DefaultCompactionFraction :: rat where
  "DefaultCompactionFraction = 8 / 10"

definition threshold :: "CtxConfig \<Rightarrow> int" where
  "threshold c =
     (if ctMaxContextTokens c \<le> 0 then 0
      else let f = ctCompactionFraction c;
               g = (if f \<le> 0 \<or> 1 < f then DefaultCompactionFraction else f)
           in \<lfloor>of_int (ctMaxContextTokens c) * g + 1 / 2\<rfloor>)"

definition NewManager :: "'e counter \<Rightarrow> CtxConfig \<Rightarrow> 'e Manager" where
  "NewManager counter cfg = \<lparr>mgCounter = counter, mgConfig = cfg\<rparr>"

definition reasonApproachingWindow :: string where
  "reasonApproachingWindow = ''window approaching model context budget''"

definition projectedAfterWindow :: "Window \<Rightarrow> Window" where
  "projectedAfterWindow win =
     (if wMessages win = [] then win
      else \<lparr>wSystem = wSystem win, wMessages = [userText DefaultCompactionSummary]\<rparr>)"

definition PlanCompaction :: "'e Manager \<Rightarrow> EventEnvelope list \<Rightarrow> 'e \<Rightarrow> 'e \<times> (ctx_error + CompactionPlan)" where
  "PlanCompaction m events e =
     (let win = BuildWindow events noOptions;
          model = ctModel (mgConfig m);
          th = threshold (mgConfig m)
      in case mgCounter m model (wMessages win) e of
           (e1, Inl err) \<Rightarrow> (e1, Inl (CountCurrent err))
         | (e1, Inr current) \<Rightarrow>
             if th \<le> 0 \<or> current < th
             then (e1, Inr \<lparr>cpShouldCompact = False, cpEvent = None, cpCurrentTokens = current\<rparr>)
             else (case mgCounter m model (wMessages (projectedAfterWindow win)) e1 of
                 (e2, Inl err) \<Rightarrow> (e2, Inl (CountProjected err))
               | (e2, Inr after) \<Rightarrow>
                   (e2, Inr \<lparr>cpShouldCompact = True,
                     cpEvent = Some (CompactionPerformed current after reasonApproachingWindow),
                     cpCurrentTokens = current\<rparr>)))"

section \<open>The cacheable prefix\<close>

record CacheInput =
  ciTenantID :: string
  ciSystem :: string
  ciTools :: "ToolDef list"
  ciHistory :: "Message list"

record CachePrefix =
  cxCacheable :: bool
  cxCacheKey :: string
  cxSystem :: string
  cxTools :: "ToolDef list"
  cxHistoryMessagesCached :: int

definition cacheTag :: string where
  "cacheTag = ''boltrope/agentctx/cache/v1''"

definition toolFields :: "ToolDef \<Rightarrow> bytes" where
  "toolFields t = writeField (dfName t) @ writeField (dfDescription t) @ writeField (dfSchema t)"

text \<open>The bytes written to the hash, in order.\<close>

definition cacheInput :: "string \<Rightarrow> string \<Rightarrow> ToolDef list \<Rightarrow> bytes" where
  "cacheInput tenantID system tools =
     writeField cacheTag @ writeField tenantID @ writeField system @
     PutUint64 (length tools) @ concat (map toolFields tools)"

definition cacheKey :: "hashfun \<Rightarrow> string \<Rightarrow> string \<Rightarrow> ToolDef list \<Rightarrow> string" where
  "cacheKey sha tenantID system tools = hexEncode (sha (cacheInput tenantID system tools))"

definition BuildCachePrefix :: "hashfun \<Rightarrow> CacheInput \<Rightarrow> CachePrefix" where
  "BuildCachePrefix sha inp =
     (let hasStable = (ciSystem inp \<noteq> '''' \<or> ciTools inp \<noteq> []) in
      if \<not> hasStable \<or> ciTenantID inp = ''''
      then \<lparr>cxCacheable = False, cxCacheKey = '''', cxSystem = ciSystem inp, cxTools = ciTools inp,
             cxHistoryMessagesCached = 0\<rparr>
      else \<lparr>cxCacheable = True, cxCacheKey = cacheKey sha (ciTenantID inp) (ciSystem inp) (ciTools inp),
             cxSystem = ciSystem inp, cxTools = ciTools inp, cxHistoryMessagesCached = 0\<rparr>)"

section \<open>The window in closed form\<close>

text \<open>What one event contributes to the conversation, and the last plan and system prompt of a log.\<close>

definition conversation :: "int set \<Rightarrow> string \<Rightarrow> EventEnvelope list \<Rightarrow> Message list" where
  "conversation cleared stub events = List.map_filter (\<lambda>env. renderMessage env cleared stub) events"

definition latestPlan :: "EventEnvelope list \<Rightarrow> PlanItem list option" where
  "latestPlan events = foldl (\<lambda>p env. case envEvent env of PlanUpdated _ items \<Rightarrow> Some items | _ \<Rightarrow> p) None events"

definition planNote :: "EventEnvelope list \<Rightarrow> Message list" where
  "planNote events = (case latestPlan events of None \<Rightarrow> [] | Some items \<Rightarrow> [userText (renderPlanNote items)])"

definition systemPrompt :: "EventEnvelope list \<Rightarrow> string" where
  "systemPrompt events = foldl (\<lambda>p env. case envEvent env of SessionStarted _ _ prompt \<Rightarrow> prompt | _ \<Rightarrow> p) '''' events"

lemma map_filter_append: "List.map_filter f (xs @ ys) = List.map_filter f xs @ List.map_filter f ys"
  by (induction xs) (simp_all add: List.map_filter_def)

lemma conversation_Nil [simp]: "conversation c s [] = []"
  by (simp add: conversation_def List.map_filter_def)

lemma conversation_append [simp]:
  "conversation c s (xs @ ys) = conversation c s xs @ conversation c s ys"
  by (simp add: conversation_def map_filter_append)

lemma conversation_single:
  "conversation c s [env] = (case renderMessage env c s of None \<Rightarrow> [] | Some m \<Rightarrow> [m])"
  by (cases "renderMessage env c s") (simp_all add: conversation_def List.map_filter_def)

lemma latestPlan_snoc:
  "latestPlan (events @ [env]) = (case envEvent env of PlanUpdated _ items \<Rightarrow> Some items | _ \<Rightarrow> latestPlan events)"
  by (cases "envEvent env") (simp_all add: latestPlan_def)

lemma systemPrompt_snoc:
  "systemPrompt (events @ [env]) = (case envEvent env of SessionStarted _ _ p \<Rightarrow> p | _ \<Rightarrow> systemPrompt events)"
  by (cases "envEvent env") (simp_all add: systemPrompt_def)

definition beforeBoundary :: "int \<Rightarrow> EventEnvelope \<Rightarrow> bool" where
  "beforeBoundary lastSeq env \<longleftrightarrow> 0 \<le> lastSeq \<and> envSeq env < lastSeq"

lemma windowFold:
  "foldl (windowStep c stub lastSeq) \<lparr>waSystem = '''', waPre = [], waPost = [], waPlan = None\<rparr> events =
     \<lparr>waSystem = systemPrompt events,
      waPre = conversation c stub (filter (beforeBoundary lastSeq) events),
      waPost = conversation c stub (filter (\<lambda>env. \<not> beforeBoundary lastSeq env) events),
      waPlan = latestPlan events\<rparr>"
proof (induction events rule: rev_induct)
  case Nil
  then show ?case by (simp add: systemPrompt_def latestPlan_def)
next
  case (snoc env events)
  then show ?case
    by (cases "envEvent env")
      (simp_all add: windowStep_def renderMessage_def systemPrompt_snoc latestPlan_snoc conversation_single
        beforeBoundary_def)
qed

lemma BuildWindow_closed:
  "BuildWindow events noOptions =
     (let conv = conversation (clearedSet events) DefaultClearedStub; lastSeq = lastCompaction events in
      \<lparr>wSystem = systemPrompt events,
       wMessages =
         (if 0 \<le> lastSeq \<and> conv (filter (beforeBoundary lastSeq) events) \<noteq> []
          then [userText DefaultCompactionSummary] else []) @
         conv (filter (\<lambda>env. \<not> beforeBoundary lastSeq env) events) @ planNote events\<rparr>)"
  by (simp add: BuildWindow_def noOptions_def windowFold planNote_def Let_def)

lemma lastCompaction_ge: "-1 \<le> lastCompaction events"
  unfolding lastCompaction_def by (induction events rule: rev_induct) auto

lemma lastCompaction_snoc:
  "lastCompaction (events @ [env]) =
     (if envType env = EventCompactionPerformed \<and> lastCompaction events < envSeq env then envSeq env
      else lastCompaction events)"
  by (simp add: lastCompaction_def)

lemma lastCompaction_in:
  "0 \<le> lastCompaction events \<Longrightarrow> \<exists>env \<in> set events. envSeq env = lastCompaction events"
proof (induction events rule: rev_induct)
  case Nil
  then show ?case by (simp add: lastCompaction_def)
next
  case (snoc env events)
  then show ?case by (auto simp: lastCompaction_snoc split: if_splits)
qed

lemma lastCompaction_none:
  "list_all (\<lambda>env. envType env \<noteq> EventCompactionPerformed) events \<Longrightarrow> lastCompaction events = -1"
proof (induction events rule: rev_induct)
  case Nil
  then show ?case by (simp add: lastCompaction_def)
qed (simp add: lastCompaction_snoc)

lemma BuildWindow_uncompacted:
  assumes "lastCompaction events = -1"
  shows "wMessages (BuildWindow events noOptions) =
    conversation (clearedSet events) DefaultClearedStub events @ planNote events"
  using assms by (simp add: BuildWindow_closed beforeBoundary_def)

section \<open>The compaction boundary\<close>

text \<open>
  What the window becomes once a boundary is appended above every event of the log, and what
  \<^verbatim>\<open>projectedAfterWindow\<close> announces for it.
\<close>

definition boundaryAbove :: "EventEnvelope list \<Rightarrow> EventEnvelope \<Rightarrow> bool" where
  "boundaryAbove events env \<longleftrightarrow> 0 \<le> envSeq env \<and> (\<forall>x \<in> set events. envSeq x < envSeq env) \<and>
     envType env = EventCompactionPerformed \<and>
     (case envEvent env of CompactionPerformed _ _ _ \<Rightarrow> True | _ \<Rightarrow> False)"

lemma clearedSet_snoc_boundary:
  "boundaryAbove events env \<Longrightarrow> clearedSet (events @ [env]) = clearedSet events"
  by (cases "envEvent env") (simp_all add: boundaryAbove_def clearedSet_def toolResultRefs_def)

lemma lastCompaction_snoc_boundary:
  assumes "boundaryAbove events env"
  shows "lastCompaction (events @ [env]) = envSeq env"
proof -
  have "lastCompaction events < envSeq env"
  proof (cases "0 \<le> lastCompaction events")
    case True
    with lastCompaction_in assms show ?thesis by (metis boundaryAbove_def)
  qed (use assms in \<open>simp add: boundaryAbove_def\<close>)
  with assms show ?thesis by (simp add: lastCompaction_snoc boundaryAbove_def)
qed

lemma conversation_boundary:
  "boundaryAbove events env \<Longrightarrow> conversation c stub [env] = []"
  by (cases "envEvent env") (simp_all add: boundaryAbove_def conversation_single renderMessage_def)

lemma planNote_snoc_boundary:
  "boundaryAbove events env \<Longrightarrow> planNote (events @ [env]) = planNote events"
  by (cases "envEvent env") (simp_all add: boundaryAbove_def planNote_def latestPlan_snoc)

lemma window_after_boundary:
  assumes "boundaryAbove events env"
  shows "wMessages (BuildWindow (events @ [env]) noOptions) =
    (if conversation (clearedSet events) DefaultClearedStub events \<noteq> []
     then [userText DefaultCompactionSummary] else []) @ planNote events"
proof -
  have 1: "filter (beforeBoundary (envSeq env)) events = events"
    "filter (\<lambda>x. \<not> beforeBoundary (envSeq env) x) events = []"
    using assms by (auto simp: boundaryAbove_def beforeBoundary_def filter_id_conv filter_empty_conv)
  have 2: "\<not> beforeBoundary (envSeq env) env" "0 \<le> envSeq env"
    using assms by (simp_all add: boundaryAbove_def beforeBoundary_def)
  show ?thesis
    using 1 2 assms
    by (simp add: BuildWindow_closed lastCompaction_snoc_boundary clearedSet_snoc_boundary
        planNote_snoc_boundary conversation_boundary Let_def)
qed

text \<open>
  The projection is exact for a log without a plan. With a plan the projection forgets the plan
  note, which survives every compaction, and for a log that holds nothing but a plan it announces a
  summary that is never rendered.
\<close>

lemma projection_without_plan:
  assumes "boundaryAbove events env" and "lastCompaction events = -1" and "latestPlan events = None"
  shows "wMessages (projectedAfterWindow (BuildWindow events noOptions)) =
    wMessages (BuildWindow (events @ [env]) noOptions)"
  using assms
  by (simp add: window_after_boundary projectedAfterWindow_def BuildWindow_uncompacted planNote_def)

lemma projection_with_plan:
  assumes "boundaryAbove events env" and "latestPlan events = Some items"
  shows "wMessages (projectedAfterWindow (BuildWindow events noOptions)) = [userText DefaultCompactionSummary]"
    and "last (wMessages (BuildWindow (events @ [env]) noOptions)) = userText (renderPlanNote items)"
proof -
  have "wMessages (BuildWindow events noOptions) \<noteq> []"
    using assms(2) by (simp add: BuildWindow_closed planNote_def Let_def)
  then show "wMessages (projectedAfterWindow (BuildWindow events noOptions)) = [userText DefaultCompactionSummary]"
    by (simp add: projectedAfterWindow_def)
  show "last (wMessages (BuildWindow (events @ [env]) noOptions)) = userText (renderPlanNote items)"
    using assms by (simp add: window_after_boundary planNote_def)
qed

section \<open>Clearing and the window\<close>

text \<open>
  In a log whose positions are distinct and whose type column agrees with the payloads, a result
  that \<^verbatim>\<open>IsCleared\<close> reports is exactly one whose sequence number is in the cleared set.
\<close>

definition typed :: "EventEnvelope list \<Rightarrow> bool" where
  "typed events \<longleftrightarrow> list_all (\<lambda>env. envType env = eventType (envEvent env)) events"

lemma findToolResult_ref:
  "typed events \<Longrightarrow> findToolResult events sid q \<noteq> None \<Longrightarrow> (sid, q) \<in> set (toolResultRefs events)"
proof (induction events sid q rule: findToolResult.induct)
  case (2 env events sid q)
  then show ?case
    by (cases "envEvent env") (auto simp: typed_def toolResultRefs_def split: if_splits)
qed simp

lemma IsCleared_window:
  assumes "typed events" and "IsCleared events sid q = Inr True"
  shows "q \<in> clearedSet events"
proof -
  from assms(2) have found: "findToolResult events sid q \<noteq> None" and cl: "alreadyCleared events sid q"
    by (simp_all add: IsCleared_def split: if_splits)
  from cl obtain env where env: "env \<in> set events"
    and "case envEvent env of ToolResultCleared s n _ \<Rightarrow> s = sid \<and> n = q | _ \<Rightarrow> False"
    unfolding alreadyCleared_def by blast
  then obtain r where "envEvent env = ToolResultCleared sid q r" by (cases "envEvent env") auto
  with env findToolResult_ref [OF assms(1) found] show ?thesis
    by (force simp: clearedSet_def intro: bexI [of _ env])
qed

section \<open>The cache key\<close>

definition toolFits :: "ToolDef \<Rightarrow> bool" where
  "toolFits t \<longleftrightarrow> fitsUint64 (length (dfName t)) \<and> fitsUint64 (length (dfDescription t)) \<and>
     fitsUint64 (length (dfSchema t))"

definition prefixFits :: "string \<Rightarrow> string \<Rightarrow> ToolDef list \<Rightarrow> bool" where
  "prefixFits tenantID system tools \<longleftrightarrow> fitsUint64 (length tenantID) \<and> fitsUint64 (length system) \<and>
     fitsUint64 (length tools) \<and> list_all toolFits tools"

lemma toolFields_cut:
  assumes "toolFits s" and "toolFits t" and "toolFields s @ x = toolFields t @ y"
  shows "s = t \<and> x = y"
proof -
  from assms(3) have "writeField (dfName s) @ writeField (dfDescription s) @ writeField (dfSchema s) @ x =
      writeField (dfName t) @ writeField (dfDescription t) @ writeField (dfSchema t) @ y"
    by (simp add: toolFields_def)
  with assms(1,2) have "dfName s = dfName t" "dfDescription s = dfDescription t" "dfSchema s = dfSchema t" "x = y"
    unfolding toolFits_def by (metis writeField_cut)+
  then show ?thesis by simp
qed

lemma toolFields_concat_inj:
  assumes "list_all toolFits ss" and "list_all toolFits ts" and "length ss = length ts"
    and "concat (map toolFields ss) = concat (map toolFields ts)"
  shows "ss = ts"
  using assms(3,1,2,4) by (induction ss ts rule: list_induct2) (auto dest: toolFields_cut)

lemma cacheInput_inj:
  assumes "prefixFits t1 s1 ts1" and "prefixFits t2 s2 ts2"
    and "cacheInput t1 s1 ts1 = cacheInput t2 s2 ts2"
  shows "t1 = t2 \<and> s1 = s2 \<and> ts1 = ts2"
proof -
  let ?r = "\<lambda>ts. PutUint64 (length ts) @ concat (map toolFields ts)"
  from assms(3) have "writeField t1 @ writeField s1 @ ?r ts1 = writeField t2 @ writeField s2 @ ?r ts2"
    by (simp add: cacheInput_def)
  with assms(1,2) have "t1 = t2" "writeField s1 @ ?r ts1 = writeField s2 @ ?r ts2"
    unfolding prefixFits_def by (metis writeField_cut)+
  moreover from this assms(1,2) have "s1 = s2" "?r ts1 = ?r ts2"
    unfolding prefixFits_def by (metis writeField_cut)+
  moreover from this have "PutUint64 (length ts1) = PutUint64 (length ts2)"
    "concat (map toolFields ts1) = concat (map toolFields ts2)" by simp_all
  moreover from this assms(1,2) have "ts1 = ts2"
    unfolding prefixFits_def by (metis PutUint64_inj toolFields_concat_inj)
  ultimately show ?thesis by blast
qed

definition demoToolDef :: ToolDef where
  "demoToolDef = \<lparr>dfName = ''ls'', dfDescription = ''list'', dfSchema = ''{}''\<rparr>"

definition demoCacheInput :: "string \<Rightarrow> CacheInput" where
  "demoCacheInput tenant = \<lparr>ciTenantID = tenant, ciSystem = ''s'', ciTools = [demoToolDef], ciHistory = []\<rparr>"

text \<open>
  C31. The cacheable prefix never depends on the conversation and is keyed by tenant: two prefixes
  with the same key belong to the same tenant, system prompt and tool list in the same order, unless
  the key exhibits a collision of the hash on the two byte strings hashed. Field boundaries cannot be
  forged, because every field carries its length. A prefix is marked cacheable exactly when there is
  a tenant and something stable to cache.
\<close>

theorem cache_key_separates_tenants:
  assumes "prefixFits (ciTenantID a) (ciSystem a) (ciTools a)"
    and "prefixFits (ciTenantID b) (ciSystem b) (ciTools b)"
  shows "(cxCacheable (BuildCachePrefix sha a) \<longleftrightarrow>
            ciTenantID a \<noteq> '''' \<and> (ciSystem a \<noteq> '''' \<or> ciTools a \<noteq> []))
    \<and> BuildCachePrefix sha (a\<lparr>ciHistory := h\<rparr>) = BuildCachePrefix sha a
    \<and> cxHistoryMessagesCached (BuildCachePrefix sha a) = 0
    \<and> (cxCacheable (BuildCachePrefix sha a) \<longrightarrow> cxCacheable (BuildCachePrefix sha b) \<longrightarrow>
        cxCacheKey (BuildCachePrefix sha a) = cxCacheKey (BuildCachePrefix sha b) \<longrightarrow>
        ciTenantID a = ciTenantID b \<and> ciSystem a = ciSystem b \<and> ciTools a = ciTools b
        \<or> collides sha [cacheInput (ciTenantID a) (ciSystem a) (ciTools a)]
                       [cacheInput (ciTenantID b) (ciSystem b) (ciTools b)])"
proof (intro conjI impI)
  assume ok: "cxCacheable (BuildCachePrefix sha a)" "cxCacheable (BuildCachePrefix sha b)"
    and eq: "cxCacheKey (BuildCachePrefix sha a) = cxCacheKey (BuildCachePrefix sha b)"
  let ?x = "cacheInput (ciTenantID a) (ciSystem a) (ciTools a)"
    and ?y = "cacheInput (ciTenantID b) (ciSystem b) (ciTools b)"
  from ok eq have "sha ?x = sha ?y"
    by (auto simp: BuildCachePrefix_def cacheKey_def Let_def split: if_splits dest: hexEncode_inj)
  then show "ciTenantID a = ciTenantID b \<and> ciSystem a = ciSystem b \<and> ciTools a = ciTools b \<or> collides sha [?x] [?y]"
    using cacheInput_inj [OF assms] by (cases "?x = ?y") (auto simp: collides_def)
qed (auto simp: BuildCachePrefix_def Let_def)

theorem cache_key_separates_tenants_witness:
  "cxCacheKey (BuildCachePrefix rev (demoCacheInput ''a'')) \<noteq> cxCacheKey (BuildCachePrefix rev (demoCacheInput ''b''))"
proof -
  let ?a = "demoCacheInput ''a''" and ?b = "demoCacheInput ''b''"
  have fits: "prefixFits (ciTenantID x) (ciSystem x) (ciTools x)" if "x = ?a \<or> x = ?b" for x
    using that by (auto simp: demoCacheInput_def demoToolDef_def prefixFits_def toolFits_def fitsUint64_def)
  have "cxCacheable (BuildCachePrefix rev ?a)" "cxCacheable (BuildCachePrefix rev ?b)"
    by (simp_all add: BuildCachePrefix_def demoCacheInput_def)
  moreover have "ciTenantID ?a \<noteq> ciTenantID ?b" by (simp add: demoCacheInput_def)
  ultimately show ?thesis
    using cache_key_separates_tenants [of ?a ?b rev "[]"] fits by (auto simp: collides_def)
qed

end
