(* ===== verification/AgentPorts.thy ===== *)
theory AgentPorts
  imports Assembler AgentCtx PolicyEngine Recovery
begin

text \<open>
  The surroundings of the agent loop: the port types of \<^verbatim>\<open>app/ports.go\<close> and \<^verbatim>\<open>app/agent/ports.go\<close>, and
  the small state-and-error monad the loop's functions are written in.

  A port is a function on an environment of arbitrary type \<open>'e\<close>: it returns the environment after the
  call and its answer, so the log, the model, the tools, the human and the clock may behave in any
  way and may remember what they were asked. The machine pairs the loop's mutable \<^verbatim>\<open>runState\<close> with
  that environment and with the list of the port calls made so far, each with its answer; the loop
  never reads this list, which is there for the properties. A program is a function on machines that
  ends with a value or an error, and \<open>bindP\<close> is \<^verbatim>\<open>if err != nil { return err }\<close>.
\<close>

section \<open>Port data\<close>

record ToolDescriptor =
  dsName :: string
  dsDescription :: string
  dsSchema :: bytes
  dsSideEffect :: SideEffect
  dsEgressClass :: EgressClass

definition zeroDescriptor :: ToolDescriptor where
  "zeroDescriptor = \<lparr>dsName = '''', dsDescription = '''', dsSchema = [], dsSideEffect = SideEffectUnset,
     dsEgressClass = EgressClassUnset\<rparr>"

record ToolOutput =
  toContent :: string
  toIsError :: bool
  toTruncated :: bool
  toBlobRef :: string

definition zeroOutput :: ToolOutput where
  "zeroOutput = \<lparr>toContent = '''', toIsError = False, toTruncated = False, toBlobRef = ''''\<rparr>"

definition errorOutput :: "string \<Rightarrow> ToolOutput" where
  "errorOutput s = zeroOutput\<lparr>toContent := s, toIsError := True\<rparr>"

record ToolExecution =
  teSessionID :: string
  teCall :: ToolCall
  teIdempotencyKey :: string

datatype ToolEvent = ToolProgress string | ToolOutputEv ToolOutput | EmptyToolEvent

datatype tool_recv = ToolRecv ToolEvent | ToolEOF | ToolErr string

record ApprovalRequest =
  apSessionID :: string
  apCallID :: string
  apToolName :: string
  apReason :: string
  apArgs :: args

datatype HookEvent = HookPreToolUse | HookPostToolUse | HookStop | HookPreCompact

record HookInput =
  hiEvent :: HookEvent
  hiSessionID :: string
  hiTurnID :: string
  hiCallID :: string
  hiToolName :: string
  hiToolArgs :: args
  hiToolResult :: string

record HookDecision =
  hdAllow :: bool
  hdReason :: string

record SubAgentSpawn =
  ssParentSessionID :: string
  ssDepth :: int
  ssTask :: string
  ssModel :: string

text \<open>The fields of \<^verbatim>\<open>llm.Request\<close> that the loop sets.\<close>

record ModelRequest =
  lrModel :: string
  lrSystem :: string
  lrMessages :: "Message list"
  lrTools :: "ToolDef list"
  lrStream :: bool
  lrProviderRaw :: "bytes option"
  lrOutputSchema :: bytes
  lrStrict :: bool

section \<open>Errors, calls and ports\<close>

datatype agent_error = ErrLoadSession string | ErrLoadRecovery string | ErrAppend EventType string
  | ErrLoadWindow string | ErrReload string | ErrReraise string | ErrHook string | ErrPolicy policy_error
  | ErrApproval string | ErrStream string | ErrAssemble assemble_error | ErrPauseExhausted
  | ErrExecute string string | ErrToolRecv string string | ErrSpawn string | ErrCompileSchema string

datatype act =
    LoadSessionCall string "string + Session"
  | LoadCall string int "string + EventEnvelope list"
  | AppendCall string int int string AppendInput "string + EventEnvelope list"
  | StreamCall ModelRequest "string + recv list"
  | ListToolsCall string "string + ToolDescriptor list"
  | ExecuteCall ToolExecution "string + tool_recv list"
  | SpawnCall SubAgentSpawn "string + ToolOutput"
  | HookCall HookInput "string + HookDecision"
  | EvaluateCall Input "policy_error + Result"
  | ApprovalCall ApprovalRequest "int option" "string + AskResolution"
  | TextOut string string string
  | ThinkingOut string string string
  | RunErrorMetric TerminationReason
  | DoomLoopMetric string

type_synonym ('e, 'r) port = "'e \<Rightarrow> 'e \<times> 'r"

text \<open>
  \<^verbatim>\<open>dpExecute\<close> and \<^verbatim>\<open>dpSpawn\<close> are told whether the context they run under was cancelled by a failed
  worker, \<^verbatim>\<open>dpApproval\<close> is told the deadline, if any; \<^verbatim>\<open>dpPick\<close> is the goroutine scheduler. The JSON
  library, the schema compiler, the verb \<open>%v\<close> and the decoder of plan items are functions.
\<close>

record 'e Deps =
  dpLoadSession :: "string \<Rightarrow> ('e, string + Session) port"
  dpLoad :: "string \<Rightarrow> int \<Rightarrow> ('e, string + EventEnvelope list) port"
  dpAppend :: "string \<Rightarrow> int \<Rightarrow> int \<Rightarrow> string \<Rightarrow> AppendInput \<Rightarrow> ('e, string + EventEnvelope list) port"
  dpStream :: "ModelRequest \<Rightarrow> ('e, string + recv list) port"
  dpListTools :: "string \<Rightarrow> ('e, string + ToolDescriptor list) port"
  dpExecute :: "bool \<Rightarrow> ToolExecution \<Rightarrow> ('e, string + tool_recv list) port"
  dpSpawn :: "bool \<Rightarrow> SubAgentSpawn \<Rightarrow> ('e, string + ToolOutput) port"
  dpMaxDepth :: "int option"
  dpHook :: "HookInput \<Rightarrow> ('e, string + HookDecision) port"
  dpEvaluate :: "Input \<Rightarrow> ('e, policy_error + Result) port"
  dpApproval :: "int option \<Rightarrow> ApprovalRequest \<Rightarrow> ('e, string + AskResolution) port"
  dpContext :: "'e Manager option"
  dpCtxErr :: "('e, bool) port"
  dpPick :: "('e, nat) port"
  dpNewID :: "('e, string) port"
  dpNewRequestID :: "('e, string) port"
  dpCostFunc :: "(string \<Rightarrow> Usage \<Rightarrow> string + cost) option"
  dpJSON :: jsonlib
  dpCompileSchema :: "bytes \<Rightarrow> string + (bytes \<Rightarrow> bool)"
  dpFormatAny :: "json \<Rightarrow> string"
  dpDecodePlan :: "json \<Rightarrow> string + PlanItem list"
  dpSha :: hashfun
  dpGOMAXPROCS :: int

section \<open>Machines and programs\<close>

record runState =
  rsSessionID :: string
  rsHeadSeq :: int
  rsLeaseEpoch :: int
  rsUsage :: Usage
  rsCost :: cost
  rsNumTurns :: int
  rsCurrentTurnID :: string
  rsLastAssistantSeq :: int
  rsTainted :: bool
  rsLastToolSig :: string
  rsRepeatCount :: int
  rsStructuredRetries :: int

record 'e machine =
  mcRun :: runState
  mcEnv :: 'e
  mcTrace :: "act list"

type_synonym ('e, 'a) prog = "'e machine \<Rightarrow> 'e machine \<times> (agent_error + 'a)"

definition retP :: "'a \<Rightarrow> ('e, 'a) prog" where
  "retP x m = (m, Inr x)"

definition failP :: "agent_error \<Rightarrow> ('e, 'a) prog" where
  "failP err m = (m, Inl err)"

definition bindP :: "('e, 'a) prog \<Rightarrow> ('a \<Rightarrow> ('e, 'b) prog) \<Rightarrow> ('e, 'b) prog" where
  "bindP p f m = (case p m of (m', Inl err) \<Rightarrow> (m', Inl err) | (m', Inr x) \<Rightarrow> f x m')"

definition seqP :: "('e, 'a) prog \<Rightarrow> ('e, 'b) prog \<Rightarrow> ('e, 'b) prog" where
  "seqP p q = bindP p (\<lambda>_. q)"

text \<open>Run a program and hand its error to the caller as a value.\<close>

definition tryP :: "('e, 'a) prog \<Rightarrow> ('e, agent_error + 'a) prog" where
  "tryP p m = (case p m of (m', r) \<Rightarrow> (m', Inr r))"

definition getP :: "('e, runState) prog" where
  "getP m = (m, Inr (mcRun m))"

definition setP :: "(runState \<Rightarrow> runState) \<Rightarrow> ('e, unit) prog" where
  "setP f m = (m\<lparr>mcRun := f (mcRun m)\<rparr>, Inr ())"

text \<open>A port call: silent, or noted in the list of calls.\<close>

definition askP :: "('e, 'r) port \<Rightarrow> ('e, 'r) prog" where
  "askP f m = (case f (mcEnv m) of (e, r) \<Rightarrow> (m\<lparr>mcEnv := e\<rparr>, Inr r))"

definition noteP :: "act list \<Rightarrow> ('e, unit) prog" where
  "noteP xs m = (m\<lparr>mcTrace := mcTrace m @ xs\<rparr>, Inr ())"

definition callP :: "('e, 'r) port \<Rightarrow> ('r \<Rightarrow> act) \<Rightarrow> ('e, 'r) prog" where
  "callP f mk = bindP (askP f) (\<lambda>r. seqP (noteP [mk r]) (retP r))"

text \<open>Turn an answer that carries an error into a program that fails with it.\<close>

definition orFail :: "('err \<Rightarrow> agent_error) \<Rightarrow> ('e, 'err + 'a) prog \<Rightarrow> ('e, 'a) prog" where
  "orFail wrap p = bindP p (\<lambda>r. case r of Inl err \<Rightarrow> failP (wrap err) | Inr x \<Rightarrow> retP x)"

section \<open>Triples\<close>

text \<open>
  \<open>triple P p Q\<close>: from a machine with \<open>P\<close>, the program \<open>p\<close> ends with an answer and a machine related by
  \<open>Q\<close>. The rules below follow the combinators; a component proves a triple for each of its functions
  and callers use the triples, not the bodies.
\<close>

definition triple :: "('e machine \<Rightarrow> bool) \<Rightarrow> ('e, 'a) prog \<Rightarrow> (agent_error + 'a \<Rightarrow> 'e machine \<Rightarrow> bool) \<Rightarrow> bool" where
  "triple P p Q \<longleftrightarrow> (\<forall>m. P m \<longrightarrow> (case p m of (m', r) \<Rightarrow> Q r m'))"

definition onOk :: "('a \<Rightarrow> 'e machine \<Rightarrow> bool) \<Rightarrow> ('e machine \<Rightarrow> bool) \<Rightarrow> agent_error + 'a \<Rightarrow> 'e machine \<Rightarrow> bool" where
  "onOk R E r m = (case r of Inl _ \<Rightarrow> E m | Inr x \<Rightarrow> R x m)"

lemma onOk_simps [simp]: "onOk R E (Inl err) m = E m" "onOk R E (Inr x) m = R x m"
  by (simp_all add: onOk_def)

named_theorems tripleI \<open>rules that decompose a triple along the program\<close>

lemma triple_ret [tripleI]: "(\<And>m. P m \<Longrightarrow> R x m) \<Longrightarrow> triple P (retP x) (onOk R E)"
  by (simp add: triple_def retP_def)

lemma triple_fail [tripleI]: "(\<And>m. P m \<Longrightarrow> E m) \<Longrightarrow> triple P (failP err) (onOk R E)"
  by (simp add: triple_def failP_def)

lemma triple_bind [tripleI]:
  assumes "triple P p (onOk S E)" and "\<And>x. triple (S x) (f x) (onOk R E)"
  shows "triple P (bindP p f) (onOk R E)"
  unfolding triple_def
proof (intro allI impI)
  fix m assume "P m"
  obtain m' r where p: "p m = (m', r)" by force
  with assms(1) \<open>P m\<close> have "onOk S E r m'" unfolding triple_def by fastforce
  then show "case bindP p f m of (m', r) \<Rightarrow> onOk R E r m'"
    using assms(2) p by (cases r) (simp_all add: bindP_def triple_def)
qed

lemma triple_seq [tripleI]:
  "triple P p (onOk (\<lambda>_. S) E) \<Longrightarrow> triple S q (onOk R E) \<Longrightarrow> triple P (seqP p q) (onOk R E)"
  unfolding seqP_def by (rule triple_bind)

lemma triple_try [tripleI]:
  "triple P p (\<lambda>r m. R r m) \<Longrightarrow> triple P (tryP p) (onOk R E)"
  by (auto simp: triple_def tryP_def split: prod.splits)

lemma triple_get [tripleI]: "(\<And>m. P m \<Longrightarrow> R (mcRun m) m) \<Longrightarrow> triple P getP (onOk R E)"
  by (simp add: triple_def getP_def)

lemma triple_set [tripleI]:
  "(\<And>m. P m \<Longrightarrow> R () (m\<lparr>mcRun := f (mcRun m)\<rparr>)) \<Longrightarrow> triple P (setP f) (onOk R E)"
  by (simp add: triple_def setP_def)

lemma triple_ask [tripleI]:
  "(\<And>m e r. P m \<Longrightarrow> R r (m\<lparr>mcEnv := e\<rparr>)) \<Longrightarrow> triple P (askP f) (onOk R E)"
  by (simp add: triple_def askP_def split: prod.splits)

lemma triple_note [tripleI]:
  "(\<And>m. P m \<Longrightarrow> R () (m\<lparr>mcTrace := mcTrace m @ xs\<rparr>)) \<Longrightarrow> triple P (noteP xs) (onOk R E)"
  by (simp add: triple_def noteP_def)

lemma triple_call [tripleI]:
  "(\<And>m e r. P m \<Longrightarrow> R r (m\<lparr>mcEnv := e, mcTrace := mcTrace m @ [mk r]\<rparr>)) \<Longrightarrow> triple P (callP f mk) (onOk R E)"
  by (auto simp: triple_def callP_def bindP_def seqP_def askP_def noteP_def retP_def split: prod.splits)

lemma triple_orFail [tripleI]:
  assumes "triple P p (onOk (\<lambda>r m. case r of Inl _ \<Rightarrow> E m | Inr x \<Rightarrow> R x m) E)"
  shows "triple P (orFail wrap p) (onOk R E)"
  unfolding orFail_def
proof (rule triple_bind [OF assms])
  fix r show "triple (\<lambda>m. case r of Inl _ \<Rightarrow> E m | Inr x \<Rightarrow> R x m)
      (case r of Inl err \<Rightarrow> failP (wrap err) | Inr x \<Rightarrow> retP x) (onOk R E)"
    by (cases r) (auto simp: triple_def failP_def retP_def)
qed

lemma triple_pre: "triple P p Q \<Longrightarrow> (\<And>m. P' m \<Longrightarrow> P m) \<Longrightarrow> triple P' p Q"
  by (auto simp: triple_def)

lemma triple_post: "triple P p Q \<Longrightarrow> (\<And>r m. Q r m \<Longrightarrow> Q' r m) \<Longrightarrow> triple P p Q'"
  by (fastforce simp: triple_def)

lemma triple_conj:
  "triple P p (onOk R E) \<Longrightarrow> triple P p (onOk R' E') \<Longrightarrow>
   triple P p (onOk (\<lambda>x m. R x m \<and> R' x m) (\<lambda>m. E m \<and> E' m))"
  by (fastforce simp: triple_def onOk_def split: sum.splits prod.splits)

lemma triple_use: "triple P p (onOk R E) \<Longrightarrow> P m \<Longrightarrow> p m = (m', r) \<Longrightarrow> onOk R E r m'"
  by (fastforce simp: triple_def)

lemma triple_if:
  "(b \<Longrightarrow> triple P p Q) \<Longrightarrow> (\<not> b \<Longrightarrow> triple P q Q) \<Longrightarrow> triple P (if b then p else q) Q"
  by simp

section \<open>Step relations\<close>

text \<open>
  \<open>stays R p\<close>: whatever the ports answer, \<open>p\<close> takes a machine to one related to it by \<open>R\<close>, also when it
  fails. For a reflexive and transitive \<open>R\<close> this is proved combinator by combinator.
\<close>

definition stays :: "('e machine \<Rightarrow> 'e machine \<Rightarrow> bool) \<Rightarrow> ('e, 'a) prog \<Rightarrow> bool" where
  "stays R p \<longleftrightarrow> (\<forall>m. R m (fst (p m)))"

definition preorder :: "('s \<Rightarrow> 's \<Rightarrow> bool) \<Rightarrow> bool" where
  "preorder R \<longleftrightarrow> (\<forall>x. R x x) \<and> (\<forall>x y z. R x y \<longrightarrow> R y z \<longrightarrow> R x z)"

named_theorems staysI \<open>rules that decompose a step relation along the program\<close>

lemma stays_ret [staysI]: "preorder R \<Longrightarrow> stays R (retP x)"
  by (simp add: stays_def retP_def preorder_def)

lemma stays_fail [staysI]: "preorder R \<Longrightarrow> stays R (failP err)"
  by (simp add: stays_def failP_def preorder_def)

lemma stays_get [staysI]: "preorder R \<Longrightarrow> stays R getP"
  by (simp add: stays_def getP_def preorder_def)

lemma stays_bind [staysI]:
  assumes "preorder R" and "stays R p" and "\<And>x. stays R (f x)"
  shows "stays R (bindP p f)"
  unfolding stays_def
proof
  fix m
  obtain m' r where p: "p m = (m', r)" by force
  with assms(2) have "R m m'" unfolding stays_def by (metis fst_conv)
  with assms(1,3) p show "R m (fst (bindP p f m))"
    by (cases r) (auto simp: bindP_def stays_def preorder_def)
qed

lemma stays_seq [staysI]: "preorder R \<Longrightarrow> stays R p \<Longrightarrow> stays R q \<Longrightarrow> stays R (seqP p q)"
  unfolding seqP_def by (rule stays_bind)

lemma stays_try [staysI]: "stays R p \<Longrightarrow> stays R (tryP p)"
  by (auto simp: stays_def tryP_def split: prod.splits) (metis fst_conv)

lemma stays_set [staysI]: "(\<And>m. R m (m\<lparr>mcRun := f (mcRun m)\<rparr>)) \<Longrightarrow> stays R (setP f)"
  by (simp add: stays_def setP_def)

lemma stays_ask [staysI]: "(\<And>m e. R m (m\<lparr>mcEnv := e\<rparr>)) \<Longrightarrow> stays R (askP f)"
  by (simp add: stays_def askP_def split: prod.splits)

lemma stays_note [staysI]: "(\<And>m. R m (m\<lparr>mcTrace := mcTrace m @ xs\<rparr>)) \<Longrightarrow> stays R (noteP xs)"
  by (simp add: stays_def noteP_def)

lemma stays_call [staysI]:
  "(\<And>m e r. R m (m\<lparr>mcEnv := e, mcTrace := mcTrace m @ [mk r]\<rparr>)) \<Longrightarrow> stays R (callP f mk)"
  by (auto simp: stays_def callP_def bindP_def seqP_def askP_def noteP_def retP_def split: prod.splits)

lemma stays_orFail [staysI]: "preorder R \<Longrightarrow> stays R p \<Longrightarrow> stays R (orFail wrap p)"
  unfolding orFail_def by (rule stays_bind) (auto split: sum.splits intro: staysI)

lemma stays_Let [staysI]: "stays R (f x) \<Longrightarrow> stays R (let y = x in f y)"
  by simp

lemma stays_if [staysI]: "(b \<Longrightarrow> stays R p) \<Longrightarrow> (\<not> b \<Longrightarrow> stays R q) \<Longrightarrow> stays R (if b then p else q)"
  by simp

lemma stays_case_option [staysI]:
  "(x = None \<Longrightarrow> stays R p) \<Longrightarrow> (\<And>y. x = Some y \<Longrightarrow> stays R (f y)) \<Longrightarrow> stays R (case x of None \<Rightarrow> p | Some y \<Rightarrow> f y)"
  by (cases x) auto

lemma stays_case_sum [staysI]:
  "(\<And>y. x = Inl y \<Longrightarrow> stays R (f y)) \<Longrightarrow> (\<And>y. x = Inr y \<Longrightarrow> stays R (g y)) \<Longrightarrow>
   stays R (case x of Inl y \<Rightarrow> f y | Inr y \<Rightarrow> g y)"
  by (cases x) auto

lemma stays_case_prod [staysI]:
  "(\<And>a b. x = (a, b) \<Longrightarrow> stays R (f a b)) \<Longrightarrow> stays R (case x of (a, b) \<Rightarrow> f a b)"
  by (cases x) auto

lemma stays_case_list [staysI]:
  "(x = [] \<Longrightarrow> stays R p) \<Longrightarrow> (\<And>y ys. x = y # ys \<Longrightarrow> stays R (f y ys)) \<Longrightarrow>
   stays R (case x of [] \<Rightarrow> p | y # ys \<Rightarrow> f y ys)"
  by (cases x) auto

lemma stays_case_bool [staysI]:
  "(x \<Longrightarrow> stays R p) \<Longrightarrow> (\<not> x \<Longrightarrow> stays R q) \<Longrightarrow> stays R (case x of True \<Rightarrow> p | False \<Rightarrow> q)"
  by (cases x) auto

lemma stays_mono: "stays R p \<Longrightarrow> (\<And>m m'. R m m' \<Longrightarrow> S m m') \<Longrightarrow> stays S p"
  by (simp add: stays_def)

section \<open>What a program yields\<close>

text \<open>\<open>yields V p\<close>: the values \<open>p\<close> can return satisfy \<open>V\<close>, whatever the ports answer.\<close>

definition yields :: "('a \<Rightarrow> bool) \<Rightarrow> ('e, 'a) prog \<Rightarrow> bool" where
  "yields V p \<longleftrightarrow> (\<forall>m m' x. p m = (m', Inr x) \<longrightarrow> V x)"

named_theorems yieldsI \<open>rules for the values of a program\<close>

lemma yields_ret [yieldsI]: "V x \<Longrightarrow> yields V (retP x)"
  by (simp add: yields_def retP_def)

lemma yields_fail [yieldsI]: "yields V (failP err)"
  by (simp add: yields_def failP_def)

lemma yields_bind:
  "yields U p \<Longrightarrow> (\<And>x. U x \<Longrightarrow> yields V (f x)) \<Longrightarrow> yields V (bindP p f)"
  by (fastforce simp: yields_def bindP_def split: prod.splits sum.splits)

lemma yields_bind_any [yieldsI]: "(\<And>x. yields V (f x)) \<Longrightarrow> yields V (bindP p f)"
  by (fastforce simp: yields_def bindP_def split: prod.splits sum.splits)

lemma yields_seq [yieldsI]: "yields V q \<Longrightarrow> yields V (seqP p q)"
  unfolding seqP_def by (rule yields_bind_any)

lemma yields_try: "yields V p \<Longrightarrow> yields (\<lambda>r. case r of Inl _ \<Rightarrow> True | Inr x \<Rightarrow> V x) (tryP p)"
  by (fastforce simp: yields_def tryP_def split: prod.splits sum.splits)

lemma yields_Let [yieldsI]: "yields V (f x) \<Longrightarrow> yields V (let y = x in f y)"
  by simp

lemma yields_if [yieldsI]: "(b \<Longrightarrow> yields V p) \<Longrightarrow> (\<not> b \<Longrightarrow> yields V q) \<Longrightarrow> yields V (if b then p else q)"
  by simp

lemma yields_case_option [yieldsI]:
  "(x = None \<Longrightarrow> yields V p) \<Longrightarrow> (\<And>y. x = Some y \<Longrightarrow> yields V (f y)) \<Longrightarrow> yields V (case x of None \<Rightarrow> p | Some y \<Rightarrow> f y)"
  by (cases x) auto

lemma yields_case_sum [yieldsI]:
  "(\<And>y. x = Inl y \<Longrightarrow> yields V (f y)) \<Longrightarrow> (\<And>y. x = Inr y \<Longrightarrow> yields V (g y)) \<Longrightarrow>
   yields V (case x of Inl y \<Rightarrow> f y | Inr y \<Rightarrow> g y)"
  by (cases x) auto

lemma yields_case_prod [yieldsI]:
  "(\<And>a b. x = (a, b) \<Longrightarrow> yields V (f a b)) \<Longrightarrow> yields V (case x of (a, b) \<Rightarrow> f a b)"
  by (cases x) auto

text \<open>A continuation that needs a fact about the value it is given.\<close>

lemma stays_bind_yields:
  assumes "preorder R" and "stays R p" and "yields V p" and "\<And>x. V x \<Longrightarrow> stays R (f x)"
  shows "stays R (bindP p f)"
  unfolding stays_def
proof
  fix m
  obtain m' r where p: "p m = (m', r)" by force
  with assms(2) have "R m m'" unfolding stays_def by (metis fst_conv)
  with assms(1,3,4) p show "R m (fst (bindP p f m))"
    by (cases r) (auto simp: bindP_def stays_def preorder_def yields_def)
qed

end
