(* ===== verification/VirtualTools.thy ===== *)
theory VirtualTools
  imports AgentPorts
begin

text \<open>
  The two tools the loop handles itself, \<^verbatim>\<open>app/agent/virtual_tools.go\<close>: their advertised definitions,
  their fixed safety classes, and the parsers of their arguments. The decoder that reads plan items
  from a JSON value is a parameter.
\<close>

definition toolNameSpawnSubagent :: string where "toolNameSpawnSubagent = ''spawn_subagent''"

definition toolNameTodoWrite :: string where "toolNameTodoWrite = ''todo_write''"

definition joinLines :: "string list \<Rightarrow> string" where
  "joinLines ls = concat (map (\<lambda>l. l @ [CHR 0x0A]) (butlast ls)) @ (if ls = [] then [] else last ls)"

definition spawnSubagentSchema :: string where
  \<open>spawnSubagentSchema = joinLines [
     ''{'',
     ''  "type": "object",'',
     ''  "additionalProperties": false,'',
     ''  "properties": {'',
     ''    "task": {'',
     ''      "type": "string",'',
     ''      "description": "The natural-language task to hand to the child sub-agent. Required and non-empty."'',
     ''    },'',
     ''    "model": {'',
     ''      "type": "string",'',
     ''      "description": "Optional model id override for the child sub-agent. Omit to inherit the parent's model."'',
     ''    }'',
     ''  },'',
     ''  "required": ["task"]'',
     ''}'']\<close>

definition todoWriteSchema :: string where
  \<open>todoWriteSchema = joinLines [
     ''{'',
     ''  "type": "object",'',
     ''  "additionalProperties": false,'',
     ''  "properties": {'',
     ''    "items": {'',
     ''      "type": "array",'',
     ''      "description": "The full task plan, in order. Send the COMPLETE list every time; it replaces the previous plan. An empty array clears the plan.",'',
     ''      "items": {'',
     ''        "type": "object",'',
     ''        "additionalProperties": false,'',
     ''        "properties": {'',
     ''          "content": {'',
     ''            "type": "string",'',
     ''            "description": "A short, imperative description of the plan step."'',
     ''          },'',
     ''          "status": {'',
     ''            "type": "string",'',
     ''            "enum": ["pending", "in_progress", "completed"],'',
     ''            "description": "The step's lifecycle status. Keep exactly one item in_progress at a time."'',
     ''          }'',
     ''        },'',
     ''        "required": ["content", "status"]'',
     ''      }'',
     ''    }'',
     ''  },'',
     ''  "required": ["items"]'',
     ''}'']\<close>

definition emDash :: string where "emDash = [CHR 0xE2, CHR 0x80, CHR 0x94]"

definition spawnSubagentDescription :: string where
  \<open>spawnSubagentDescription =
     ''Delegate a focused subtask to a child sub-agent that runs its own bounded '' @
     ''agent loop and returns a condensed result. Use it to parallelize or isolate '' @
     ''work (e.g. "summarize this directory", "investigate this failing test"). '' @
     ''Provide a self-contained `task`; the child does not see this conversation. '' @
     ''Recursion is depth-limited, so this tool is only available below the limit.''\<close>

definition todoWriteDescription :: string where
  \<open>todoWriteDescription =
     ''Record or update your task plan (todo list) as a durable, ordered checklist. '' @
     ''Send the COMPLETE list of items every time '' @ emDash @ '' it replaces the previous plan. '' @
     ''Each item has `content` (the step) and `status` (pending|in_progress|completed). '' @
     ''Keep exactly one item in_progress. Use this to plan multi-step work and to '' @
     ''show progress; it has no side effects beyond recording the plan.''\<close>

definition spawnSubagentDef :: ToolDef where
  "spawnSubagentDef = \<lparr>dfName = toolNameSpawnSubagent, dfDescription = spawnSubagentDescription,
     dfSchema = spawnSubagentSchema\<rparr>"

definition todoWriteDef :: ToolDef where
  "todoWriteDef = \<lparr>dfName = toolNameTodoWrite, dfDescription = todoWriteDescription, dfSchema = todoWriteSchema\<rparr>"

text \<open>The sub-agent port is present exactly when it announces a maximal depth.\<close>

definition virtualToolDefs :: "int option \<Rightarrow> int \<Rightarrow> ToolDef list" where
  "virtualToolDefs maxDepth depth =
     [todoWriteDef] @ (case maxDepth of Some d \<Rightarrow> if depth < d then [spawnSubagentDef] else [] | None \<Rightarrow> [])"

definition virtualClasses :: "string \<rightharpoonup> ToolDescriptor" where
  "virtualClasses = [
     toolNameSpawnSubagent \<mapsto> \<lparr>dsName = toolNameSpawnSubagent, dsDescription = spawnSubagentDescription,
       dsSchema = [], dsSideEffect = SideEffectMutating, dsEgressClass = EgressClassNone\<rparr>,
     toolNameTodoWrite \<mapsto> \<lparr>dsName = toolNameTodoWrite, dsDescription = todoWriteDescription,
       dsSchema = [], dsSideEffect = SideEffectReadOnly, dsEgressClass = EgressClassNone\<rparr>]"

definition isVirtualTool :: "string \<Rightarrow> bool" where
  "isVirtualTool name \<longleftrightarrow> virtualClasses name \<noteq> None"

definition virtualClassFor :: "string \<Rightarrow> ToolDescriptor option" where
  "virtualClassFor name = virtualClasses name"

definition mergeVirtualClasses :: "(string \<rightharpoonup> ToolDescriptor) \<Rightarrow> string \<rightharpoonup> ToolDescriptor" where
  "mergeVirtualClasses base = base ++ virtualClasses"

definition parseSpawnArgs :: "args \<Rightarrow> string + string \<times> string" where
  "parseSpawnArgs as =
     (case map_of as ''task'' of
        None \<Rightarrow> Inl (''spawn_subagent: missing required '' @ goQuote ''task'' @ '' argument'')
      | Some (JStr task) \<Rightarrow>
          if TrimSpace task = '''' then Inl (''spawn_subagent: '' @ goQuote ''task'' @ '' must not be empty'')
          else (case map_of as ''model'' of
              None \<Rightarrow> Inr (task, '''')
            | Some JNull \<Rightarrow> Inr (task, '''')
            | Some (JStr model) \<Rightarrow> Inr (task, model)
            | Some _ \<Rightarrow> Inl (''spawn_subagent: '' @ goQuote ''model'' @ '' must be a string''))
      | Some _ \<Rightarrow> Inl (''spawn_subagent: '' @ goQuote ''task'' @ '' must be a string''))"

definition planErrorText :: "plan_error \<Rightarrow> string" where
  "planErrorText err = (case err of
       PlanEmptyContent i \<Rightarrow> ''plan item '' @ FormatNat i @ '': content must not be empty''
     | PlanBadStatus i s \<Rightarrow> ''plan item '' @ FormatNat i @ '': status '' @ goQuote s @ '' must be one of '' @
         goQuote PlanStatusPending @ '', '' @ goQuote PlanStatusInProgress @ '', '' @ goQuote PlanStatusCompleted)"

definition parsePlanItems :: "(json \<Rightarrow> string + PlanItem list) \<Rightarrow> args \<Rightarrow> string + PlanItem list" where
  "parsePlanItems decode as =
     (case map_of as ''items'' of
        None \<Rightarrow> Inr []
      | Some raw \<Rightarrow>
          if raw = JNull then Inr []
          else (case decode raw of
              Inl e \<Rightarrow> Inl (''todo_write: '' @ goQuote ''items'' @ '' must be an array of {content,status}: '' @ e)
            | Inr items \<Rightarrow> (case Validate items of
                Some e \<Rightarrow> Inl (''todo_write: '' @ planErrorText e)
              | None \<Rightarrow> Inr items)))"

definition planConfirmation :: "PlanItem list \<Rightarrow> string" where
  "planConfirmation items = ''recorded plan: '' @ FormatNat (length items) @ '' item(s)''"

section \<open>Facts\<close>

lemma isVirtualTool_iff: "isVirtualTool n \<longleftrightarrow> n = toolNameSpawnSubagent \<or> n = toolNameTodoWrite"
  by (auto simp: isVirtualTool_def virtualClasses_def)

lemma mergeVirtualClasses_real: "\<not> isVirtualTool n \<Longrightarrow> mergeVirtualClasses base n = base n"
  by (simp add: mergeVirtualClasses_def isVirtualTool_def map_add_def)

lemma mergeVirtualClasses_virtual: "isVirtualTool n \<Longrightarrow> mergeVirtualClasses base n = virtualClasses n"
  by (auto simp: mergeVirtualClasses_def isVirtualTool_def map_add_def)

text \<open>A plan that the parser lets through is well-formed.\<close>

lemma parsePlanItems_wf: "parsePlanItems decode as = Inr items \<Longrightarrow> list_all wfPlanItem items"
  by (auto simp: parsePlanItems_def Validate_def validateFrom_None split: option.splits sum.splits if_splits)

text \<open>A spawn is advertised only where the child it would start is within the depth limit.\<close>

lemma spawn_advertised_within_depth:
  "spawnSubagentDef \<in> set (virtualToolDefs maxDepth depth) \<longleftrightarrow> (\<exists>d. maxDepth = Some d \<and> depth + 1 \<le> d)"
proof -
  have "spawnSubagentDef \<noteq> todoWriteDef"
    by (simp add: spawnSubagentDef_def todoWriteDef_def toolNameSpawnSubagent_def toolNameTodoWrite_def)
  then show ?thesis by (auto simp: virtualToolDefs_def split: option.splits)
qed

end
