(* ===== verification/AgentLoop.thy ===== *)
theory AgentLoop
  imports VirtualTools
begin

text \<open>
  The agent loop, \<^verbatim>\<open>app/agent/loop.go\<close>, \<^verbatim>\<open>turn.go\<close> and \<^verbatim>\<open>tools.go\<close>, over the ports of \<^verbatim>\<open>AgentPorts\<close>: appending
  to the log, building the request, streaming with pause continuations, classifying a final message,
  gating and dispatching tool calls, resuming after a crash, and the run itself.

  The dispatcher's worker pool is a list of calls handed to a goroutine and not yet finished; at each
  step the scheduler picks whether a worker finishes or the dispatching goroutine goes on. Executing a
  call is one step. A pool that is full makes the dispatching goroutine wait, as \<^verbatim>\<open>SetLimit\<close> does.
\<close>

section \<open>Configuration\<close>

record LoopConfig =
  lcModel :: string
  lcMaxTurns :: int
  lcMaxBudgetUSD :: cost
  lcMaxStructuredOutputRetries :: int
  lcDoomLoopThreshold :: int
  lcReadOnlyConcurrency :: int
  lcToolDefs :: "ToolDef list"
  lcMode :: Mode
  lcLeaseEpoch :: int
  lcOutputSchema :: bytes
  lcStrict :: bool
  lcDepth :: int
  lcResumeApprovalTimeout :: int

definition DefaultMaxTurns :: int where "DefaultMaxTurns = 32"
definition DefaultStructuredOutputRetries :: int where "DefaultStructuredOutputRetries = 3"
definition DefaultDoomLoopThreshold :: int where "DefaultDoomLoopThreshold = 3"
definition DefaultResumeApprovalTimeout :: int where "DefaultResumeApprovalTimeout = 300000000000"

record 'e Loop =
  lpDeps :: "'e Deps"
  lpCfg :: LoopConfig

record RunInput =
  riSessionID :: string
  riUserMessage :: Message
  riTainted :: bool

record RunResult =
  rrReason :: TerminationReason
  rrUsage :: Usage
  rrCostUSD :: cost
  rrNumTurns :: int

definition NewLoop :: "'e Deps \<Rightarrow> LoopConfig \<Rightarrow> 'e Loop" where
  "NewLoop deps cfg = \<lparr>lpDeps = deps,
     lpCfg = cfg\<lparr>
       lcDoomLoopThreshold := (if lcDoomLoopThreshold cfg = 0 then DefaultDoomLoopThreshold else lcDoomLoopThreshold cfg),
       lcResumeApprovalTimeout := (if lcResumeApprovalTimeout cfg \<le> 0 then DefaultResumeApprovalTimeout
                                   else lcResumeApprovalTimeout cfg)\<rparr>\<rparr>"

text \<open>The mode defaults where the configuration leaves it empty.\<close>

definition mode :: "'e Loop \<Rightarrow> Mode" where
  "mode l = (if lcMode (lpCfg l) = PModeOther '''' then PModeDefault else lcMode (lpCfg l))"

section \<open>Log appends, costs and keys\<close>

definition appendEv :: "'e Loop \<Rightarrow> Actor \<Rightarrow> event \<Rightarrow> ('e, unit) prog" where
  "appendEv l actor ev =
     bindP (askP (dpNewRequestID (lpDeps l))) (\<lambda>reqID.
     bindP getP (\<lambda>st.
     let inp = \<lparr>aiEvent = ev, aiSchemaVersion = 0, aiActor = actor\<rparr> in
     bindP (orFail (ErrAppend (eventType ev))
       (callP (dpAppend (lpDeps l) (rsSessionID st) (rsHeadSeq st) (rsLeaseEpoch st) reqID inp)
         (AppendCall (rsSessionID st) (rsHeadSeq st) (rsLeaseEpoch st) reqID inp))) (\<lambda>envs.
     setP (\<lambda>st. if envs = [] then st else st\<lparr>rsHeadSeq := envSeq (last envs)\<rparr>))))"

definition computeCost :: "'e Loop \<Rightarrow> Usage \<Rightarrow> cost" where
  "computeCost l u = (case dpCostFunc (lpDeps l) of
       None \<Rightarrow> 0
     | Some f \<Rightarrow> (case f (lcModel (lpCfg l)) u of Inl _ \<Rightarrow> 0 | Inr c \<Rightarrow> c))"

definition priceTurnUsage :: "'e Loop \<Rightarrow> Usage \<Rightarrow> string + cost" where
  "priceTurnUsage l u = (case dpCostFunc (lpDeps l) of
       None \<Rightarrow> Inr 0
     | Some f \<Rightarrow> (case f (lcModel (lpCfg l)) u of
           Inl e \<Rightarrow> if 0 < lcMaxBudgetUSD (lpCfg l) then Inl e else Inr 0
         | Inr c \<Rightarrow> Inr c))"

definition hasContent :: "Message \<Rightarrow> bool" where
  "hasContent m \<longleftrightarrow> mContent m \<noteq> []"

definition readOnlyLimit :: "'e Loop \<Rightarrow> int" where
  "readOnlyLimit l =
     (if 0 < lcReadOnlyConcurrency (lpCfg l) then lcReadOnlyConcurrency (lpCfg l)
      else let n = dpGOMAXPROCS (lpDeps l); n1 = (if 4 < n then 4 else n) in if n1 < 1 then 1 else n1)"

definition deriveIdempotencyKey :: "hashfun \<Rightarrow> string \<Rightarrow> int \<Rightarrow> string" where
  "deriveIdempotencyKey sha sessionID seq = hexEncode (sha (sessionID @ [CHR 0x00] @ FormatInt seq))"

definition resultOf :: "runState \<Rightarrow> TerminationReason \<Rightarrow> RunResult" where
  "resultOf st reason = \<lparr>rrReason = reason, rrUsage = rsUsage st, rrCostUSD = rsCost st, rrNumTurns = rsNumTurns st\<rparr>"

definition addSpent :: "Usage \<Rightarrow> cost \<Rightarrow> runState \<Rightarrow> runState" where
  "addSpent u c st = st\<lparr>rsUsage := addUsage (rsUsage st) u, rsCost := rsCost st + c\<rparr>"

section \<open>Ending a run\<close>

definition finishTurn :: "'e Loop \<Rightarrow> string \<Rightarrow> TerminationReason \<Rightarrow> ('e, RunResult) prog" where
  "finishTurn l turnID reason =
     bindP getP (\<lambda>st.
     seqP (appendEv l ActorSystem (TurnFinished turnID reason (rsUsage st) (rsCost st) (rsNumTurns st)))
     (seqP (if IsError reason then noteP [RunErrorMetric reason] else retP ())
     (retP (resultOf st reason))))"

definition finish :: "'e Loop \<Rightarrow> TerminationReason \<Rightarrow> ('e, RunResult) prog" where
  "finish l reason = bindP getP (\<lambda>st. finishTurn l (rsCurrentTurnID st) reason)"

definition terminate :: "'e Loop \<Rightarrow> TerminationReason \<Rightarrow> ('e, RunResult) prog" where
  "terminate l reason =
     bindP (askP (dpNewID (lpDeps l))) (\<lambda>turnID.
     seqP (appendEv l ActorSystem (TurnStarted turnID (lcModel (lpCfg l))))
     (finishTurn l turnID reason))"

section \<open>Executing one call\<close>

record scheduledExec =
  seCall :: ToolCall
  seIdemKey :: string
  seParallel :: bool

text \<open>Drain a tool stream: the last result before the end, or the receive error.\<close>

fun drainTool :: "tool_recv list \<Rightarrow> ToolOutput option \<Rightarrow> string + ToolOutput option" where
  "drainTool [] res = Inr res"
| "drainTool (ToolEOF # _) res = Inr res"
| "drainTool (ToolErr e # _) res = Inl e"
| "drainTool (ToolRecv ev # rs) res =
     drainTool rs (case ev of ToolOutputEv r \<Rightarrow> Some r | _ \<Rightarrow> res)"

definition execVirtual :: "'e Loop \<Rightarrow> bool \<Rightarrow> ToolCall \<Rightarrow> ('e, ToolOutput \<times> event option) prog" where
  "execVirtual l cancelled c =
     (if tcName c = toolNameSpawnSubagent then
        (case parseSpawnArgs (tcArgs c) of
           Inl e \<Rightarrow> retP (errorOutput e, None)
         | Inr (task, model) \<Rightarrow>
             if dpMaxDepth (lpDeps l) = None
             then retP (errorOutput ''spawn_subagent: sub-agents are not available'', None)
             else bindP getP (\<lambda>st.
               let sp = \<lparr>ssParentSessionID = rsSessionID st, ssDepth = lcDepth (lpCfg l) + 1, ssTask = task, ssModel = model\<rparr> in
               bindP (orFail ErrSpawn (callP (dpSpawn (lpDeps l) cancelled sp) (SpawnCall sp))) (\<lambda>res.
               retP (res, None))))
      else if tcName c = toolNameTodoWrite then
        (case parsePlanItems (dpDecodePlan (lpDeps l)) (tcArgs c) of
           Inl e \<Rightarrow> retP (errorOutput e, None)
         | Inr items \<Rightarrow> bindP getP (\<lambda>st.
             retP (zeroOutput\<lparr>toContent := planConfirmation items\<rparr>, Some (PlanUpdated (rsCurrentTurnID st) items))))
      else retP (errorOutput (''unknown virtual tool '' @ goQuote (tcName c)), None))"

definition execOne :: "'e Loop \<Rightarrow> bool \<Rightarrow> scheduledExec \<Rightarrow> ('e, ToolOutput \<times> event option) prog" where
  "execOne l cancelled e =
     (let c = seCall e in
      if isVirtualTool (tcName c) then execVirtual l cancelled c
      else bindP getP (\<lambda>st.
        let te = \<lparr>teSessionID = rsSessionID st, teCall = c, teIdempotencyKey = seIdemKey e\<rparr> in
        bindP (orFail (ErrExecute (tcName c)) (callP (dpExecute (lpDeps l) cancelled te) (ExecuteCall te))) (\<lambda>stream.
        case drainTool stream None of
          Inl err \<Rightarrow> failP (ErrToolRecv (tcName c) err)
        | Inr None \<Rightarrow> retP (errorOutput ''tool produced no result'', None)
        | Inr (Some r) \<Rightarrow> retP (r, None))))"

section \<open>Dispatch\<close>

record dispatchState =
  dsOut :: "string \<rightharpoonup> ToolOutput"
  dsPlans :: "string \<rightharpoonup> event"
  dsGroupErr :: "agent_error option"
  dsSerialErr :: "agent_error option"

definition recordExec :: "string \<Rightarrow> ToolOutput \<times> event option \<Rightarrow> dispatchState \<Rightarrow> dispatchState" where
  "recordExec cid r d = (case r of (res, pu) \<Rightarrow>
     d\<lparr>dsOut := (dsOut d)(cid \<mapsto> res), dsPlans := (case pu of None \<Rightarrow> dsPlans d | Some ev \<Rightarrow> (dsPlans d)(cid \<mapsto> ev))\<rparr>)"

text \<open>A worker of the group finishes: the group remembers the first error and cancels its context.\<close>

definition runWorker :: "'e Loop \<Rightarrow> scheduledExec \<Rightarrow> dispatchState \<Rightarrow> ('e, dispatchState) prog" where
  "runWorker l e d =
     bindP (tryP (execOne l (dsGroupErr d \<noteq> None) e)) (\<lambda>r. retP (case r of
         Inl err \<Rightarrow> d\<lparr>dsGroupErr := (case dsGroupErr d of None \<Rightarrow> Some err | Some x \<Rightarrow> Some x)\<rparr>
       | Inr x \<Rightarrow> recordExec (tcID (seCall e)) x d))"

definition removeNth :: "nat \<Rightarrow> 'a list \<Rightarrow> 'a list" where
  "removeNth n xs = take n xs @ drop (Suc n) xs"

lemma length_removeNth [termination_simp]: "n < length xs \<Longrightarrow> length (removeNth n xs) < length xs"
  by (simp add: removeNth_def)

text \<open>The calls not yet reached, the pool, and the state; a failed serial call skips the rest.\<close>

function dispatchLoop ::
  "'e Loop \<Rightarrow> nat \<Rightarrow> scheduledExec list \<Rightarrow> scheduledExec list \<Rightarrow> dispatchState \<Rightarrow> ('e, dispatchState) prog" where
  "dispatchLoop l limit todo pool d =
     (if todo = [] \<and> pool = [] then retP d
      else bindP (askP (dpPick (lpDeps l))) (\<lambda>n.
        if pool \<noteq> [] \<and> (n < length pool \<or> todo = [] \<or> seParallel (hd todo) \<and> limit \<le> length pool)
        then let k = n mod length pool in
          bindP (runWorker l (pool ! k) d) (\<lambda>d'. dispatchLoop l limit todo (removeNth k pool) d')
        else (case todo of
            [] \<Rightarrow> retP d
          | e # es \<Rightarrow>
              if seParallel e then dispatchLoop l limit es (pool @ [e]) d
              else bindP (tryP (execOne l (dsGroupErr d \<noteq> None) e)) (\<lambda>r. case r of
                  Inl err \<Rightarrow> dispatchLoop l limit [] pool (d\<lparr>dsSerialErr := Some err\<rparr>)
                | Inr x \<Rightarrow> dispatchLoop l limit es pool (recordExec (tcID (seCall e)) x d)))))"
  by pat_completeness auto

termination dispatchLoop
  by (relation "measure (\<lambda>(l, limit, todo, pool, d). 2 * length todo + length pool)")
    (auto simp: length_removeNth neq_Nil_conv)

declare dispatchLoop.simps [simp del]

definition dispatch :: "'e Loop \<Rightarrow> scheduledExec list \<Rightarrow> ('e, (string \<rightharpoonup> ToolOutput) \<times> (string \<rightharpoonup> event)) prog" where
  "dispatch l execs =
     bindP (dispatchLoop l (nat (readOnlyLimit l)) execs []
        \<lparr>dsOut = Map.empty, dsPlans = Map.empty, dsGroupErr = None, dsSerialErr = None\<rparr>) (\<lambda>d.
     case dsSerialErr d of
       Some err \<Rightarrow> failP err
     | None \<Rightarrow> (case dsGroupErr d of Some err \<Rightarrow> failP err | None \<Rightarrow> retP (dsOut d, dsPlans d)))"

section \<open>The permission gate\<close>

definition reasonHookBlocked :: string where "reasonHookBlocked = ''hook_blocked''"

definition reasonSuspendedApprovalAbandoned :: string where
  "reasonSuspendedApprovalAbandoned = ''suspended-approval-abandoned-on-resume''"

definition deniedResult :: "ToolCall \<Rightarrow> string \<Rightarrow> ToolOutput" where
  "deniedResult c msg = errorOutput (''tool '' @ goQuote (tcName c) @ '' was not executed: '' @ msg)"

text \<open>The answer \<^const>\<open>None\<close> lets the call through; \<^const>\<open>Some\<close> is the observation to feed back instead.\<close>

definition decide :: "'e Loop \<Rightarrow> ToolCall \<Rightarrow> PermissionDecision \<Rightarrow> AskResolution \<Rightarrow> string \<Rightarrow> string \<Rightarrow> ('e, unit) prog" where
  "decide l c dec resolved rule reason =
     appendEv l ActorSystem (PermissionDecided (tcID c) (tcName c) dec resolved rule reason)"

definition askHuman :: "'e Loop \<Rightarrow> ToolCall \<Rightarrow> Result \<Rightarrow> ('e, ToolOutput option) prog" where
  "askHuman l c pres =
     bindP getP (\<lambda>st.
     seqP (appendEv l ActorSystem (ApprovalRequested (rsCurrentTurnID st) (tcID c) (tcName c) (resReason pres) (tcArgs c)))
     (let req = \<lparr>apSessionID = rsSessionID st, apCallID = tcID c, apToolName = tcName c, apReason = resReason pres,
                 apArgs = tcArgs c\<rparr> in
      bindP (orFail ErrApproval (callP (dpApproval (lpDeps l) None req) (ApprovalCall req None))) (\<lambda>resolution.
      seqP (decide l c PermissionAsk resolution (resRuleID pres) (resReason pres))
      (retP (if resolution = AskAllowed then None else Some (deniedResult c ''denied by human approval''))))))"

definition policyInput :: "'e Loop \<Rightarrow> runState \<Rightarrow> ToolCall \<Rightarrow> ToolDescriptor \<Rightarrow> Input" where
  "policyInput l st c cls = \<lparr>inSessionID = rsSessionID st, inCallID = tcID c, inToolName = tcName c, inToolArgs = tcArgs c,
     inSideEffect = dsSideEffect cls, inEgressClass = dsEgressClass cls, inMode = mode l, inTainted = rsTainted st\<rparr>"

definition preToolInput :: "runState \<Rightarrow> ToolCall \<Rightarrow> HookInput" where
  "preToolInput st c = \<lparr>hiEvent = HookPreToolUse, hiSessionID = rsSessionID st, hiTurnID = rsCurrentTurnID st,
     hiCallID = tcID c, hiToolName = tcName c, hiToolArgs = tcArgs c, hiToolResult = ''''\<rparr>"

definition gateCall :: "'e Loop \<Rightarrow> ToolCall \<Rightarrow> ToolDescriptor \<Rightarrow> ('e, ToolOutput option) prog" where
  "gateCall l c cls =
     bindP getP (\<lambda>st.
     bindP (orFail ErrHook (callP (dpHook (lpDeps l) (preToolInput st c)) (HookCall (preToolInput st c)))) (\<lambda>hookDec.
     if \<not> hdAllow hookDec
     then seqP (decide l c PermissionDeny AskUnresolved '''' reasonHookBlocked)
            (retP (Some (deniedResult c (''blocked by hook: '' @ hdReason hookDec))))
     else
       let inp = policyInput l st c cls in
       bindP (orFail ErrPolicy (callP (dpEvaluate (lpDeps l) inp) (EvaluateCall inp))) (\<lambda>pres.
       case resDecision pres of
         Deny \<Rightarrow> seqP (decide l c PermissionDeny AskUnresolved (resRuleID pres) (resReason pres))
                   (retP (Some (deniedResult c (''denied: '' @ resReason pres))))
       | Allow \<Rightarrow> seqP (decide l c PermissionAllow AskUnresolved (resRuleID pres) (resReason pres)) (retP None)
       | Ask \<Rightarrow> askHuman l c pres)))"

section \<open>A batch of calls\<close>

definition toolCallsOf :: "Message \<Rightarrow> ToolCall list" where
  "toolCallsOf m = concat (map (\<lambda>p. case p of ToolCallPart c \<Rightarrow> [c] | _ \<Rightarrow> []) (mContent m))"

definition callSignature :: "(json \<Rightarrow> string) \<Rightarrow> ToolCall \<Rightarrow> string" where
  "callSignature fmt c = tcName c @ ''('' @
     concat (map (\<lambda>k. k @ ''='' @ fmt (the (map_of (tcArgs c) k)) @ '';'') (sort (remdups (map fst (tcArgs c))))) @ '')|''"

definition toolBatchSignature :: "(json \<Rightarrow> string) \<Rightarrow> ToolCall list \<Rightarrow> string" where
  "toolBatchSignature fmt calls = concat (map (callSignature fmt) calls)"

definition detectDoomLoop :: "'e Loop \<Rightarrow> ToolCall list \<Rightarrow> ('e, bool) prog" where
  "detectDoomLoop l calls =
     (if lcDoomLoopThreshold (lpCfg l) < 0 then retP False
      else let sig = toolBatchSignature (dpFormatAny (lpDeps l)) calls in
        seqP (setP (\<lambda>st. if sig = rsLastToolSig st then st\<lparr>rsRepeatCount := rsRepeatCount st + 1\<rparr>
                        else st\<lparr>rsLastToolSig := sig, rsRepeatCount := 1\<rparr>))
        (bindP getP (\<lambda>st.
         if lcDoomLoopThreshold (lpCfg l) \<le> rsRepeatCount st
         then seqP (noteP (map (\<lambda>c. DoomLoopMetric (tcName c)) calls)) (retP True)
         else retP False)))"

definition classTable :: "string + ToolDescriptor list \<Rightarrow> string \<rightharpoonup> ToolDescriptor" where
  "classTable r = (case r of Inl _ \<Rightarrow> Map.empty | Inr descs \<Rightarrow> map_of (rev (map (\<lambda>d. (dsName d, d)) descs)))"

definition listTools :: "'e Loop \<Rightarrow> ('e, string + ToolDescriptor list) prog" where
  "listTools l = bindP getP (\<lambda>st.
     callP (dpListTools (lpDeps l) (rsSessionID st)) (ListToolsCall (rsSessionID st)))"

definition toolClasses :: "'e Loop \<Rightarrow> ('e, string \<rightharpoonup> ToolDescriptor) prog" where
  "toolClasses l = bindP (listTools l) (\<lambda>r. retP (classTable r))"

definition runsParallel :: "ToolDescriptor \<Rightarrow> bool" where
  "runsParallel cls \<longleftrightarrow> dsSideEffect cls = SideEffectReadOnly \<and> dsEgressClass cls \<noteq> EgressClassExternal"

text \<open>Gate every call in the order emitted; a call let through gets its durable intent.\<close>

fun gateCalls :: "'e Loop \<Rightarrow> (string \<rightharpoonup> ToolDescriptor) \<Rightarrow> ToolCall list \<Rightarrow> scheduledExec list \<Rightarrow>
    (string \<rightharpoonup> ToolOutput) \<Rightarrow> ('e, scheduledExec list \<times> (string \<rightharpoonup> ToolOutput)) prog" where
  "gateCalls l classes [] todo results = retP (todo, results)"
| "gateCalls l classes (c # cs) todo results =
     (let cls = (case classes (tcName c) of None \<Rightarrow> zeroDescriptor | Some x \<Rightarrow> x) in
      bindP (gateCall l c cls) (\<lambda>denied. case denied of
        Some obs \<Rightarrow> gateCalls l classes cs todo (results(tcID c \<mapsto> obs))
      | None \<Rightarrow>
          bindP getP (\<lambda>st.
          let key = deriveIdempotencyKey (dpSha (lpDeps l)) (rsSessionID st) (rsLastAssistantSeq st) in
          seqP (appendEv l ActorSystem (ToolExecutionStarted (tcID c) (tcName c) key))
          (gateCalls l classes cs
             (todo @ [\<lparr>seCall = c, seIdemKey = key, seParallel = runsParallel cls\<rparr>]) results))))"

definition resultPart :: "ToolCall \<Rightarrow> ToolOutput \<Rightarrow> ContentPart" where
  "resultPart c r = ToolResultPart (tcID c) (toContent r) (toIsError r)"

definition outputOf :: "(string \<rightharpoonup> ToolOutput) \<Rightarrow> ToolCall \<Rightarrow> ToolOutput" where
  "outputOf results c = (case results (tcID c) of None \<Rightarrow> zeroOutput | Some r \<Rightarrow> r)"

definition resultEvent :: "ToolCall \<Rightarrow> ToolOutput \<Rightarrow> event" where
  "resultEvent c r = ToolResult (tcID c) (toContent r) (toIsError r) (toTruncated r) (toBlobRef r)"

fun appendResults :: "'e Loop \<Rightarrow> (string \<rightharpoonup> ToolOutput) \<Rightarrow> (string \<rightharpoonup> event) \<Rightarrow> ToolCall list \<Rightarrow> ('e, unit) prog" where
  "appendResults l results plans [] = retP ()"
| "appendResults l results plans (c # cs) =
     seqP (case plans (tcID c) of None \<Rightarrow> retP () | Some pu \<Rightarrow> appendEv l ActorAssistant pu)
     (seqP (appendEv l ActorTool (resultEvent c (outputOf results c)))
     (appendResults l results plans cs))"

definition toolMessage :: "(string \<rightharpoonup> ToolOutput) \<Rightarrow> ToolCall list \<Rightarrow> Message" where
  "toolMessage results calls = \<lparr>mRole = RoleTool, mContent = map (\<lambda>c. resultPart c (outputOf results c)) calls\<rparr>"

datatype turnOutcome = turnTerminal TerminationReason | turnContinue | turnAborted TerminationReason

definition handleToolCalls :: "'e Loop \<Rightarrow> Message \<Rightarrow> ('e, turnOutcome) prog" where
  "handleToolCalls l msg =
     (let calls = toolCallsOf msg in
      if calls = [] then retP (turnTerminal Success)
      else bindP (detectDoomLoop l calls) (\<lambda>doomed.
        if doomed then retP (turnTerminal ErrorDoomLoop)
        else bindP (toolClasses l) (\<lambda>base.
          bindP (gateCalls l (mergeVirtualClasses base) calls [] Map.empty) (\<lambda>(todo, denied).
          bindP (dispatch l todo) (\<lambda>(dispatched, plans).
          let results = denied ++ dispatched in
          seqP (appendResults l results plans calls)
          (seqP (appendEv l ActorTool (MessageAppended (toolMessage results calls)))
          (retP turnContinue)))))))"

section \<open>One turn\<close>

definition maxPauseContinuations :: nat where "maxPauseContinuations = 16"

text \<open>What the forwarding reader sends to the client while the assembler consumes the stream.\<close>

definition forwarded :: "string \<Rightarrow> string \<Rightarrow> recv list \<Rightarrow> act list" where
  "forwarded sid turnID reader = concat (map (\<lambda>ev. case ev of
       TextDelta s \<Rightarrow> [TextOut sid turnID s]
     | ThinkingDelta s _ \<Rightarrow> if s \<noteq> '''' then [ThinkingOut sid turnID s] else []
     | _ \<Rightarrow> []) (received reader))"

definition doneUsage :: "Assembled \<Rightarrow> Usage" where
  "doneUsage a = (case arDone a of None \<Rightarrow> zeroUsage | Some d \<Rightarrow> dUsage d)"

definition doneRaw :: "Assembled \<Rightarrow> bytes option" where
  "doneRaw a = (case arDone a of None \<Rightarrow> None | Some d \<Rightarrow> dProviderRaw d)"

text \<open>The loop over pauses, with the number of attempts left; a failure carries the usage seen.\<close>

primrec streamWithContinuations ::
  "nat \<Rightarrow> 'e Loop \<Rightarrow> string \<Rightarrow> ModelRequest \<Rightarrow> ('e, (Usage \<times> agent_error) + Assembled) prog" where
  "streamWithContinuations 0 l turnID req = retP (Inl (zeroUsage, ErrPauseExhausted))"
| "streamWithContinuations (Suc n) l turnID req =
     bindP (callP (dpStream (lpDeps l) req) (StreamCall req)) (\<lambda>r. case r of
       Inl e \<Rightarrow> retP (Inl (zeroUsage, ErrStream e))
     | Inr reader \<Rightarrow>
         bindP getP (\<lambda>st.
         seqP (noteP (forwarded (rsSessionID st) turnID reader))
         (case Assemble (dpJSON (lpDeps l)) reader of
            (a, Some e) \<Rightarrow> retP (Inl (doneUsage a, ErrAssemble e))
          | (a, None) \<Rightarrow>
              if arOutcome a \<noteq> OutcomeNeedsContinuation then retP (Inr a)
              else streamWithContinuations n l turnID (req\<lparr>lrProviderRaw := doneRaw a\<rparr>))))"

definition concatText :: "Message \<Rightarrow> string" where
  "concatText m = concat (map (\<lambda>p. case p of TextPart s \<Rightarrow> s | _ \<Rightarrow> []) (mContent m))"

definition validateStructured :: "(bytes \<Rightarrow> bool) \<Rightarrow> Message \<Rightarrow> bool" where
  "validateStructured valid msg = (let text = concatText msg in text \<noteq> '''' \<and> valid text)"

definition structuredRetryMessage :: Message where
  "structuredRetryMessage = userText
     ''Your previous response did not match the required JSON schema. Respond again with valid JSON that conforms to the schema.''"

definition compileOutputSchema :: "'e Loop \<Rightarrow> string + (bytes \<Rightarrow> bool) option" where
  "compileOutputSchema l =
     (if lcOutputSchema (lpCfg l) = [] then Inr None
      else case dpCompileSchema (lpDeps l) (lcOutputSchema (lpCfg l)) of Inl e \<Rightarrow> Inl e | Inr v \<Rightarrow> Inr (Some v))"

definition classifyFinal :: "'e Loop \<Rightarrow> Assembled \<Rightarrow> ('e, turnOutcome) prog" where
  "classifyFinal l res =
     (if map_option dStopReason (arDone res) = Some StopRefusal then retP (turnTerminal Refusal)
      else case compileOutputSchema l of
        Inl e \<Rightarrow> failP (ErrCompileSchema e)
      | Inr None \<Rightarrow> retP (turnTerminal Success)
      | Inr (Some valid) \<Rightarrow>
          if validateStructured valid (arMessage res) then retP (turnTerminal Success)
          else bindP getP (\<lambda>st.
            let limit = (if lcMaxStructuredOutputRetries (lpCfg l) \<le> 0 then DefaultStructuredOutputRetries
                         else lcMaxStructuredOutputRetries (lpCfg l)) in
            if limit \<le> rsStructuredRetries st then retP (turnTerminal ErrorMaxStructuredOutputRetries)
            else seqP (setP (\<lambda>st. st\<lparr>rsStructuredRetries := rsStructuredRetries st + 1\<rparr>))
              (seqP (appendEv l ActorSystem (MessageAppended structuredRetryMessage))
              (retP turnContinue))))"

definition loadEvents :: "'e Loop \<Rightarrow> (string \<Rightarrow> agent_error) \<Rightarrow> ('e, EventEnvelope list) prog" where
  "loadEvents l wrap = bindP getP (\<lambda>st.
     orFail wrap (callP (dpLoad (lpDeps l) (rsSessionID st) 0) (LoadCall (rsSessionID st) 0)))"

definition maybeCompact :: "'e Loop \<Rightarrow> 'e Manager \<Rightarrow> EventEnvelope list \<Rightarrow> ('e, EventEnvelope list) prog" where
  "maybeCompact l mgr events =
     bindP (askP (PlanCompaction mgr events)) (\<lambda>p. case p of
       Inl _ \<Rightarrow> retP events
     | Inr plan \<Rightarrow>
         (case (cpShouldCompact plan, cpEvent plan) of
            (True, Some ev) \<Rightarrow>
              bindP getP (\<lambda>st.
              let hi = \<lparr>hiEvent = HookPreCompact, hiSessionID = rsSessionID st, hiTurnID = rsCurrentTurnID st,
                        hiCallID = '''', hiToolName = '''', hiToolArgs = [], hiToolResult = ''''\<rparr> in
              bindP (callP (dpHook (lpDeps l) hi) (HookCall hi)) (\<lambda>dec. case dec of
                Inl _ \<Rightarrow> retP events
              | Inr d \<Rightarrow>
                  if \<not> hdAllow d then retP events
                  else seqP (appendEv l ActorSystem ev) (loadEvents l ErrReload)))
          | _ \<Rightarrow> retP events))"

definition toolDefsFromRuntime :: "'e Loop \<Rightarrow> ('e, ToolDef list) prog" where
  "toolDefsFromRuntime l = bindP (listTools l) (\<lambda>r. retP (case r of
       Inl _ \<Rightarrow> []
     | Inr descs \<Rightarrow> map (\<lambda>d. \<lparr>dfName = dsName d, dfDescription = dsDescription d, dfSchema = dsSchema d\<rparr>) descs))"

definition buildRequest :: "'e Loop \<Rightarrow> ('e, ModelRequest) prog" where
  "buildRequest l =
     bindP (loadEvents l ErrLoadWindow) (\<lambda>events0.
     bindP (case dpContext (lpDeps l) of None \<Rightarrow> retP events0 | Some mgr \<Rightarrow> maybeCompact l mgr events0) (\<lambda>events.
     let win = BuildWindow events noOptions in
     bindP (if lcToolDefs (lpCfg l) = [] then toolDefsFromRuntime l else retP (lcToolDefs (lpCfg l))) (\<lambda>tools.
     retP \<lparr>lrModel = lcModel (lpCfg l), lrSystem = wSystem win, lrMessages = wMessages win,
           lrTools = tools @ virtualToolDefs (dpMaxDepth (lpDeps l)) (lcDepth (lpCfg l)), lrStream = True,
           lrProviderRaw = None, lrOutputSchema = lcOutputSchema (lpCfg l), lrStrict = lcStrict (lpCfg l)\<rparr>)))"

definition abortTurn :: "'e Loop \<Rightarrow> string \<Rightarrow> Usage \<Rightarrow> cost \<Rightarrow> ('e, unit) prog" where
  "abortTurn l turnID u c = appendEv l ActorSystem (TurnAborted turnID ErrorDuringExecution u c)"

text \<open>From the assembled message on: price it, record it, and branch on its outcome.\<close>

definition recordTurn :: "'e Loop \<Rightarrow> string \<Rightarrow> Assembled \<Rightarrow> ('e, turnOutcome) prog" where
  "recordTurn l turnID a =
     (case priceTurnUsage l (doneUsage a) of
        Inl _ \<Rightarrow>
          seqP (abortTurn l turnID (doneUsage a) 0)
          (seqP (setP (addSpent (doneUsage a) 0))
          (seqP (noteP [RunErrorMetric ErrorDuringExecution])
          (retP (turnAborted ErrorDuringExecution))))
      | Inr c \<Rightarrow>
          (case arDone a of
             None \<Rightarrow> retP (turnAborted ErrorDuringExecution)
           | Some d \<Rightarrow>
               seqP (setP (addSpent (doneUsage a) c))
               (seqP (appendEv l ActorAssistant (AssistantMessage turnID (arMessage a) (dStopReason d) (dRawStopReason d)
                        (dUsage d) c (dProviderRaw d)))
               (seqP (setP (\<lambda>st. st\<lparr>rsLastAssistantSeq := rsHeadSeq st\<rparr>))
               (case arOutcome a of
                  OutcomeNeedsToolExecution \<Rightarrow> handleToolCalls l (arMessage a)
                | OutcomeFinal \<Rightarrow> classifyFinal l a
                | OutcomeNeedsContinuation \<Rightarrow>
                    seqP (abortTurn l turnID (doneUsage a) 0)
                    (seqP (noteP [RunErrorMetric ErrorDuringExecution])
                    (retP (turnAborted ErrorDuringExecution))))))))"

definition countTurn :: "string \<Rightarrow> runState \<Rightarrow> runState" where
  "countTurn turnID st = st\<lparr>rsCurrentTurnID := turnID, rsNumTurns := rsNumTurns st + 1\<rparr>"

definition afterStream :: "'e Loop \<Rightarrow> string \<Rightarrow> (Usage \<times> agent_error) + Assembled \<Rightarrow> ('e, turnOutcome) prog" where
  "afterStream l turnID res = (case res of
       Inl (u, _) \<Rightarrow>
         seqP (abortTurn l turnID u (computeCost l u))
         (seqP (setP (addSpent u (computeCost l u)))
         (seqP (noteP [RunErrorMetric ErrorDuringExecution])
         (retP (turnAborted ErrorDuringExecution))))
     | Inr a \<Rightarrow> recordTurn l turnID a)"

text \<open>The part of a turn after it has counted itself.\<close>

definition turnBody :: "'e Loop \<Rightarrow> string \<Rightarrow> ModelRequest \<Rightarrow> ('e, turnOutcome) prog" where
  "turnBody l turnID req =
     seqP (appendEv l ActorSystem (TurnStarted turnID (lcModel (lpCfg l))))
       (bindP (streamWithContinuations maxPauseContinuations l turnID req) (afterStream l turnID))"

definition runTurn :: "'e Loop \<Rightarrow> ('e, turnOutcome) prog" where
  "runTurn l =
     bindP (askP (dpCtxErr (lpDeps l))) (\<lambda>cancelled.
     if cancelled then retP (turnAborted ErrorDuringExecution)
     else
       bindP (buildRequest l) (\<lambda>req.
       bindP (askP (dpNewID (lpDeps l))) (\<lambda>turnID.
       seqP (setP (countTurn turnID)) (turnBody l turnID req))))"

section \<open>Resuming\<close>

fun assistantSeqOf :: "EventEnvelope list \<Rightarrow> string \<Rightarrow> int" where
  "assistantSeqOf [] turnID = 0"
| "assistantSeqOf (env # events) turnID =
     (case envEvent env of
        AssistantMessage t _ _ _ _ _ _ \<Rightarrow> if t = turnID then envSeq env else assistantSeqOf events turnID
      | _ \<Rightarrow> assistantSeqOf events turnID)"

definition sideEffectLookup :: "string + ToolDescriptor list \<Rightarrow> SideEffectLookup" where
  "sideEffectLookup r = (case r of
       Inl _ \<Rightarrow> None
     | Inr _ \<Rightarrow> Some (\<lambda>name. case classTable r name of Some d \<Rightarrow> dsSideEffect d | None \<Rightarrow> SideEffectMutating))"

definition feedToolResult :: "'e Loop \<Rightarrow> ToolCall \<Rightarrow> ToolOutput \<Rightarrow> ('e, unit) prog" where
  "feedToolResult l c r =
     seqP (appendEv l ActorTool (resultEvent c r))
     (appendEv l ActorTool (MessageAppended \<lparr>mRole = RoleTool, mContent = [resultPart c r]\<rparr>))"

definition abandonSuspendedApproval :: "'e Loop \<Rightarrow> SuspendedApproval \<Rightarrow> ('e, unit) prog" where
  "abandonSuspendedApproval l sa =
     seqP (appendEv l ActorSystem
       (PermissionDecided (saCallID sa) (saToolName sa) PermissionAsk AskDenied '''' reasonSuspendedApprovalAbandoned))
     (seqP (appendEv l ActorSystem (TurnAborted (saTurnID sa) ErrorDuringExecution zeroUsage 0))
     (noteP [RunErrorMetric ErrorDuringExecution]))"

text \<open>The human has answered: record it, then feed back the denial or execute the call.\<close>

definition resumeResolved :: "'e Loop \<Rightarrow> SuspendedApproval \<Rightarrow> int \<Rightarrow> AskResolution \<Rightarrow> ('e, unit) prog" where
  "resumeResolved l sa assistantSeq resolution =
     (let c = \<lparr>tcID = saCallID sa, tcName = saToolName sa, tcArgs = saArgs sa\<rparr> in
      seqP (decide l c PermissionAsk resolution '''' (saReason sa))
      (if resolution \<noteq> AskAllowed then feedToolResult l c (deniedResult c ''denied by human approval'')
       else bindP getP (\<lambda>st.
         let key = deriveIdempotencyKey (dpSha (lpDeps l)) (rsSessionID st) assistantSeq in
         seqP (appendEv l ActorSystem (ToolExecutionStarted (saCallID sa) (saToolName sa) key))
         (bindP (execOne l False \<lparr>seCall = c, seIdemKey = key, seParallel = False\<rparr>) (\<lambda>(res, _).
          feedToolResult l c res)))))"

text \<open>True when the approval was abandoned and the run is over.\<close>

definition resumeSuspendedApproval :: "'e Loop \<Rightarrow> SuspendedApproval \<Rightarrow> int \<Rightarrow> ('e, bool) prog" where
  "resumeSuspendedApproval l sa assistantSeq =
     seqP (setP (\<lambda>st. st\<lparr>rsCurrentTurnID := saTurnID sa, rsLastAssistantSeq := assistantSeq\<rparr>))
     (bindP getP (\<lambda>st.
      let req = \<lparr>apSessionID = rsSessionID st, apCallID = saCallID sa, apToolName = saToolName sa,
                 apReason = saReason sa, apArgs = saArgs sa\<rparr>;
          deadline = Some (lcResumeApprovalTimeout (lpCfg l)) in
      bindP (callP (dpApproval (lpDeps l) deadline req) (ApprovalCall req deadline)) (\<lambda>r. case r of
        Inl e \<Rightarrow>
          bindP (askP (dpCtxErr (lpDeps l))) (\<lambda>cancelled.
          if cancelled then failP (ErrReraise e)
          else seqP (abandonSuspendedApproval l sa) (retP True))
      | Inr resolution \<Rightarrow> seqP (resumeResolved l sa assistantSeq resolution) (retP False))))"

fun resumeApprovals :: "'e Loop \<Rightarrow> EventEnvelope list \<Rightarrow> SuspendedApproval list \<Rightarrow> ('e, bool) prog" where
  "resumeApprovals l events [] = retP False"
| "resumeApprovals l events (sa # sas) =
     bindP (resumeSuspendedApproval l sa (assistantSeqOf events (saTurnID sa))) (\<lambda>abandoned.
     if abandoned then retP True else resumeApprovals l events sas)"

fun closeOpenTurns :: "'e Loop \<Rightarrow> OpenTurn list \<Rightarrow> ('e, unit) prog" where
  "closeOpenTurns l [] = retP ()"
| "closeOpenTurns l (ot # ots) =
     (let c = computeCost l (otRecoveredUsage ot) in
      seqP (setP (addSpent (otRecoveredUsage ot) c))
      (seqP (abortTurn l (otTurnID ot) (otRecoveredUsage ot) c)
      (closeOpenTurns l ots)))"

text \<open>The answer is the result of a run that ended here, if it did.\<close>

definition adjudicateResume :: "'e Loop \<Rightarrow> ('e, RunResult option) prog" where
  "adjudicateResume l =
     bindP (loadEvents l ErrLoadRecovery) (\<lambda>events.
     if events = [] then retP None
     else
       bindP (listTools l) (\<lambda>descs.
       let plan = Analyze events (sideEffectLookup descs) in
       bindP (resumeApprovals l events (SuspendedApprovals plan)) (\<lambda>abandoned.
       if abandoned then bindP getP (\<lambda>st. retP (Some (resultOf st ErrorDuringExecution)))
       else seqP (closeOpenTurns l (OpenTurns plan)) (retP None))))"

end
