(* ===== verification/AgentRun.thy ===== *)
theory AgentRun
  imports AgentLoop
begin

text \<open>
  What the functions of the agent loop write, and the run. \<open>calmStep\<close> is the common frame of every
  function below a turn: the identity of the run and its number of turns stay, and the calls added are
  well-typed appends or reads, never a model call. The run's loop has no bound of its own; it is
  accepted because every turn that asks for another one has counted itself.
\<close>

section \<open>Well-typed appends\<close>

definition isResultPart :: "ContentPart \<Rightarrow> bool" where
  "isResultPart p = (case p of ToolResultPart _ _ _ \<Rightarrow> True | _ \<Rightarrow> False)"

definition wfMessage :: "Actor \<Rightarrow> Message \<Rightarrow> bool" where
  "wfMessage actor msg \<longleftrightarrow>
     actor = ActorTool \<and> mRole msg = RoleTool \<and> mContent msg \<noteq> [] \<and> list_all isResultPart (mContent msg)
   \<or> actor = ActorSystem \<and> msg = structuredRetryMessage
   \<or> actor = ActorUser \<and> mContent msg \<noteq> []"

definition wfAppend :: "Actor \<Rightarrow> event \<Rightarrow> bool" where
  "wfAppend actor ev = (case ev of
       MessageAppended msg \<Rightarrow> wfMessage actor msg
     | AssistantMessage _ msg stop _ _ _ _ \<Rightarrow> actor = ActorAssistant \<and> mRole msg = RoleAssistant \<and> IsTerminal stop
     | PlanUpdated _ items \<Rightarrow> actor = ActorAssistant \<and> list_all wfPlanItem items
     | ToolResult _ _ _ _ _ \<Rightarrow> actor = ActorTool
     | PermissionDecided _ _ dec resolved _ _ \<Rightarrow> actor = ActorSystem \<and> (dec = PermissionAsk \<or> resolved = AskUnresolved)
     | TurnAborted _ reason _ _ \<Rightarrow> actor = ActorSystem \<and> reason = ErrorDuringExecution
     | TurnStarted _ _ \<Rightarrow> actor = ActorSystem
     | TurnFinished _ _ _ _ _ \<Rightarrow> actor = ActorSystem
     | ToolExecutionStarted _ _ _ \<Rightarrow> actor = ActorSystem
     | ApprovalRequested _ _ _ _ _ \<Rightarrow> actor = ActorSystem
     | CompactionPerformed _ _ _ \<Rightarrow> actor = ActorSystem
     | _ \<Rightarrow> False)"

definition wfAct :: "act \<Rightarrow> bool" where
  "wfAct x = (case x of AppendCall _ _ _ _ inp _ \<Rightarrow> wfAppend (aiActor inp) (aiEvent inp) | _ \<Rightarrow> True)"

definition isStream :: "act \<Rightarrow> bool" where
  "isStream x = (case x of StreamCall _ _ \<Rightarrow> True | _ \<Rightarrow> False)"

definition streams :: "act list \<Rightarrow> nat" where
  "streams tr = length (filter isStream tr)"

text \<open>What the log says a run spent: the usage and the cost of every event the store accepted.\<close>

definition eventUsage :: "event \<Rightarrow> Usage" where
  "eventUsage ev = (case ev of AssistantMessage _ _ _ _ u _ _ \<Rightarrow> u | TurnAborted _ _ u _ \<Rightarrow> u | _ \<Rightarrow> zeroUsage)"

definition eventCost :: "event \<Rightarrow> cost" where
  "eventCost ev = (case ev of AssistantMessage _ _ _ _ _ c _ \<Rightarrow> c | TurnAborted _ _ _ c \<Rightarrow> c | _ \<Rightarrow> 0)"

definition actUsage :: "act \<Rightarrow> Usage" where
  "actUsage x = (case x of AppendCall _ _ _ _ inp (Inr _) \<Rightarrow> eventUsage (aiEvent inp) | _ \<Rightarrow> zeroUsage)"

definition actCost :: "act \<Rightarrow> cost" where
  "actCost x = (case x of AppendCall _ _ _ _ inp (Inr _) \<Rightarrow> eventCost (aiEvent inp) | _ \<Rightarrow> 0)"

definition spentUsage :: "act list \<Rightarrow> Usage" where
  "spentUsage tr = foldr addUsage (map actUsage tr) zeroUsage"

definition spentCost :: "act list \<Rightarrow> cost" where
  "spentCost tr = sum_list (map actCost tr)"

definition calmAppend :: "Actor \<Rightarrow> event \<Rightarrow> bool" where
  "calmAppend actor ev \<longleftrightarrow> wfAppend actor ev \<and> eventUsage ev = zeroUsage \<and> eventCost ev = 0"

definition calmAct :: "act \<Rightarrow> bool" where
  "calmAct x \<longleftrightarrow> wfAct x \<and> \<not> isStream x \<and> actUsage x = zeroUsage \<and> actCost x = 0"

section \<open>The frame\<close>

definition sameRun :: "runState \<Rightarrow> runState \<Rightarrow> bool" where
  "sameRun s t \<longleftrightarrow> rsSessionID t = rsSessionID s \<and> rsLeaseEpoch t = rsLeaseEpoch s \<and> rsTainted t = rsTainted s"

definition sameCounts :: "runState \<Rightarrow> runState \<Rightarrow> bool" where
  "sameCounts s t \<longleftrightarrow> rsNumTurns t = rsNumTurns s \<and> rsUsage t = rsUsage s \<and> rsCost t = rsCost s"

definition calmStep :: "'e machine \<Rightarrow> 'e machine \<Rightarrow> bool" where
  "calmStep m m' \<longleftrightarrow> sameRun (mcRun m) (mcRun m') \<and> sameCounts (mcRun m) (mcRun m') \<and>
     (\<exists>t. mcTrace m' = mcTrace m @ t \<and> list_all calmAct t)"

lemma streams_simps [simp]: "streams [] = 0" "streams (xs @ ys) = streams xs + streams ys"
  "streams [x] = (if isStream x then 1 else 0)"
  by (simp_all add: streams_def)

lemma spent_simps [simp]:
  "spentUsage [] = zeroUsage" "spentUsage (x # xs) = addUsage (actUsage x) (spentUsage xs)"
  "spentCost [] = 0" "spentCost (xs @ ys) = spentCost xs + spentCost ys" "spentCost (x # xs) = actCost x + spentCost xs"
  by (simp_all add: spentUsage_def spentCost_def)

lemma spentUsage_append [simp]: "spentUsage (xs @ ys) = addUsage (spentUsage xs) (spentUsage ys)"
  by (induction xs) (simp_all add: addUsage_assoc)

lemma calm_free: "list_all calmAct t \<Longrightarrow> streams t = 0 \<and> spentUsage t = zeroUsage \<and> spentCost t = 0 \<and> list_all wfAct t"
  by (induction t) (auto simp: calmAct_def streams_def)

lemma preorder_calmStep [simp]: "preorder calmStep"
  unfolding preorder_def
proof (intro conjI allI impI)
  fix x y z :: "'e machine"
  show "calmStep x x" by (simp add: calmStep_def sameRun_def sameCounts_def)
  assume "calmStep x y" "calmStep y z"
  then obtain s t where "mcTrace y = mcTrace x @ s" "list_all calmAct s" "mcTrace z = mcTrace y @ t" "list_all calmAct t"
    "sameRun (mcRun x) (mcRun y)" "sameRun (mcRun y) (mcRun z)" "sameCounts (mcRun x) (mcRun y)" "sameCounts (mcRun y) (mcRun z)"
    unfolding calmStep_def by blast
  then show "calmStep x z"
    by (auto simp: calmStep_def sameRun_def sameCounts_def intro!: exI [of _ "s @ t"])
qed

lemma calm_env [simp]: "calmStep m (m\<lparr>mcEnv := e\<rparr>)"
  by (simp add: calmStep_def sameRun_def sameCounts_def)

lemma calm_act: "calmAct x \<Longrightarrow> calmStep m (m\<lparr>mcEnv := e, mcTrace := mcTrace m @ [x]\<rparr>)"
  by (auto simp: calmStep_def sameRun_def sameCounts_def intro!: exI [of _ "[x]"])

lemma calm_acts: "list_all calmAct xs \<Longrightarrow> calmStep m (m\<lparr>mcTrace := mcTrace m @ xs\<rparr>)"
  by (auto simp: calmStep_def sameRun_def sameCounts_def)

lemma calm_run:
  "sameRun (mcRun m) (f (mcRun m)) \<Longrightarrow> sameCounts (mcRun m) (f (mcRun m)) \<Longrightarrow> calmStep m (m\<lparr>mcRun := f (mcRun m)\<rparr>)"
  by (auto simp: calmStep_def)

lemma calm_ask [staysI]: "stays calmStep (askP f)"
  by (intro stays_ask calm_env)

lemmas calm_defs = calmAct_def wfAct_def isStream_def actUsage_def actCost_def sameRun_def sameCounts_def

lemmas event_defs = calmAppend_def wfAppend_def eventUsage_def eventCost_def

lemma calm_append [staysI]: "calmAppend actor ev \<Longrightarrow> stays calmStep (appendEv l actor ev)"
  unfolding appendEv_def
  by (intro staysI preorder_calmStep calm_env calm_act calm_run) (auto simp: calm_defs calmAppend_def split: sum.splits)

lemma calm_finishTurn [staysI]: "stays calmStep (finishTurn l turnID reason)"
  unfolding finishTurn_def
  by (intro staysI preorder_calmStep calm_acts) (auto simp: calm_defs event_defs)

lemma calm_finish [staysI]: "stays calmStep (finish l reason)"
  unfolding finish_def by (intro staysI preorder_calmStep)

lemma calm_terminate [staysI]: "stays calmStep (terminate l reason)"
  unfolding terminate_def
  by (intro staysI preorder_calmStep calm_env) (auto simp: event_defs)

lemma calm_execVirtual [staysI]: "stays calmStep (execVirtual l cancelled c)"
  unfolding execVirtual_def
  by (intro staysI preorder_calmStep calm_act) (auto simp: calm_defs)

lemma calm_execOne [staysI]: "stays calmStep (execOne l cancelled e)"
  unfolding execOne_def
  by (intro staysI preorder_calmStep calm_act) (auto simp: calm_defs)

lemma calm_runWorker [staysI]: "stays calmStep (runWorker l e d)"
  unfolding runWorker_def by (intro staysI preorder_calmStep)

lemma calm_dispatchLoop [staysI]: "stays calmStep (dispatchLoop l limit todo pool d)"
proof (induction "2 * length todo + length pool" arbitrary: todo pool d rule: less_induct)
  case less
  have pool: "2 * length todo + length (removeNth (n mod length pool) pool) < 2 * length todo + length pool"
    if "pool \<noteq> []" for n
    using that by (simp add: length_removeNth)
  show ?case
    by (subst dispatchLoop.simps)
      (intro staysI preorder_calmStep calm_env less; use pool in \<open>auto simp: neq_Nil_conv\<close>)
qed

lemma calm_dispatch [staysI]: "stays calmStep (dispatch l execs)"
  unfolding dispatch_def by (intro staysI preorder_calmStep)

lemma calm_decide [staysI]:
  "dec = PermissionAsk \<or> resolved = AskUnresolved \<Longrightarrow> stays calmStep (decide l c dec resolved rule reason)"
  unfolding decide_def by (intro staysI) (simp_all add: event_defs)

lemma calm_askHuman [staysI]: "stays calmStep (askHuman l c pres)"
  unfolding askHuman_def
  by (intro staysI preorder_calmStep calm_act) (auto simp: calm_defs event_defs)

lemma stays_case_Decision [staysI]:
  "(x = Allow \<Longrightarrow> stays R p) \<Longrightarrow> (x = Deny \<Longrightarrow> stays R q) \<Longrightarrow> (x = Ask \<Longrightarrow> stays R r) \<Longrightarrow>
   stays R (case x of Allow \<Rightarrow> p | Deny \<Rightarrow> q | Ask \<Rightarrow> r)"
  by (cases x) auto

lemma calm_gateCall [staysI]: "stays calmStep (gateCall l c cls)"
  unfolding gateCall_def
  by (intro staysI preorder_calmStep calm_act) (auto simp: calm_defs)

lemma calm_detectDoomLoop [staysI]: "stays calmStep (detectDoomLoop l calls)"
  unfolding detectDoomLoop_def
  by (intro staysI preorder_calmStep calm_run calm_acts)
    (auto simp: calm_defs streams_def list_all_iff filter_empty_conv)

lemma calm_listTools [staysI]: "stays calmStep (listTools l)"
  unfolding listTools_def by (intro staysI preorder_calmStep calm_act) (auto simp: calm_defs)

lemma calm_toolClasses [staysI]: "stays calmStep (toolClasses l)"
  unfolding toolClasses_def by (intro staysI preorder_calmStep)

lemma calm_gateCalls [staysI]: "stays calmStep (gateCalls l classes calls todo results)"
proof (induction calls arbitrary: todo results)
  case (Cons c cs)
  then show ?case
    by (simp only: gateCalls.simps) (intro staysI preorder_calmStep Cons; simp add: event_defs)
qed (simp add: staysI)

section \<open>Plans returned by the dispatcher\<close>

definition wfPlan :: "event option \<Rightarrow> bool" where
  "wfPlan pu = (case pu of None \<Rightarrow> True | Some ev \<Rightarrow> (\<exists>t items. ev = PlanUpdated t items \<and> list_all wfPlanItem items))"

lemma wfPlan_append: "wfPlan (Some ev) \<Longrightarrow> calmAppend ActorAssistant ev"
  by (auto simp: wfPlan_def event_defs)

lemma execVirtual_plan: "yields (\<lambda>(r, pu). wfPlan pu) (execVirtual l cancelled c)"
  unfolding execVirtual_def
  by (intro yieldsI) (auto simp: wfPlan_def dest: parsePlanItems_wf)

lemma execOne_plan: "yields (\<lambda>(r, pu). wfPlan pu) (execOne l cancelled e)"
  unfolding execOne_def
  by (intro yieldsI execVirtual_plan) (auto simp: wfPlan_def)

definition wfPlans :: "dispatchState \<Rightarrow> bool" where
  "wfPlans d \<longleftrightarrow> (\<forall>cid. wfPlan (dsPlans d cid))"

lemma recordExec_plan [simp]: "wfPlans d \<Longrightarrow> wfPlan pu \<Longrightarrow> wfPlans (recordExec cid (res, pu) d)"
  by (auto simp: wfPlans_def recordExec_def wfPlan_def split: prod.splits option.splits)

lemma wfPlans_err [simp]:
  "wfPlans (d\<lparr>dsSerialErr := x\<rparr>) = wfPlans d" "wfPlans (d\<lparr>dsGroupErr := y\<rparr>) = wfPlans d"
  by (simp_all add: wfPlans_def)

lemma runWorker_plan: "wfPlans d \<Longrightarrow> yields wfPlans (runWorker l e d)"
  unfolding runWorker_def
  by (rule yields_bind [OF yields_try [OF execOne_plan]], rule yieldsI)
    (auto split: sum.splits)

lemma dispatchLoop_plan: "wfPlans d \<Longrightarrow> yields wfPlans (dispatchLoop l limit todo pool d)"
proof (induction "2 * length todo + length pool" arbitrary: todo pool d rule: less_induct)
  case less
  let ?worker = "\<lambda>n. let k = n mod length pool in
      bindP (runWorker l (pool ! k) d) (\<lambda>d'. dispatchLoop l limit todo (removeNth k pool) d')"
  let ?serial = "\<lambda>e es. bindP (tryP (execOne l (dsGroupErr d \<noteq> None) e)) (\<lambda>r. case r of
        Inl err \<Rightarrow> dispatchLoop l limit [] pool (d\<lparr>dsSerialErr := Some err\<rparr>)
      | Inr x \<Rightarrow> dispatchLoop l limit es pool (recordExec (tcID (seCall e)) x d))"
  have worker: "yields wfPlans (?worker n)" if "pool \<noteq> []" for n
    using that less
    by (intro yields_Let yields_bind [OF runWorker_plan]) (auto simp: length_removeNth)
  have serial: "yields wfPlans (?serial e es)" if "todo = e # es" for e es
    by (rule yields_bind [OF yields_try [OF execOne_plan]])
      (use that less in \<open>auto split: sum.splits\<close>)
  have par: "yields wfPlans (dispatchLoop l limit es (pool @ [e]) d)" if "todo = e # es" for e es
    using that less by simp
  show ?case
  proof (subst dispatchLoop.simps, rule yields_if)
    show "yields wfPlans (retP d)" using less(2) by (rule yields_ret)
  next
    assume "\<not> (todo = [] \<and> pool = [])"
    then show "yields wfPlans (bindP (askP (dpPick (lpDeps l))) (\<lambda>n.
        if pool \<noteq> [] \<and> (n < length pool \<or> todo = [] \<or> seParallel (hd todo) \<and> limit \<le> length pool)
        then ?worker n
        else (case todo of [] \<Rightarrow> retP d
          | e # es \<Rightarrow> if seParallel e then dispatchLoop l limit es (pool @ [e]) d else ?serial e es)))"
      by (intro yields_bind_any yields_if worker) (use serial par in \<open>auto split: list.splits\<close>)
  qed
qed

lemma dispatch_plan: "yields (\<lambda>(out, plans). \<forall>cid. wfPlan (plans cid)) (dispatch l execs)"
  unfolding dispatch_def
  by (rule yields_bind [OF dispatchLoop_plan]) (auto simp: wfPlans_def wfPlan_def intro!: yieldsI)

section \<open>The frame of a tool round\<close>

lemma calm_appendResults:
  assumes "\<forall>cid. wfPlan (plans cid)"
  shows "stays calmStep (appendResults l results plans calls)"
proof (induction calls)
  case (Cons c cs)
  show ?case
    unfolding appendResults.simps
  proof (intro staysI preorder_calmStep Cons)
    fix pu assume "plans (tcID c) = Some pu"
    then show "calmAppend ActorAssistant pu" using assms by (metis wfPlan_append)
  qed (simp add: event_defs resultEvent_def)
qed (simp add: staysI)

lemma toolMessage_wf: "calls \<noteq> [] \<Longrightarrow> calmAppend ActorTool (MessageAppended (toolMessage results calls))"
  by (simp add: event_defs wfMessage_def toolMessage_def list_all_iff isResultPart_def resultPart_def)

lemma calm_handleToolCalls [staysI]: "stays calmStep (handleToolCalls l msg)"
  unfolding handleToolCalls_def Let_def
  by (intro staysI preorder_calmStep stays_bind_yields [OF _ _ dispatch_plan])
    (auto intro!: staysI calm_appendResults toolMessage_wf)

section \<open>The frame of a turn\<close>

lemma calm_classifyFinal [staysI]: "stays calmStep (classifyFinal l res)"
  unfolding classifyFinal_def
  by (intro staysI preorder_calmStep calm_run) (auto simp: calm_defs event_defs wfMessage_def)

lemma calm_loadEvents [staysI]: "stays calmStep (loadEvents l wrap)"
  unfolding loadEvents_def
  by (intro staysI preorder_calmStep calm_act) (auto simp: calm_defs)

definition isCompaction :: "event option \<Rightarrow> bool" where
  "isCompaction ev = (case ev of None \<Rightarrow> True | Some (CompactionPerformed _ _ _) \<Rightarrow> True | _ \<Rightarrow> False)"

lemma PlanCompaction_event:
  "yields (\<lambda>p. case p of Inl _ \<Rightarrow> True | Inr plan \<Rightarrow> isCompaction (cpEvent plan)) (askP (PlanCompaction mgr events))"
  by (auto simp: yields_def askP_def PlanCompaction_def isCompaction_def Let_def
      split: prod.splits sum.splits if_splits)

lemma isCompaction_wf: "isCompaction (Some ev) \<Longrightarrow> calmAppend ActorSystem ev"
  by (cases ev) (simp_all add: isCompaction_def event_defs)

lemma calm_maybeCompact [staysI]: "stays calmStep (maybeCompact l mgr events)"
  unfolding maybeCompact_def
proof (rule stays_bind_yields [OF preorder_calmStep _ PlanCompaction_event])
  show "stays calmStep (askP (PlanCompaction mgr events))" by (intro staysI calm_env)
qed (intro staysI preorder_calmStep calm_act; auto simp: calm_defs intro: isCompaction_wf)

lemma calm_toolDefsFromRuntime [staysI]: "stays calmStep (toolDefsFromRuntime l)"
  unfolding toolDefsFromRuntime_def by (intro staysI preorder_calmStep)

lemma calm_buildRequest [staysI]: "stays calmStep (buildRequest l)"
  unfolding buildRequest_def by (intro staysI preorder_calmStep)


definition goodAssembled :: "Assembled \<Rightarrow> bool" where
  "goodAssembled a \<longleftrightarrow> arOutcome a \<noteq> OutcomeNeedsContinuation \<and> mRole (arMessage a) = RoleAssistant \<and>
     (\<exists>d. arDone a = Some d \<and> IsTerminal (dStopReason d))"

lemma streamWithContinuations_good:
  "yields (\<lambda>r. case r of Inl _ \<Rightarrow> True | Inr a \<Rightarrow> goodAssembled a) (streamWithContinuations n l turnID req)"
proof (induction n arbitrary: req)
  case (Suc n)
  have good: "goodAssembled a"
    if "Assemble jl reader = (a, None)" "arOutcome a \<noteq> OutcomeNeedsContinuation" for jl reader a
    using Assemble_ok [OF that(1)] that(2)
    by (auto simp: goodAssembled_def classify_def split: if_splits)
  show ?case
    unfolding streamWithContinuations.simps by (intro yieldsI Suc) (auto intro: good)
qed (simp add: yieldsI)

lemma stays_case_Outcome [staysI]:
  "(x = OutcomeFinal \<Longrightarrow> stays R p) \<Longrightarrow> (x = OutcomeNeedsToolExecution \<Longrightarrow> stays R q) \<Longrightarrow>
   (x = OutcomeNeedsContinuation \<Longrightarrow> stays R r) \<Longrightarrow>
   stays R (case x of OutcomeFinal \<Rightarrow> p | OutcomeNeedsToolExecution \<Rightarrow> q | OutcomeNeedsContinuation \<Rightarrow> r)"
  by (cases x) auto


section \<open>Model calls per turn\<close>

definition boundedStep :: "nat \<Rightarrow> 'e machine \<Rightarrow> 'e machine \<Rightarrow> bool" where
  "boundedStep k m m' \<longleftrightarrow> sameRun (mcRun m) (mcRun m') \<and> rsNumTurns (mcRun m') = rsNumTurns (mcRun m) \<and>
     (\<exists>t. mcTrace m' = mcTrace m @ t \<and> list_all wfAct t \<and> streams t \<le> k)"

definition turnStep :: "'e machine \<Rightarrow> 'e machine \<Rightarrow> bool" where
  "turnStep m m' \<longleftrightarrow> sameRun (mcRun m) (mcRun m') \<and>
     (\<exists>t. mcTrace m' = mcTrace m @ t \<and> list_all wfAct t \<and>
        (rsNumTurns (mcRun m') = rsNumTurns (mcRun m) \<and> streams t = 0 \<or>
         rsNumTurns (mcRun m') = rsNumTurns (mcRun m) + 1 \<and> streams t \<le> maxPauseContinuations))"

lemma stays_bind_comp:
  assumes "stays R p" and "yields V p" and "\<And>x. V x \<Longrightarrow> stays S (f x)"
    and "\<And>a b. R a b \<Longrightarrow> T a b" and "\<And>a b c. R a b \<Longrightarrow> S b c \<Longrightarrow> T a c"
  shows "stays T (bindP p f)"
  unfolding stays_def
proof
  fix m
  obtain m' r where p: "p m = (m', r)" by force
  with assms(1) have "R m m'" unfolding stays_def by (metis fst_conv)
  with assms(2-) p show "T m (fst (bindP p f m))"
    by (cases r) (auto simp: bindP_def stays_def yields_def)
qed

lemma yields_any: "yields (\<lambda>_. True) p"
  by (simp add: yields_def)

lemma bounded_comp: "boundedStep j a b \<Longrightarrow> boundedStep k b c \<Longrightarrow> boundedStep (j + k) a c"
  unfolding boundedStep_def sameRun_def by (force simp: list_all_iff)

lemma bounded_mono: "boundedStep j a b \<Longrightarrow> j \<le> k \<Longrightarrow> boundedStep k a b"
  unfolding boundedStep_def by (blast intro: order_trans)

lemma calm_bounded: "calmStep a b \<Longrightarrow> boundedStep k a b"
  unfolding calmStep_def boundedStep_def sameCounts_def by (auto dest: calm_free)

lemma stays_bounded_calm: "stays calmStep p \<Longrightarrow> stays (boundedStep k) p"
  by (erule stays_mono) (rule calm_bounded)

lemma stays_bounded_bind:
  "stays (boundedStep j) p \<Longrightarrow> (\<And>x. stays (boundedStep k) (f x)) \<Longrightarrow> stays (boundedStep (j + k)) (bindP p f)"
  by (rule stays_bind_comp [where R = "boundedStep j" and S = "boundedStep k", OF _ yields_any])
    (auto intro: bounded_comp bounded_mono)

lemma stays_bounded_ret: "stays (boundedStep k) (retP x)"
  by (intro stays_bounded_calm staysI preorder_calmStep)

lemma stays_bounded_after:
  "stays calmStep p \<Longrightarrow> (\<And>x. stays (boundedStep k) (f x)) \<Longrightarrow> stays (boundedStep k) (bindP p f)"
  using stays_bounded_bind [of 0 p k f] stays_bounded_calm [of p 0] by simp

text \<open>A frame step may spend; it calls no model.\<close>

abbreviation frameStep :: "'e machine \<Rightarrow> 'e machine \<Rightarrow> bool" where
  "frameStep \<equiv> boundedStep 0"

lemma preorder_frame [simp]: "preorder frameStep"
  using bounded_comp [of 0 _ _ 0] by (auto simp: preorder_def boundedStep_def sameRun_def)

lemma frame_act: "wfAct x \<Longrightarrow> \<not> isStream x \<Longrightarrow> frameStep m (m\<lparr>mcEnv := e, mcTrace := mcTrace m @ [x]\<rparr>)"
  by (auto simp: boundedStep_def sameRun_def intro!: exI [of _ "[x]"])

lemma frame_acts: "list_all wfAct xs \<Longrightarrow> streams xs = 0 \<Longrightarrow> frameStep m (m\<lparr>mcTrace := mcTrace m @ xs\<rparr>)"
  by (auto simp: boundedStep_def sameRun_def)

lemma frame_run:
  "sameRun (mcRun m) (f (mcRun m)) \<Longrightarrow> rsNumTurns (f (mcRun m)) = rsNumTurns (mcRun m) \<Longrightarrow>
   frameStep m (m\<lparr>mcRun := f (mcRun m)\<rparr>)"
  by (auto simp: boundedStep_def)

lemma frame_spent: "stays frameStep (setP (addSpent u c))"
  by (intro stays_set frame_run) (simp_all add: addSpent_def sameRun_def)

lemma frame_append: "wfAppend actor ev \<Longrightarrow> stays frameStep (appendEv l actor ev)"
  unfolding appendEv_def
  by (intro staysI preorder_frame calm_bounded [OF calm_env] frame_act frame_run) (auto simp: wfAct_def isStream_def sameRun_def)

lemma frame_abortTurn: "stays frameStep (abortTurn l turnID u c)"
  unfolding abortTurn_def by (rule frame_append) (simp add: wfAppend_def)

lemma frame_recordTurn: "goodAssembled a \<Longrightarrow> stays frameStep (recordTurn l turnID a)"
  unfolding recordTurn_def
  by (intro staysI preorder_frame frame_run frame_acts frame_spent frame_append frame_abortTurn
      stays_bounded_calm [OF calm_handleToolCalls] stays_bounded_calm [OF calm_classifyFinal])
    (auto simp: wfAct_def isStream_def sameRun_def wfAppend_def goodAssembled_def)

lemma streamWithContinuations_bounded: "stays (boundedStep n) (streamWithContinuations n l turnID req)"
proof (induction n arbitrary: req)
  case 0
  then show ?case by (simp add: stays_bounded_calm staysI)
next
  case (Suc n)
  have call: "stays (boundedStep 1) (callP (dpStream (lpDeps l) req) (StreamCall req))"
    by (rule stays_call) (force simp: boundedStep_def sameRun_def wfAct_def isStream_def)
  have fwd: "stays calmStep (noteP (forwarded sid turnID reader))" for sid reader
    by (intro stays_note calm_acts)
      (auto simp: forwarded_def list_all_iff calm_defs split: StreamEvent.splits if_splits)
  have again: "stays (boundedStep n) (seqP (noteP (forwarded sid turnID reader))
      (case Assemble (dpJSON (lpDeps l)) reader of
         (a, Some e) \<Rightarrow> retP (Inl (doneUsage a, ErrAssemble e))
       | (a, None) \<Rightarrow> if arOutcome a \<noteq> OutcomeNeedsContinuation then retP (Inr a)
           else streamWithContinuations n l turnID (req\<lparr>lrProviderRaw := doneRaw a\<rparr>)))" for sid reader
    unfolding seqP_def
    by (rule stays_bounded_after [OF fwd])
      (auto split: prod.splits option.splits intro!: Suc stays_bounded_ret)
  have "stays (boundedStep (1 + n)) (streamWithContinuations (Suc n) l turnID req)"
    unfolding streamWithContinuations.simps
    by (rule stays_bounded_bind [OF call], rule stays_case_sum)
      (auto intro!: stays_bounded_ret stays_bounded_after [OF stays_get] again)
  then show ?case by simp
qed


lemma frame_afterStream:
  "(case res of Inl _ \<Rightarrow> True | Inr a \<Rightarrow> goodAssembled a) \<Longrightarrow> stays frameStep (afterStream l turnID res)"
  unfolding afterStream_def
  by (intro staysI preorder_frame frame_acts frame_spent frame_abortTurn frame_recordTurn) (auto simp: wfAct_def isStream_def)

lemma turnBody_bounded: "stays (boundedStep maxPauseContinuations) (turnBody l turnID req)"
proof -
  have "stays (boundedStep maxPauseContinuations)
      (bindP (streamWithContinuations maxPauseContinuations l turnID req) (afterStream l turnID))"
    by (rule stays_bind_comp [OF streamWithContinuations_bounded streamWithContinuations_good frame_afterStream])
      (auto dest: bounded_comp)
  then show ?thesis
    unfolding turnBody_def seqP_def [of "appendEv l ActorSystem (TurnStarted turnID (lcModel (lpCfg l)))"]
    by (intro stays_bounded_after [OF calm_append]) (simp add: event_defs)
qed

lemma frame_turn: "frameStep a b \<Longrightarrow> turnStep a b"
  unfolding boundedStep_def turnStep_def by fastforce

lemma frame_turn_comp: "frameStep a b \<Longrightarrow> turnStep b c \<Longrightarrow> turnStep a c"
  unfolding boundedStep_def turnStep_def sameRun_def by (fastforce simp: list_all_iff)

lemmas calm_turn = frame_turn [OF calm_bounded]

lemmas calm_turn_comp = frame_turn_comp [OF calm_bounded]

lemma counted_comp:
  "boundedStep maxPauseContinuations (m\<lparr>mcRun := countTurn turnID (mcRun m)\<rparr>) m' \<Longrightarrow> turnStep m m'"
  unfolding boundedStep_def turnStep_def sameRun_def countTurn_def by auto

lemma stays_counted: "stays turnStep (seqP (setP (countTurn turnID)) (turnBody l turnID req))"
  using turnBody_bounded [of l turnID req]
  by (auto simp: stays_def seqP_def bindP_def setP_def intro: counted_comp)

lemma stays_turn_bind: "stays calmStep p \<Longrightarrow> (\<And>x. stays turnStep (f x)) \<Longrightarrow> stays turnStep (bindP p f)"
  by (rule stays_bind_comp [where R = calmStep and S = turnStep, OF _ yields_any])
    (auto intro: calm_turn calm_turn_comp)

lemma runTurn_turnStep: "stays turnStep (runTurn l)"
  unfolding runTurn_def
  by (intro stays_turn_bind stays_if stays_counted)
    (auto intro: staysI stays_mono [OF stays_ret [OF preorder_calmStep] calm_turn])

lemma bindP_Inr: "bindP p f m = (m', Inr y) \<longleftrightarrow> (\<exists>m1 x. p m = (m1, Inr x) \<and> f x m1 = (m', Inr y))"
  by (auto simp: bindP_def split: prod.splits sum.splits)

lemma seqP_Inr: "seqP p q m = (m', Inr y) \<longleftrightarrow> (\<exists>m1 x. p m = (m1, Inr x) \<and> q m1 = (m', Inr y))"
  by (simp add: seqP_def bindP_Inr)

lemma stays_use: "stays R p \<Longrightarrow> p m = (m', r) \<Longrightarrow> R m m'"
  by (metis stays_def fst_conv)

lemma runTurn_counts:
  assumes "runTurn l m = (m', Inr turnContinue)"
  shows "rsNumTurns (mcRun m') = rsNumTurns (mcRun m) + 1"
proof -
  from assms obtain b m1 req m2 turnID m3
    where 1: "askP (dpCtxErr (lpDeps l)) m = (m1, Inr b)" and 2: "buildRequest l m1 = (m2, Inr req)"
      and 3: "askP (dpNewID (lpDeps l)) m2 = (m3, Inr turnID)"
      and 4: "turnBody l turnID req (m3\<lparr>mcRun := countTurn turnID (mcRun m3)\<rparr>) = (m', Inr turnContinue)"
    unfolding runTurn_def bindP_Inr seqP_Inr
    by (auto simp: retP_def setP_def bindP_Inr seqP_Inr split: if_splits)
  from stays_use [OF calm_ask 1] stays_use [OF calm_buildRequest 2] stays_use [OF calm_ask 3]
  have "rsNumTurns (mcRun m3) = rsNumTurns (mcRun m)" by (simp add: calmStep_def sameCounts_def)
  with stays_use [OF turnBody_bounded 4] show ?thesis by (simp add: boundedStep_def countTurn_def)
qed

section \<open>The run\<close>

definition effectiveMaxTurns :: "'e Loop \<Rightarrow> int" where
  "effectiveMaxTurns l = (if lcMaxTurns (lpCfg l) \<le> 0 then DefaultMaxTurns else lcMaxTurns (lpCfg l))"

definition overBudget :: "'e Loop \<Rightarrow> runState \<Rightarrow> bool" where
  "overBudget l st \<longleftrightarrow> 0 < lcMaxBudgetUSD (lpCfg l) \<and> lcMaxBudgetUSD (lpCfg l) < rsCost st"

function runLoop :: "'e Loop \<Rightarrow> ('e, RunResult) prog" where
  "runLoop l m =
     (if overBudget l (mcRun m) then terminate l ErrorMaxBudgetUSD m
      else if effectiveMaxTurns l \<le> rsNumTurns (mcRun m) then terminate l ErrorMaxTurns m
      else case runTurn l m of
          (m', Inl err) \<Rightarrow> (m', Inl err)
        | (m', Inr (turnTerminal reason)) \<Rightarrow> finish l reason m'
        | (m', Inr turnContinue) \<Rightarrow> runLoop l m'
        | (m', Inr (turnAborted reason)) \<Rightarrow> (m', Inr (resultOf (mcRun m') reason)))"
  by pat_completeness auto

termination runLoop
  by (relation "measure (\<lambda>(l, m). nat (effectiveMaxTurns l - rsNumTurns (mcRun m)))")
    (auto dest!: runTurn_counts [OF sym])

declare runLoop.simps [simp del]

definition initialRun :: "'e Loop \<Rightarrow> RunInput \<Rightarrow> runState" where
  "initialRun l inp = \<lparr>rsSessionID = riSessionID inp, rsHeadSeq = 0, rsLeaseEpoch = lcLeaseEpoch (lpCfg l),
     rsUsage = zeroUsage, rsCost = 0, rsNumTurns = 0, rsCurrentTurnID = '''', rsLastAssistantSeq = 0,
     rsTainted = riTainted inp, rsLastToolSig = '''', rsRepeatCount = 0, rsStructuredRetries = 0\<rparr>"

definition runBody :: "'e Loop \<Rightarrow> RunInput \<Rightarrow> ('e, RunResult) prog" where
  "runBody l inp =
     bindP (orFail ErrLoadSession (callP (dpLoadSession (lpDeps l) (riSessionID inp)) (LoadSessionCall (riSessionID inp)))) (\<lambda>sess.
     seqP (setP (\<lambda>st. st\<lparr>rsHeadSeq := sHeadSeq sess\<rparr>))
     (bindP (adjudicateResume l) (\<lambda>resumed. case resumed of
        Some res \<Rightarrow> retP res
      | None \<Rightarrow>
          seqP (if hasContent (riUserMessage inp) then appendEv l ActorUser (MessageAppended (riUserMessage inp)) else retP ())
          (runLoop l))))"

text \<open>A run from an environment: the environment after it, the calls made, and the answer.\<close>

definition Run :: "'e Loop \<Rightarrow> RunInput \<Rightarrow> 'e \<Rightarrow> 'e \<times> act list \<times> (agent_error + RunResult)" where
  "Run l inp e =
     (case runBody l inp \<lparr>mcRun = initialRun l inp, mcEnv = e, mcTrace = []\<rparr> of
        (m, r) \<Rightarrow> (mcEnv m, mcTrace m, r))"

end
