(* ===== verification/AgentAuth.thy ===== *)
theory AgentAuth
  imports AgentRun
begin

text \<open>
  Authorisation in the agent loop, as a statement over the calls a run makes: a tool is executed, or a
  sub-agent started, only after the permission pipeline let that very call through and after both the
  decision and the intent were committed to the log. The evidence is a set of earlier calls with their
  answers, so it persists as the list of calls grows.
\<close>

section \<open>Evidence\<close>

definition committed :: "act list \<Rightarrow> event \<Rightarrow> bool" where
  "committed tr ev \<longleftrightarrow> (\<exists>sid h ep rq inp envs. AppendCall sid h ep rq inp (Inr envs) \<in> set tr \<and> aiEvent inp = ev)"

definition hookPassed :: "act list \<Rightarrow> ToolCall \<Rightarrow> bool" where
  "hookPassed tr c \<longleftrightarrow> (\<exists>hi d. HookCall hi (Inr d) \<in> set tr \<and> hdAllow d \<and> hiEvent hi = HookPreToolUse \<and>
     hiCallID hi = tcID c \<and> hiToolName hi = tcName c \<and> hiToolArgs hi = tcArgs c)"

definition policySaid :: "act list \<Rightarrow> ToolCall \<Rightarrow> Decision \<Rightarrow> bool" where
  "policySaid tr c dec \<longleftrightarrow> (\<exists>inp r. EvaluateCall inp (Inr r) \<in> set tr \<and> resDecision r = dec \<and>
     inCallID inp = tcID c \<and> inToolName inp = tcName c \<and> inToolArgs inp = tcArgs c)"

definition humanAllowed :: "act list \<Rightarrow> ToolCall \<Rightarrow> bool" where
  "humanAllowed tr c \<longleftrightarrow> (\<exists>req dl. ApprovalCall req dl (Inr AskAllowed) \<in> set tr \<and>
     apCallID req = tcID c \<and> apToolName req = tcName c \<and> apArgs req = tcArgs c)"

text \<open>Allowed by the hooks and the policy, or allowed by the human, and recorded as such.\<close>

definition permitted :: "act list \<Rightarrow> ToolCall \<Rightarrow> bool" where
  "permitted tr c \<longleftrightarrow>
     hookPassed tr c \<and> policySaid tr c Allow \<and>
       (\<exists>rule reason. committed tr (PermissionDecided (tcID c) (tcName c) PermissionAllow AskUnresolved rule reason))
   \<or> humanAllowed tr c \<and>
       (\<exists>rule reason. committed tr (PermissionDecided (tcID c) (tcName c) PermissionAsk AskAllowed rule reason))"

definition ready :: "act list \<Rightarrow> ToolCall \<Rightarrow> string \<Rightarrow> bool" where
  "ready tr c key \<longleftrightarrow> permitted tr c \<and> committed tr (ToolExecutionStarted (tcID c) (tcName c) key)"

definition okAct :: "act list \<Rightarrow> act \<Rightarrow> bool" where
  "okAct tr x = (case x of
       ExecuteCall te _ \<Rightarrow> ready tr (teCall te) (teIdempotencyKey te) \<and> \<not> isVirtualTool (tcName (teCall te))
     | SpawnCall sp _ \<Rightarrow> (\<exists>c key. ready tr c key \<and> tcName c = toolNameSpawnSubagent \<and>
         parseSpawnArgs (tcArgs c) = Inr (ssTask sp, ssModel sp))
     | _ \<Rightarrow> True)"

definition authorised :: "act list \<Rightarrow> bool" where
  "authorised tr \<longleftrightarrow> (\<forall>i < length tr. okAct (take i tr) (tr ! i))"

lemma authorised_Nil [simp]: "authorised []"
  by (simp add: authorised_def)

lemma authorised_snoc [simp]: "authorised (tr @ [x]) \<longleftrightarrow> authorised tr \<and> okAct tr x"
  by (auto simp: authorised_def nth_append less_Suc_eq)

section \<open>Evidence persists\<close>

definition lasting :: "(act list \<Rightarrow> bool) \<Rightarrow> bool" where
  "lasting K \<longleftrightarrow> (\<forall>tr t. K tr \<longrightarrow> K (tr @ t))"

named_theorems lastingI \<open>facts about the calls made that stay true\<close>

lemma lasting_committed [lastingI]: "lasting (\<lambda>tr. committed tr ev)"
  by (fastforce simp: lasting_def committed_def)

lemma lasting_hookPassed [lastingI]: "lasting (\<lambda>tr. hookPassed tr c)"
  by (fastforce simp: lasting_def hookPassed_def)

lemma lasting_policySaid [lastingI]: "lasting (\<lambda>tr. policySaid tr c dec)"
  by (fastforce simp: lasting_def policySaid_def)

lemma lasting_humanAllowed [lastingI]: "lasting (\<lambda>tr. humanAllowed tr c)"
  by (fastforce simp: lasting_def humanAllowed_def)

lemma lasting_conj [lastingI]: "lasting K \<Longrightarrow> lasting L \<Longrightarrow> lasting (\<lambda>tr. K tr \<and> L tr)"
  by (simp add: lasting_def)

lemma lasting_disj [lastingI]: "lasting K \<Longrightarrow> lasting L \<Longrightarrow> lasting (\<lambda>tr. K tr \<or> L tr)"
  by (auto simp: lasting_def)

lemma lasting_ex [lastingI]: "(\<And>x. lasting (K x)) \<Longrightarrow> lasting (\<lambda>tr. \<exists>x. K x tr)"
  by (auto simp: lasting_def)

lemma lasting_ball [lastingI]: "(\<And>x. x \<in> A \<Longrightarrow> lasting (K x)) \<Longrightarrow> lasting (\<lambda>tr. \<forall>x \<in> A. K x tr)"
  by (auto simp: lasting_def)

lemma lasting_const [lastingI]: "lasting (\<lambda>_. b)"
  by (simp add: lasting_def)

lemma lasting_imp [lastingI]: "lasting K \<Longrightarrow> lasting (\<lambda>tr. b \<longrightarrow> K tr)"
  by (auto simp: lasting_def)

lemma lasting_permitted [lastingI]: "lasting (\<lambda>tr. permitted tr c)"
  unfolding permitted_def by (intro lastingI)

lemma lasting_ready [lastingI]: "lasting (\<lambda>tr. ready tr c key)"
  unfolding ready_def by (intro lastingI)

section \<open>Steps that execute nothing\<close>

definition isEffect :: "act \<Rightarrow> bool" where
  "isEffect x = (case x of ExecuteCall _ _ \<Rightarrow> True | SpawnCall _ _ \<Rightarrow> True | _ \<Rightarrow> False)"

text \<open>\<open>grows\<close>: the list of calls is only extended, and stays authorised if it was.\<close>

definition grows :: "'e machine \<Rightarrow> 'e machine \<Rightarrow> bool" where
  "grows m m' \<longleftrightarrow> (\<exists>t. mcTrace m' = mcTrace m @ t) \<and> (authorised (mcTrace m) \<longrightarrow> authorised (mcTrace m'))"

lemma preorder_grows [simp]: "preorder grows"
  by (fastforce simp: preorder_def grows_def)

lemma grows_lasting: "grows m m' \<Longrightarrow> lasting K \<Longrightarrow> K (mcTrace m) \<Longrightarrow> K (mcTrace m')"
  by (auto simp: grows_def lasting_def)

lemma okAct_quiet: "\<not> isEffect x \<Longrightarrow> okAct tr x"
  by (cases x) (simp_all add: isEffect_def okAct_def)

lemma authorised_quiet: "authorised tr \<Longrightarrow> list_all (\<lambda>x. \<not> isEffect x) xs \<Longrightarrow> authorised (tr @ xs)"
  by (induction xs rule: rev_induct) (simp_all add: okAct_quiet flip: append_assoc)

lemma grows_env [simp]: "grows m (m\<lparr>mcEnv := e\<rparr>)"
  by (simp add: grows_def)

lemma grows_run [simp]: "grows m (m\<lparr>mcRun := s\<rparr>)"
  by (simp add: grows_def)

lemma grows_acts: "list_all (\<lambda>x. \<not> isEffect x) xs \<Longrightarrow> grows m (m\<lparr>mcTrace := mcTrace m @ xs\<rparr>)"
  by (simp add: grows_def authorised_quiet)

lemma grows_act: "\<not> isEffect x \<Longrightarrow> grows m (m\<lparr>mcEnv := e, mcTrace := mcTrace m @ [x]\<rparr>)"
  by (simp add: grows_def okAct_quiet)

lemma grows_ask [staysI]: "stays grows (askP f)"
  by (intro stays_ask grows_env)

lemma grows_set [staysI]: "stays grows (setP f)"
  by (intro stays_set grows_run)

lemma grows_note [staysI]: "list_all (\<lambda>x. \<not> isEffect x) xs \<Longrightarrow> stays grows (noteP xs)"
  by (intro stays_note grows_acts)

lemma grows_call [staysI]: "(\<And>r. \<not> isEffect (mk r)) \<Longrightarrow> stays grows (callP f mk)"
  by (intro stays_call grows_act)

lemma grows_append [staysI]: "stays grows (appendEv l actor ev)"
  unfolding appendEv_def by (intro staysI preorder_grows) (simp add: isEffect_def)

lemma grows_finishTurn [staysI]: "stays grows (finishTurn l turnID reason)"
  unfolding finishTurn_def by (intro staysI preorder_grows) (auto simp: isEffect_def)

lemma grows_finish [staysI]: "stays grows (finish l reason)"
  unfolding finish_def by (intro staysI preorder_grows)

lemma grows_terminate [staysI]: "stays grows (terminate l reason)"
  unfolding terminate_def by (intro staysI preorder_grows)

lemma grows_decide [staysI]: "stays grows (decide l c dec resolved rule reason)"
  unfolding decide_def by (intro staysI)

lemma grows_askHuman [staysI]: "stays grows (askHuman l c pres)"
  unfolding askHuman_def by (intro staysI preorder_grows) (auto simp: isEffect_def)

lemma grows_gateCall [staysI]: "stays grows (gateCall l c cls)"
  unfolding gateCall_def by (intro staysI preorder_grows) (auto simp: isEffect_def)

lemma grows_detectDoomLoop [staysI]: "stays grows (detectDoomLoop l calls)"
  unfolding detectDoomLoop_def by (intro staysI preorder_grows) (auto simp: isEffect_def list_all_iff)

lemma grows_listTools [staysI]: "stays grows (listTools l)"
  unfolding listTools_def by (intro staysI preorder_grows) (auto simp: isEffect_def)

lemma grows_toolClasses [staysI]: "stays grows (toolClasses l)"
  unfolding toolClasses_def by (intro staysI preorder_grows)

lemma grows_gateCalls [staysI]: "stays grows (gateCalls l classes calls todo results)"
proof (induction calls arbitrary: todo results)
  case (Cons c cs)
  show ?case unfolding gateCalls.simps by (intro staysI preorder_grows Cons)
qed (simp add: staysI)

lemma grows_appendResults [staysI]: "stays grows (appendResults l results plans calls)"
proof (induction calls)
  case (Cons c cs)
  show ?case unfolding appendResults.simps by (intro staysI preorder_grows Cons)
qed (simp add: staysI)

lemma grows_classifyFinal [staysI]: "stays grows (classifyFinal l res)"
  unfolding classifyFinal_def by (intro staysI preorder_grows)

lemma grows_loadEvents [staysI]: "stays grows (loadEvents l wrap)"
  unfolding loadEvents_def by (intro staysI preorder_grows) (auto simp: isEffect_def)

lemma grows_maybeCompact [staysI]: "stays grows (maybeCompact l mgr events)"
  unfolding maybeCompact_def by (intro staysI preorder_grows) (auto simp: isEffect_def)

lemma grows_toolDefsFromRuntime [staysI]: "stays grows (toolDefsFromRuntime l)"
  unfolding toolDefsFromRuntime_def by (intro staysI preorder_grows)

lemma grows_buildRequest [staysI]: "stays grows (buildRequest l)"
  unfolding buildRequest_def by (intro staysI preorder_grows)

lemma grows_abortTurn [staysI]: "stays grows (abortTurn l turnID u c)"
  unfolding abortTurn_def by (intro staysI)

lemma grows_streams [staysI]: "stays grows (streamWithContinuations n l turnID req)"
proof (induction n arbitrary: req)
  case (Suc n)
  show ?case
    unfolding streamWithContinuations.simps
    by (intro staysI preorder_grows Suc)
      (auto simp: isEffect_def forwarded_def list_all_iff split: StreamEvent.splits if_splits)
qed (simp add: staysI)

lemma grows_feedToolResult [staysI]: "stays grows (feedToolResult l c r)"
  unfolding feedToolResult_def by (intro staysI preorder_grows)

lemma grows_abandon [staysI]: "stays grows (abandonSuspendedApproval l sa)"
  unfolding abandonSuspendedApproval_def by (intro staysI preorder_grows) (auto simp: isEffect_def)

lemma grows_closeOpenTurns [staysI]: "stays grows (closeOpenTurns l ots)"
proof (induction ots)
  case (Cons ot ots)
  show ?case unfolding closeOpenTurns.simps by (intro staysI preorder_grows Cons)
qed (simp add: staysI)

section \<open>Steps that execute what is ready\<close>

text \<open>
  \<open>fromK K p\<close>: started where the calls made satisfy \<open>K\<close>, the program keeps the list authorised;
  \<open>proves K p L\<close>: started there, a value \<open>x\<close> comes with \<open>L x\<close> for the calls made by then.
\<close>

definition fromK :: "(act list \<Rightarrow> bool) \<Rightarrow> ('e, 'a) prog \<Rightarrow> bool" where
  "fromK K p \<longleftrightarrow> (\<forall>m. K (mcTrace m) \<longrightarrow> grows m (fst (p m)))"

definition proves :: "(act list \<Rightarrow> bool) \<Rightarrow> ('e, 'a) prog \<Rightarrow> ('a \<Rightarrow> act list \<Rightarrow> bool) \<Rightarrow> bool" where
  "proves K p L \<longleftrightarrow> (\<forall>m m' x. K (mcTrace m) \<longrightarrow> p m = (m', Inr x) \<longrightarrow> L x (mcTrace m'))"

lemma fromK_stays: "stays grows p \<Longrightarrow> fromK K p"
  by (simp add: fromK_def stays_def)

lemma fromK_weaken: "fromK K p \<Longrightarrow> (\<And>tr. K' tr \<Longrightarrow> K tr) \<Longrightarrow> fromK K' p"
  by (simp add: fromK_def)

lemma stays_fromK: "fromK (\<lambda>_. True) p \<Longrightarrow> stays grows p"
  by (simp add: fromK_def stays_def)

lemma fromK_bind:
  assumes "fromK K p" and "proves K p L" and "\<And>x. fromK (L x) (f x)"
  shows "fromK K (bindP p f)"
  unfolding fromK_def
proof (intro allI impI)
  fix m :: "'a machine" assume K: "K (mcTrace m)"
  obtain m' r where p: "p m = (m', r)" by force
  with assms(1) K have g: "grows m m'" unfolding fromK_def by (metis fst_conv)
  show "grows m (fst (bindP p f m))"
  proof (cases r)
    case (Inr x)
    with assms(2) K p have "L x (mcTrace m')" unfolding proves_def by blast
    with assms(3) have "grows m' (fst (f x m'))" unfolding fromK_def by blast
    with g p Inr preorder_grows show ?thesis by (auto simp: bindP_def preorder_def)
  qed (use g p in \<open>simp add: bindP_def\<close>)
qed

lemma fromK_seq: "fromK K p \<Longrightarrow> proves K p (\<lambda>_. L) \<Longrightarrow> fromK L q \<Longrightarrow> fromK K (seqP p q)"
  unfolding seqP_def by (rule fromK_bind)

lemma fromK_try: "fromK K p \<Longrightarrow> fromK K (tryP p)"
  by (simp add: fromK_def tryP_def split: prod.splits) (metis fst_conv)

text \<open>Lasting evidence survives any step that only extends the list of calls.\<close>

lemma proves_lasting: "fromK K p \<Longrightarrow> lasting L \<Longrightarrow> (\<And>tr. K tr \<Longrightarrow> L tr) \<Longrightarrow> proves K p (\<lambda>_. L)"
  unfolding proves_def fromK_def by (metis fst_conv grows_lasting)

lemma proves_bind:
  "proves K p L \<Longrightarrow> (\<And>x. proves (L x) (f x) M) \<Longrightarrow> proves K (bindP p f) M"
  unfolding proves_def by (auto simp: bindP_Inr)

lemma proves_seq: "proves K p (\<lambda>_. L) \<Longrightarrow> proves L q M \<Longrightarrow> proves K (seqP p q) M"
  unfolding seqP_def by (rule proves_bind)

lemma proves_ret: "(\<And>tr. K tr \<Longrightarrow> L x tr) \<Longrightarrow> proves K (retP x) L"
  by (simp add: proves_def retP_def)

lemma proves_fail: "proves K (failP err) L"
  by (simp add: proves_def failP_def)

lemma proves_call: "(\<And>tr r. K tr \<Longrightarrow> L r (tr @ [mk r])) \<Longrightarrow> proves K (callP f mk) L"
  by (auto simp: proves_def callP_def bindP_def seqP_def askP_def noteP_def retP_def split: prod.splits)

lemma proves_orFail: "proves K p (\<lambda>r tr. \<forall>x. r = Inr x \<longrightarrow> L x tr) \<Longrightarrow> proves K (orFail wrap p) L"
  unfolding orFail_def
  by (rule proves_bind) (auto intro: proves_ret proves_fail split: sum.splits)

lemma proves_getP: "(\<And>st. proves K (f st) L) \<Longrightarrow> proves K (bindP getP f) L"
  by (auto simp: proves_def bindP_Inr getP_def)

lemma proves_weaken: "proves K p L \<Longrightarrow> (\<And>x tr. L x tr \<Longrightarrow> M x tr) \<Longrightarrow> proves K p M"
  by (auto simp: proves_def)

lemma proves_pre: "proves K p L \<Longrightarrow> (\<And>tr. K' tr \<Longrightarrow> K tr) \<Longrightarrow> proves K' p L"
  by (auto simp: proves_def)

lemma proves_and: "proves K p L \<Longrightarrow> proves K p M \<Longrightarrow> proves K p (\<lambda>x tr. L x tr \<and> M x tr)"
  by (auto simp: proves_def)

lemma proves_commit: "proves K (appendEv l actor ev) (\<lambda>_ tr. committed tr ev)"
  unfolding proves_def appendEv_def Let_def orFail_def callP_def
  by (auto simp: bindP_Inr seqP_Inr askP_def noteP_def retP_def getP_def setP_def failP_def committed_def
      split: prod.splits sum.splits) (rule exI | fastforce)+

lemma proves_append:
  "lasting L \<Longrightarrow> (\<And>tr. K tr \<Longrightarrow> L tr) \<Longrightarrow> proves K (appendEv l actor ev) (\<lambda>_ tr. L tr \<and> committed tr ev)"
  by (intro proves_and proves_commit proves_lasting fromK_stays grows_append)

section \<open>The gate\<close>

lemma proves_decide:
  "lasting L \<Longrightarrow> (\<And>tr. K tr \<Longrightarrow> L tr) \<Longrightarrow> proves K (decide l c dec resolved rule reason)
     (\<lambda>_ tr. L tr \<and> committed tr (PermissionDecided (tcID c) (tcName c) dec resolved rule reason))"
  unfolding decide_def by (rule proves_append)

lemma askHuman_permits:
  "proves (\<lambda>_. True) (askHuman l c pres) (\<lambda>denied tr. denied = None \<longrightarrow> permitted tr c)"
proof -
  have call: "proves (\<lambda>_. True)
      (orFail ErrApproval (callP f (ApprovalCall \<lparr>apSessionID = sid, apCallID = tcID c, apToolName = tcName c,
         apReason = r, apArgs = tcArgs c\<rparr> dl)))
      (\<lambda>resolution tr. resolution = AskAllowed \<longrightarrow> humanAllowed tr c)" for f sid r dl
    by (rule proves_orFail, rule proves_call) (fastforce simp: humanAllowed_def)
  have rec: "proves (\<lambda>tr. resolution = AskAllowed \<longrightarrow> humanAllowed tr c)
      (seqP (decide l c PermissionAsk resolution rule reason)
        (retP (if resolution = AskAllowed then None else Some obs)))
      (\<lambda>denied tr. denied = None \<longrightarrow> permitted tr c)" for resolution rule reason obs
    by (rule proves_seq [OF proves_decide [where L = "\<lambda>tr. resolution = AskAllowed \<longrightarrow> humanAllowed tr c"]])
      (auto intro!: lastingI proves_ret simp: permitted_def)
  show ?thesis
    unfolding askHuman_def Let_def
    by (intro proves_bind [where L = "\<lambda>_ _. True"] proves_seq [where L = "\<lambda>_. True"]
        proves_bind [OF call] rec) (simp_all add: proves_def)
qed

lemma gateCall_permits:
  "proves (\<lambda>_. True) (gateCall l c cls) (\<lambda>denied tr. denied = None \<longrightarrow> permitted tr c)"
proof -
  have hook: "proves (\<lambda>_. True) (orFail ErrHook (callP f (HookCall (preToolInput st c))))
      (\<lambda>d tr. hdAllow d \<longrightarrow> hookPassed tr c)" for f st
    by (rule proves_orFail, rule proves_call) (fastforce simp: hookPassed_def preToolInput_def)
  have eval: "proves (\<lambda>tr. hookPassed tr c) (orFail ErrPolicy (callP f (EvaluateCall (policyInput l st c cls))))
      (\<lambda>r tr. hookPassed tr c \<and> policySaid tr c (resDecision r))" for f st
    by (rule proves_orFail, rule proves_call)
      (fastforce simp: policySaid_def policyInput_def hookPassed_def)
  have allow: "proves (\<lambda>tr. hookPassed tr c \<and> policySaid tr c Allow)
      (seqP (decide l c PermissionAllow AskUnresolved rule reason) (retP None))
      (\<lambda>denied tr. denied = None \<longrightarrow> permitted tr c)" for rule reason
    by (rule proves_seq [OF proves_decide [where L = "\<lambda>tr. hookPassed tr c \<and> policySaid tr c Allow"]])
      (auto intro!: lastingI proves_ret simp: permitted_def)
  have denied: "proves K (seqP p (retP (Some obs))) (\<lambda>denied tr. denied = None \<longrightarrow> permitted tr c)" for K p obs
    by (auto simp: proves_def seqP_Inr retP_def)
  have branch: "proves (\<lambda>tr. hookPassed tr c \<and> policySaid tr c (resDecision pres))
      (case resDecision pres of
         Deny \<Rightarrow> seqP (decide l c PermissionDeny AskUnresolved (resRuleID pres) (resReason pres)) (retP (Some obs))
       | Allow \<Rightarrow> seqP (decide l c PermissionAllow AskUnresolved (resRuleID pres) (resReason pres)) (retP None)
       | Ask \<Rightarrow> askHuman l c pres)
      (\<lambda>denied tr. denied = None \<longrightarrow> permitted tr c)" for pres obs
    using allow denied proves_pre [OF askHuman_permits] by (cases "resDecision pres") simp_all
  have rest: "proves (\<lambda>tr. hdAllow hookDec \<longrightarrow> hookPassed tr c)
     (if \<not> hdAllow hookDec then seqP p (retP (Some obs))
      else bindP (orFail ErrPolicy (callP f (EvaluateCall (policyInput l st c cls)))) (\<lambda>pres. case resDecision pres of
         Deny \<Rightarrow> seqP (decide l c PermissionDeny AskUnresolved (resRuleID pres) (resReason pres)) (retP (Some (obs' pres)))
       | Allow \<Rightarrow> seqP (decide l c PermissionAllow AskUnresolved (resRuleID pres) (resReason pres)) (retP None)
       | Ask \<Rightarrow> askHuman l c pres))
     (\<lambda>denied tr. denied = None \<longrightarrow> permitted tr c)" for hookDec p obs obs' f st
    using denied proves_bind [OF eval branch] by (cases "hdAllow hookDec") simp_all
  show ?thesis
    unfolding gateCall_def Let_def
    by (rule proves_bind [where L = "\<lambda>_ _. True"]) (auto simp: proves_def [of _ getP] intro: proves_bind [OF hook rest])
qed

definition allReady :: "scheduledExec list \<Rightarrow> act list \<Rightarrow> bool" where
  "allReady es tr \<longleftrightarrow> (\<forall>e \<in> set es. ready tr (seCall e) (seIdemKey e))"

lemma lasting_allReady [lastingI]: "lasting (allReady es)"
  unfolding allReady_def by (intro lastingI)

lemma gateCalls_ready:
  "proves (allReady todo) (gateCalls l classes calls todo results) (\<lambda>(todo', _). allReady todo')"
proof (induction calls arbitrary: todo results)
  case (Cons c cs)
  let ?cls = "case classes (tcName c) of None \<Rightarrow> zeroDescriptor | Some x \<Rightarrow> x"
  have gate: "proves (allReady todo) (gateCall l c ?cls)
      (\<lambda>denied tr. allReady todo tr \<and> (denied = None \<longrightarrow> permitted tr c))"
    by (intro proves_and proves_lasting fromK_stays grows_gateCall lastingI proves_pre [OF gateCall_permits])
      simp_all
  have intent: "proves (\<lambda>tr. allReady todo tr \<and> permitted tr c)
      (seqP (appendEv l ActorSystem (ToolExecutionStarted (tcID c) (tcName c) key))
        (gateCalls l classes cs (todo @ [\<lparr>seCall = c, seIdemKey = key, seParallel = p\<rparr>]) results))
      (\<lambda>(todo', _). allReady todo')" for key p
  proof (rule proves_seq [OF proves_weaken [OF proves_append [where L = "\<lambda>tr. allReady todo tr \<and> permitted tr c"]] Cons.IH])
    show "lasting (\<lambda>tr. allReady todo tr \<and> permitted tr c)" by (intro lastingI)
  qed (auto simp: allReady_def ready_def)
  show ?case
    unfolding gateCalls.simps Let_def
  proof (rule proves_bind [OF gate])
    fix denied :: "ToolOutput option"
    show "proves (\<lambda>tr. allReady todo tr \<and> (denied = None \<longrightarrow> permitted tr c))
      (case denied of Some obs \<Rightarrow> gateCalls l classes cs todo (results(tcID c \<mapsto> obs))
       | None \<Rightarrow> bindP getP (\<lambda>st. seqP (appendEv l ActorSystem (ToolExecutionStarted (tcID c) (tcName c)
            (deriveIdempotencyKey (dpSha (lpDeps l)) (rsSessionID st) (rsLastAssistantSeq st))))
          (gateCalls l classes cs (todo @ [\<lparr>seCall = c, seIdemKey = deriveIdempotencyKey (dpSha (lpDeps l))
             (rsSessionID st) (rsLastAssistantSeq st), seParallel = runsParallel ?cls\<rparr>]) results)))
      (\<lambda>(todo', _). allReady todo')"
      using intent proves_pre [OF Cons.IH] by (cases denied) (simp_all add: proves_getP)
  qed
qed (simp add: proves_ret)

section \<open>Execution\<close>

lemma fromK_effect:
  "(\<And>tr r. K tr \<Longrightarrow> okAct tr (mk r)) \<Longrightarrow> fromK K (callP f mk)"
  by (auto simp: fromK_def grows_def callP_def bindP_def seqP_def askP_def noteP_def retP_def split: prod.splits)

lemma fromK_orFail: "fromK K p \<Longrightarrow> fromK K (orFail wrap p)"
  unfolding orFail_def
  by (rule fromK_bind [where L = "\<lambda>_ _. True"])
    (auto simp: proves_def split: sum.splits intro: fromK_stays staysI preorder_grows)

lemma fromK_get: "(\<And>st. fromK K (f st)) \<Longrightarrow> fromK K (bindP getP f)"
  by (simp add: fromK_def bindP_def getP_def)

lemma fromK_then: "fromK K p \<Longrightarrow> (\<And>x. stays grows (f x)) \<Longrightarrow> fromK K (bindP p f)"
  by (rule fromK_bind [where L = "\<lambda>_ _. True"]) (auto simp: proves_def intro: fromK_stays)

lemma grows_ret: "stays grows (retP x)"
  by (intro stays_ret preorder_grows)

lemma fromK_ret: "fromK K (retP x)"
  by (intro fromK_stays grows_ret)

lemma execVirtual_ready: "fromK (\<lambda>tr. ready tr c key) (execVirtual l cancelled c)"
proof -
  have eff: "fromK (\<lambda>tr. ready tr c key) (orFail ErrSpawn (callP f (SpawnCall sp)))"
    if "tcName c = toolNameSpawnSubagent" "parseSpawnArgs (tcArgs c) = Inr (ssTask sp, ssModel sp)" for f sp
    by (rule fromK_orFail, rule fromK_effect) (use that in \<open>auto simp: okAct_def\<close>)
  show ?thesis
    unfolding execVirtual_def Let_def
    by (auto split: sum.splits intro!: fromK_get fromK_then [OF eff] fromK_ret grows_ret)
qed

lemma execOne_ready: "fromK (\<lambda>tr. ready tr (seCall e) (seIdemKey e)) (execOne l cancelled e)"
proof (cases "isVirtualTool (tcName (seCall e))")
  case True
  then show ?thesis using execVirtual_ready by (simp add: execOne_def Let_def)
next
  case False
  then have "fromK (\<lambda>tr. ready tr (seCall e) (seIdemKey e)) (orFail wrap (callP f (ExecuteCall
      \<lparr>teSessionID = sid, teCall = seCall e, teIdempotencyKey = seIdemKey e\<rparr>)))" for wrap f sid
    by (intro fromK_orFail fromK_effect) (simp add: okAct_def)
  with False show ?thesis
    unfolding execOne_def Let_def
    by (auto intro!: fromK_get fromK_then staysI preorder_grows)
qed

lemma runWorker_ready: "fromK (\<lambda>tr. ready tr (seCall e) (seIdemKey e)) (runWorker l e d)"
  unfolding runWorker_def by (intro fromK_then fromK_try execOne_ready staysI preorder_grows)

lemma set_removeNth: "set (removeNth n xs) \<subseteq> set xs"
  by (auto simp: removeNth_def dest: in_set_takeD in_set_dropD)

lemma allReady_mono: "allReady es tr \<Longrightarrow> set es' \<subseteq> set es \<Longrightarrow> allReady es' tr"
  by (auto simp: allReady_def)

lemma fromK_keep:
  assumes "fromK K p" and "\<And>tr. allReady es tr \<Longrightarrow> K tr" and "\<And>x. fromK (allReady es) (f x)"
  shows "fromK (allReady es) (bindP p f)"
proof (rule fromK_bind [where L = "\<lambda>_. allReady es"])
  show p: "fromK (allReady es) p" using assms(1,2) by (rule fromK_weaken)
  show "proves (allReady es) p (\<lambda>_. allReady es)" by (rule proves_lasting [OF p lasting_allReady])
qed (rule assms(3))

lemma fromK_ask: "(\<And>x. fromK (allReady es) (f x)) \<Longrightarrow> fromK (allReady es) (bindP (askP g) f)"
  by (rule fromK_keep [OF fromK_stays [OF grows_ask, where K = "\<lambda>_. True"]]) simp_all

lemma fromK_if: "(b \<Longrightarrow> fromK K p) \<Longrightarrow> (\<not> b \<Longrightarrow> fromK K q) \<Longrightarrow> fromK K (if b then p else q)"
  by simp

lemma fromK_case_list:
  "(x = [] \<Longrightarrow> fromK K p) \<Longrightarrow> (\<And>y ys. x = y # ys \<Longrightarrow> fromK K (f y ys)) \<Longrightarrow>
   fromK K (case x of [] \<Rightarrow> p | y # ys \<Rightarrow> f y ys)"
  by (cases x) auto

lemma dispatchLoop_ready: "fromK (allReady (todo @ pool)) (dispatchLoop l limit todo pool d)"
proof (induction "2 * length todo + length pool" arbitrary: todo pool d rule: less_induct)
  case less
  let ?worker = "\<lambda>n. let k = n mod length pool in
      bindP (runWorker l (pool ! k) d) (\<lambda>d'. dispatchLoop l limit todo (removeNth k pool) d')"
  let ?serial = "\<lambda>e es. bindP (tryP (execOne l (dsGroupErr d \<noteq> None) e)) (\<lambda>r. case r of
        Inl err \<Rightarrow> dispatchLoop l limit [] pool (d\<lparr>dsSerialErr := Some err\<rparr>)
      | Inr x \<Rightarrow> dispatchLoop l limit es pool (recordExec (tcID (seCall e)) x d))"
  have IH: "fromK (allReady (todo @ pool)) (dispatchLoop l limit todo' pool' d')"
    if "2 * length todo' + length pool' < 2 * length todo + length pool"
      "set todo' \<union> set pool' \<subseteq> set todo \<union> set pool" for todo' pool' d'
    using less [OF that(1)] by (rule fromK_weaken) (use that(2) in \<open>auto simp: allReady_def\<close>)
  have worker: "fromK (allReady (todo @ pool)) (?worker n)" if "pool \<noteq> []" for n
    unfolding Let_def
  proof (rule fromK_keep [OF runWorker_ready])
    have "pool ! (n mod length pool) \<in> set pool" using that by simp
    then show "allReady (todo @ pool) tr \<Longrightarrow> ready tr (seCall (pool ! (n mod length pool))) (seIdemKey (pool ! (n mod length pool)))" for tr
      by (auto simp: allReady_def)
    show "fromK (allReady (todo @ pool)) (dispatchLoop l limit todo (removeNth (n mod length pool) pool) x)" for x
      using that set_removeNth [of _ pool] by (intro IH) (auto simp: length_removeNth)
  qed
  have serial: "fromK (allReady (todo @ pool)) (?serial e es)" if "todo = e # es" for e es
  proof (rule fromK_keep [OF fromK_try [OF execOne_ready]])
    show "allReady (todo @ pool) tr \<Longrightarrow> ready tr (seCall e) (seIdemKey e)" for tr
      using that by (simp add: allReady_def)
    show "fromK (allReady (todo @ pool)) (case r of
        Inl err \<Rightarrow> dispatchLoop l limit [] pool (d\<lparr>dsSerialErr := Some err\<rparr>)
      | Inr x \<Rightarrow> dispatchLoop l limit es pool (recordExec (tcID (seCall e)) x d))" for r
      using that IH [of "[]" pool] IH [of es pool] by (cases r) auto
  qed
  have par: "fromK (allReady (todo @ pool)) (dispatchLoop l limit es (pool @ [e]) d)" if "todo = e # es" for e es
    using that by (intro IH) auto
  show ?case
    by (subst dispatchLoop.simps)
      (intro fromK_if fromK_ret fromK_ask fromK_case_list worker serial par; blast)
qed

lemma dispatch_ready: "fromK (allReady execs) (dispatch l execs)"
proof -
  have "fromK (allReady execs) (dispatchLoop l limit execs [] d)" for limit d
    using dispatchLoop_ready [of execs "[]"] by simp
  then show ?thesis
    unfolding dispatch_def by (rule fromK_then) (intro staysI preorder_grows)
qed

lemma grows_handleToolCalls [staysI]: "stays grows (handleToolCalls l msg)"
proof -
  have round: "stays grows (bindP (gateCalls l classes calls [] Map.empty) (\<lambda>(todo, denied).
      bindP (dispatch l todo) (\<lambda>(dispatched, plans).
      seqP (appendResults l (denied ++ dispatched) plans calls)
      (seqP (appendEv l ActorTool (MessageAppended (toolMessage (denied ++ dispatched) calls))) (retP turnContinue)))))"
    for classes calls
  proof (rule stays_fromK, rule fromK_bind [OF fromK_stays [OF grows_gateCalls]])
    show "proves (\<lambda>_. True) (gateCalls l classes calls [] Map.empty) (\<lambda>(todo, _). allReady todo)"
      by (rule proves_pre [OF gateCalls_ready]) (simp add: allReady_def)
    show "fromK ((\<lambda>(todo, _). allReady todo) x) (case x of (todo, denied) \<Rightarrow>
        bindP (dispatch l todo) (\<lambda>(dispatched, plans).
        seqP (appendResults l (denied ++ dispatched) plans calls)
        (seqP (appendEv l ActorTool (MessageAppended (toolMessage (denied ++ dispatched) calls))) (retP turnContinue))))"
      for x
      by (cases x) (auto intro!: fromK_then dispatch_ready staysI preorder_grows)
  qed
  show ?thesis
    unfolding handleToolCalls_def Let_def by (intro staysI preorder_grows round)
qed

section \<open>Turns, resumption and runs\<close>

lemma grows_recordTurn [staysI]: "stays grows (recordTurn l turnID a)"
  unfolding recordTurn_def by (intro staysI preorder_grows) (auto simp: isEffect_def)

lemma grows_turnBody [staysI]: "stays grows (turnBody l turnID req)"
  unfolding turnBody_def afterStream_def by (intro staysI preorder_grows) (auto simp: isEffect_def)

lemma grows_runTurn [staysI]: "stays grows (runTurn l)"
  unfolding runTurn_def by (intro staysI preorder_grows)

definition suspendedCall :: "SuspendedApproval \<Rightarrow> ToolCall" where
  "suspendedCall sa = \<lparr>tcID = saCallID sa, tcName = saToolName sa, tcArgs = saArgs sa\<rparr>"

lemma resumeResolved_ready:
  "fromK (\<lambda>tr. resolution = AskAllowed \<longrightarrow> humanAllowed tr (suspendedCall sa)) (resumeResolved l sa n resolution)"
proof -
  let ?c = "suspendedCall sa"
  have dec: "proves (\<lambda>tr. resolution = AskAllowed \<longrightarrow> humanAllowed tr ?c)
      (decide l ?c PermissionAsk resolution rule reason) (\<lambda>_ tr. resolution = AskAllowed \<longrightarrow> permitted tr ?c)" for rule reason
    by (rule proves_weaken [OF proves_decide [where L = "\<lambda>tr. resolution = AskAllowed \<longrightarrow> humanAllowed tr ?c"]])
      (auto intro!: lastingI simp: permitted_def)
  have intent: "proves (\<lambda>tr. permitted tr ?c) (appendEv l ActorSystem (ToolExecutionStarted (tcID ?c) (tcName ?c) key))
      (\<lambda>_ tr. ready tr ?c key)" for key
    by (rule proves_weaken [OF proves_append [where L = "\<lambda>tr. permitted tr ?c"]])
      (auto intro!: lastingI simp: ready_def)
  have exec: "fromK (\<lambda>tr. permitted tr ?c) (seqP (appendEv l ActorSystem (ToolExecutionStarted (tcID ?c) (tcName ?c) key))
      (bindP (execOne l b \<lparr>seCall = ?c, seIdemKey = key, seParallel = p\<rparr>) (\<lambda>(res, _). feedToolResult l ?c res)))" for key b p
    using execOne_ready [of "\<lparr>seCall = ?c, seIdemKey = key, seParallel = p\<rparr>" l b]
    by (intro fromK_seq [OF fromK_stays [OF grows_append] intent] fromK_then) (auto intro!: staysI)
  have ids: "tcID ?c = saCallID sa" "tcName ?c = saToolName sa" by (simp_all add: suspendedCall_def)
  show ?thesis
    unfolding resumeResolved_def Let_def suspendedCall_def [symmetric]
  proof (rule fromK_seq [OF fromK_stays [OF grows_decide] dec], rule fromK_if)
    show "fromK K (feedToolResult l ?c r)" for K r
      by (intro fromK_stays grows_feedToolResult)
  next
    assume "\<not> resolution \<noteq> AskAllowed"
    then show "fromK (\<lambda>tr. resolution = AskAllowed \<longrightarrow> permitted tr ?c) (bindP getP (\<lambda>st.
        seqP (appendEv l ActorSystem (ToolExecutionStarted (saCallID sa) (saToolName sa)
          (deriveIdempotencyKey (dpSha (lpDeps l)) (rsSessionID st) n)))
        (bindP (execOne l False \<lparr>seCall = ?c, seIdemKey = deriveIdempotencyKey (dpSha (lpDeps l)) (rsSessionID st) n,
           seParallel = False\<rparr>) (\<lambda>(res, _). feedToolResult l ?c res))))"
      using exec by (intro fromK_get) (simp add: ids)
  qed
qed

lemma grows_resumeSuspendedApproval [staysI]: "stays grows (resumeSuspendedApproval l sa n)"
proof -
  have call: "proves (\<lambda>_. True) (callP f (ApprovalCall \<lparr>apSessionID = sid, apCallID = saCallID sa,
      apToolName = saToolName sa, apReason = saReason sa, apArgs = saArgs sa\<rparr> dl))
      (\<lambda>r tr. r = Inr AskAllowed \<longrightarrow> humanAllowed tr (suspendedCall sa))" for f sid dl
    by (rule proves_call) (fastforce simp: humanAllowed_def suspendedCall_def)
  have inner: "stays grows (bindP (callP f (ApprovalCall \<lparr>apSessionID = sid, apCallID = saCallID sa,
      apToolName = saToolName sa, apReason = saReason sa, apArgs = saArgs sa\<rparr> dl)) (\<lambda>r. case r of
        Inl e \<Rightarrow> bindP (askP (dpCtxErr (lpDeps l))) (\<lambda>cancelled.
          if cancelled then failP (ErrReraise e) else seqP (abandonSuspendedApproval l sa) (retP True))
      | Inr resolution \<Rightarrow> seqP (resumeResolved l sa n resolution) (retP False)))" for f sid dl
  proof (rule stays_fromK, rule fromK_bind [OF fromK_stays call])
    show "fromK (\<lambda>tr. r = Inr AskAllowed \<longrightarrow> humanAllowed tr (suspendedCall sa)) (case r of
        Inl e \<Rightarrow> bindP (askP (dpCtxErr (lpDeps l))) (\<lambda>cancelled.
          if cancelled then failP (ErrReraise e) else seqP (abandonSuspendedApproval l sa) (retP True))
      | Inr resolution \<Rightarrow> seqP (resumeResolved l sa n resolution) (retP False))" for r
    proof (cases r)
      case (Inl e)
      then show ?thesis by simp (intro fromK_stays staysI preorder_grows)
    next
      case (Inr b)
      then show ?thesis using fromK_then [OF resumeResolved_ready grows_ret] by (simp add: seqP_def)
    qed
  qed (intro staysI; simp add: isEffect_def)
  show ?thesis
    unfolding resumeSuspendedApproval_def Let_def
    by (rule stays_seq [OF preorder_grows grows_set], rule stays_bind [OF preorder_grows stays_get [OF preorder_grows] inner])
qed

lemma grows_resumeApprovals [staysI]: "stays grows (resumeApprovals l events sas)"
proof (induction sas)
  case (Cons sa sas)
  show ?case unfolding resumeApprovals.simps by (intro staysI preorder_grows Cons)
qed (simp add: staysI)

lemma grows_adjudicateResume [staysI]: "stays grows (adjudicateResume l)"
  unfolding adjudicateResume_def by (intro staysI preorder_grows)

lemma stays_at: "stays R p \<Longrightarrow> R m (fst (p m))"
  by (simp add: stays_def)

lemma grows_runLoop [staysI]: "stays grows (runLoop l)"
  unfolding stays_def
proof
  fix m :: "'a machine"
  have trans: "grows a b \<Longrightarrow> grows b c \<Longrightarrow> grows a c" for a b c :: "'a machine"
    using preorder_grows by (auto simp: preorder_def)
  show "grows m (fst (runLoop l m))"
  proof (induction l m rule: runLoop.induct)
    case (1 l m)
    have "grows m (fst (terminate l reason m))" for reason
      by (rule stays_at [OF grows_terminate])
    moreover have "grows m m'" if "runTurn l m = (m', r)" for m' r
      using stays_use [OF grows_runTurn that] .
    moreover have "grows m' (fst (finish l reason m'))" for m' reason
      by (rule stays_at [OF grows_finish])
    ultimately show ?case
      using 1 by (subst runLoop.simps) (auto split: prod.splits sum.splits turnOutcome.splits intro: trans)
  qed
qed

lemma grows_runBody: "stays grows (runBody l inp)"
  unfolding runBody_def by (intro staysI preorder_grows) (auto simp: isEffect_def)

lemma run_authorised: "Run l inp e = (e', tr, r) \<Longrightarrow> authorised tr"
  using grows_runBody [of l inp]
  by (auto simp: Run_def stays_def grows_def split: prod.splits) (metis fst_conv machine.select_convs(3) authorised_Nil)

end
