(* ===== verification/AgentBound.thy ===== *)
theory AgentBound
  imports AgentAuth
begin

text \<open>
  Bounds and accounts of a run. \<open>runStep\<close> is the frame of the whole run: every call added is well-typed
  and the model is called at most \<open>maxPauseContinuations\<close> times per counted turn. The accounts are a
  triple: a function that returns normally leaves the run's usage and cost equal to what the events the
  store accepted say.
\<close>

section \<open>The frame of a resume\<close>

lemma calm_feedToolResult [staysI]: "stays calmStep (feedToolResult l c r)"
  unfolding feedToolResult_def
  by (intro staysI preorder_calmStep)
    (simp_all add: event_defs resultEvent_def wfMessage_def isResultPart_def resultPart_def)

lemma calm_abandon [staysI]: "stays calmStep (abandonSuspendedApproval l sa)"
  unfolding abandonSuspendedApproval_def
  by (intro staysI preorder_calmStep calm_acts) (simp_all add: event_defs calm_defs)

lemma calm_resumeResolved [staysI]: "stays calmStep (resumeResolved l sa q resolution)"
  unfolding resumeResolved_def
  by (intro staysI preorder_calmStep) (simp_all add: event_defs)

lemma calm_resumeSuspendedApproval [staysI]: "stays calmStep (resumeSuspendedApproval l sa q)"
  unfolding resumeSuspendedApproval_def
  by (intro staysI preorder_calmStep calm_act calm_run) (simp_all add: calm_defs)

lemma calm_resumeApprovals [staysI]: "stays calmStep (resumeApprovals l events sas)"
proof (induction sas)
  case (Cons sa sas)
  show ?case unfolding resumeApprovals.simps by (intro staysI preorder_calmStep Cons)
qed (simp add: staysI)

lemma frame_closeOpenTurns: "stays frameStep (closeOpenTurns l ots)"
proof (induction ots)
  case (Cons ot ots)
  show ?case
    unfolding closeOpenTurns.simps by (intro staysI preorder_frame frame_spent frame_abortTurn Cons)
qed (simp add: staysI)

lemma frame_adjudicateResume: "stays frameStep (adjudicateResume l)"
  unfolding adjudicateResume_def
  by (intro staysI preorder_frame frame_closeOpenTurns stays_bounded_calm [OF calm_loadEvents]
      stays_bounded_calm [OF calm_listTools] stays_bounded_calm [OF calm_resumeApprovals])

section \<open>The frame of the start of a run\<close>

lemma calm_loadSession:
  "stays calmStep (orFail ErrLoadSession (callP (dpLoadSession (lpDeps l) sid) (LoadSessionCall sid)))"
  by (intro staysI preorder_calmStep calm_act) (simp add: calm_defs)

lemma calm_setHead: "stays calmStep (setP (\<lambda>st. st\<lparr>rsHeadSeq := q\<rparr>))"
  by (intro stays_set calm_run) (simp_all add: sameRun_def sameCounts_def)

lemma calm_userMessage:
  "stays calmStep (if hasContent msg then appendEv l ActorUser (MessageAppended msg) else retP ())"
  by (intro stays_if calm_append stays_ret preorder_calmStep) (simp add: event_defs wfMessage_def hasContent_def)

section \<open>Bounds\<close>

definition runStep :: "'e machine \<Rightarrow> 'e machine \<Rightarrow> bool" where
  "runStep m m' \<longleftrightarrow> sameRun (mcRun m) (mcRun m') \<and>
     (\<exists>t. mcTrace m' = mcTrace m @ t \<and> list_all wfAct t \<and>
        int (streams t) \<le> int maxPauseContinuations * (rsNumTurns (mcRun m') - rsNumTurns (mcRun m)))"

lemma preorder_runStep: "preorder runStep"
  unfolding preorder_def
proof (intro conjI allI impI)
  fix x y z :: "'e machine"
  show "runStep x x" by (simp add: runStep_def sameRun_def)
  assume "runStep x y" "runStep y z"
  then obtain s t where "mcTrace y = mcTrace x @ s" "list_all wfAct s" "mcTrace z = mcTrace y @ t" "list_all wfAct t"
    "int (streams s) \<le> int maxPauseContinuations * (rsNumTurns (mcRun y) - rsNumTurns (mcRun x))"
    "int (streams t) \<le> int maxPauseContinuations * (rsNumTurns (mcRun z) - rsNumTurns (mcRun y))"
    "sameRun (mcRun x) (mcRun y)" "sameRun (mcRun y) (mcRun z)"
    unfolding runStep_def by blast
  then show "runStep x z"
    by (auto simp: runStep_def sameRun_def algebra_simps intro!: exI [of _ "s @ t"])
qed

lemma turn_runStep: "turnStep a b \<Longrightarrow> runStep a b"
  unfolding turnStep_def runStep_def by (auto simp: algebra_simps)

lemma turn_counts_up: "turnStep a b \<Longrightarrow> rsNumTurns (mcRun b) \<le> rsNumTurns (mcRun a) + 1"
  unfolding turnStep_def by auto

lemma frame_runStep: "frameStep a b \<Longrightarrow> runStep a b \<and> rsNumTurns (mcRun b) = rsNumTurns (mcRun a)"
  using turn_runStep [OF frame_turn] by (auto simp: boundedStep_def)

lemma frame_terminate: "stays frameStep (terminate l reason)"
  by (rule stays_bounded_calm [OF calm_terminate])

lemma frame_finish: "stays frameStep (finish l reason)"
  by (rule stays_bounded_calm [OF calm_finish])

definition withinTurns :: "'e Loop \<Rightarrow> 'e machine \<Rightarrow> 'e machine \<Rightarrow> bool" where
  "withinTurns l m m' \<longleftrightarrow> runStep m m' \<and>
     (rsNumTurns (mcRun m) \<le> effectiveMaxTurns l \<longrightarrow> rsNumTurns (mcRun m') \<le> effectiveMaxTurns l)"

lemma preorder_within [simp]: "preorder (withinTurns l)"
  using preorder_runStep unfolding withinTurns_def preorder_def by blast

lemma within_trans: "withinTurns l a b \<Longrightarrow> withinTurns l b c \<Longrightarrow> withinTurns l a c"
  using preorder_within unfolding preorder_def by blast

lemma frame_within: "frameStep a b \<Longrightarrow> withinTurns l a b"
  using frame_runStep [of a b] by (simp add: withinTurns_def)

lemma within_runLoop: "withinTurns l m (fst (runLoop l m))"
proof (induction l m rule: runLoop.induct)
  case (1 l m)
  have "withinTurns l m (fst (terminate l reason m))" for reason
    by (rule frame_within [OF stays_at [OF frame_terminate]])
  moreover have "withinTurns l m m'" if "runTurn l m = (m', r)" "rsNumTurns (mcRun m) < effectiveMaxTurns l" for m' r
    using stays_use [OF runTurn_turnStep that(1)] that(2) turn_runStep turn_counts_up
    by (fastforce simp: withinTurns_def)
  moreover have "withinTurns l m' (fst (finish l reason m'))" for m' reason
    by (rule frame_within [OF stays_at [OF frame_finish]])
  ultimately show ?case
    using 1 by (subst runLoop.simps) (auto split: prod.splits sum.splits turnOutcome.splits intro: within_trans)
qed


lemma within_runBody: "stays (withinTurns l) (runBody l inp)"
proof -
  have loop: "stays (withinTurns l) (runLoop l)" by (simp add: stays_def within_runLoop)
  have frame: "stays (withinTurns l) p" if "stays frameStep p" for p :: "('a, 'b) prog"
    using that by (rule stays_mono) (rule frame_within)
  have calm: "stays (withinTurns l) p" if "stays calmStep p" for p :: "('a, 'b) prog"
    by (rule frame [OF stays_bounded_calm [OF that]])
  show ?thesis
    unfolding runBody_def seqP_def
    by (intro stays_bind [OF preorder_within] calm [OF calm_loadSession] calm [OF calm_setHead] calm [OF calm_userMessage]
        frame [OF frame_adjudicateResume] stays_case_option loop stays_ret preorder_within)
qed

lemma Run_within:
  assumes "Run l inp e = (e', tr, r)"
  obtains m where "runBody l inp \<lparr>mcRun = initialRun l inp, mcEnv = e, mcTrace = []\<rparr> = (m, r)" "tr = mcTrace m"
    "list_all wfAct tr" "int (streams tr) \<le> int maxPauseContinuations * rsNumTurns (mcRun m)"
    "rsNumTurns (mcRun m) \<le> effectiveMaxTurns l"
proof -
  let ?m0 = "\<lparr>mcRun = initialRun l inp, mcEnv = e, mcTrace = []\<rparr>"
  obtain m where m: "runBody l inp ?m0 = (m, r)" "tr = mcTrace m"
    using assms by (auto simp: Run_def split: prod.splits)
  moreover have "0 \<le> effectiveMaxTurns l" by (simp add: effectiveMaxTurns_def DefaultMaxTurns_def)
  ultimately show thesis
    using stays_use [OF within_runBody m(1)] that by (auto simp: withinTurns_def runStep_def initialRun_def)
qed

section \<open>Accounts\<close>

text \<open>The usage and cost the run has counted, and those the accepted events carry.\<close>

definition acct :: "'e machine \<Rightarrow> (Usage \<times> cost) \<times> Usage \<times> cost" where
  "acct m = ((rsUsage (mcRun m), rsCost (mcRun m)), spentUsage (mcTrace m), spentCost (mcTrace m))"

abbreviation leaves :: "('e machine \<Rightarrow> bool) \<Rightarrow> ('e, 'a) prog \<Rightarrow> ('a \<Rightarrow> 'e machine \<Rightarrow> bool) \<Rightarrow> bool" where
  "leaves P p R \<equiv> triple P p (onOk R (\<lambda>_. True))"

abbreviation holds :: "(Usage \<times> cost) \<times> Usage \<times> cost \<Rightarrow> 'e machine \<Rightarrow> bool" where
  "holds a \<equiv> \<lambda>m. acct m = a"

definition balanced :: "'e machine \<Rightarrow> bool" where
  "balanced m \<longleftrightarrow> fst (acct m) = snd (acct m)"

lemma calm_acct: "calmStep m m' \<Longrightarrow> acct m' = acct m"
  using calm_free by (fastforce simp: calmStep_def sameCounts_def acct_def)

definition sameAcct :: "'e machine \<Rightarrow> 'e machine \<Rightarrow> bool" where
  "sameAcct m m' \<longleftrightarrow> acct m' = acct m"

lemma same_leaves: "stays sameAcct p \<Longrightarrow> yields V p \<Longrightarrow> leaves (holds a) p (\<lambda>x m. holds a m \<and> V x)"
  by (auto simp: triple_def onOk_def yields_def sameAcct_def split: prod.splits sum.splits dest!: stays_use)

lemma calm_leaves: "stays calmStep p \<Longrightarrow> leaves (holds a) p (\<lambda>_. holds a)"
proof -
  assume "stays calmStep p"
  then have "stays sameAcct p" by (rule stays_mono) (simp add: sameAcct_def calm_acct)
  from same_leaves [OF this yields_any] show ?thesis by simp
qed

lemma same_streams: "stays sameAcct (streamWithContinuations n l turnID req)"
proof (induction n arbitrary: req)
  case (Suc n)
  have pre: "preorder (sameAcct :: 'a machine \<Rightarrow> 'a machine \<Rightarrow> bool)" by (simp add: preorder_def sameAcct_def)
  have acts: "sameAcct m (m\<lparr>mcTrace := mcTrace m @ xs\<rparr>)"
    if "list_all (\<lambda>x. actUsage x = zeroUsage \<and> actCost x = 0) xs" for m :: "'a machine" and xs
    using that by (induction xs rule: rev_induct) (auto simp: sameAcct_def acct_def)
  show ?case
    unfolding streamWithContinuations.simps
    by (intro staysI pre acts Suc)
      (auto simp: sameAcct_def acct_def actUsage_def actCost_def forwarded_def list_all_iff split: StreamEvent.splits if_splits)
qed (simp add: stays_def retP_def sameAcct_def)

lemma spend_leaves: "leaves (holds ((u, c), a)) (setP (addSpent x y)) (\<lambda>_. holds ((addUsage u x, c + y), a))"
  by (simp add: triple_def setP_def addSpent_def acct_def)

lemma append_leaves:
  "leaves (holds (a, u, c)) (appendEv l actor ev) (\<lambda>_. holds (a, addUsage u (eventUsage ev), c + eventCost ev))"
  by (auto simp: triple_def appendEv_def Let_def orFail_def callP_def bindP_def seqP_def askP_def noteP_def retP_def
      failP_def getP_def setP_def acct_def actUsage_def actCost_def split: prod.splits sum.splits)

lemma abort_leaves:
  "leaves (holds (a, u, c)) (abortTurn l turnID x y) (\<lambda>_. holds (a, addUsage u x, c + y))"
  unfolding abortTurn_def
  using append_leaves [of a u c l ActorSystem "TurnAborted turnID ErrorDuringExecution x y"]
  by (simp add: eventUsage_def eventCost_def)

text \<open>Abort and count, or count and record: either way the accounts meet again.\<close>

lemma leaves_seq: "leaves P p (\<lambda>_. Q) \<Longrightarrow> leaves Q q R \<Longrightarrow> leaves P (seqP p q) R"
  by (rule triple_seq)

lemma leaves_calm_seq:
  "stays calmStep p \<Longrightarrow> leaves (holds a) q R \<Longrightarrow> leaves (holds a) (seqP p q) R"
  by (rule leaves_seq [OF calm_leaves])

lemma leaves_calm_bind:
  "stays calmStep p \<Longrightarrow> (\<And>x. leaves (holds a) (f x) R) \<Longrightarrow> leaves (holds a) (bindP p f) R"
  by (rule triple_bind [OF calm_leaves])

lemma leaves_balanced: "(\<And>u c. leaves (holds ((u, c), u, c)) p R) \<Longrightarrow> leaves balanced p R"
  unfolding triple_def balanced_def by (metis prod.collapse)

lemma balanced_calm: "stays calmStep p \<Longrightarrow> leaves (holds ((u, c), u, c)) p (\<lambda>_. balanced)"
  by (rule triple_post [OF calm_leaves]) (auto simp: onOk_def balanced_def split: sum.splits)

lemma calm_note_error: "stays calmStep (noteP [RunErrorMetric r])"
  by (intro stays_note calm_acts) (simp add: calm_defs)

lemma abort_counts:
  "leaves (holds ((u, c), u, c))
     (seqP (abortTurn l turnID x y) (seqP (setP (addSpent x y)) (seqP (noteP [RunErrorMetric r]) (retP z))))
     (\<lambda>_. balanced)"
  by (rule leaves_seq [OF abort_leaves], rule leaves_seq [OF spend_leaves], rule balanced_calm)
    (intro staysI preorder_calmStep calm_note_error)

lemma recordTurn_counts: "goodAssembled a \<Longrightarrow> leaves (holds ((u, c), u, c)) (recordTurn l turnID a) (\<lambda>_. balanced)"
proof -
  assume good: "goodAssembled a"
  then obtain d where d: "arDone a = Some d" "doneUsage a = dUsage d" by (auto simp: goodAssembled_def doneUsage_def)
  let ?ev = "\<lambda>y. AssistantMessage turnID (arMessage a) (dStopReason d) (dRawStopReason d) (dUsage d) y (dProviderRaw d)"
  have app: "leaves (holds ((addUsage u (dUsage d), c + y), u, c)) (appendEv l ActorAssistant (?ev y))
      (\<lambda>_. holds ((addUsage u (dUsage d), c + y), addUsage u (dUsage d), c + y))" for y
    using append_leaves [of _ u c l ActorAssistant "?ev y"] by (simp add: eventUsage_def eventCost_def)
  have seq: "stays calmStep (setP (\<lambda>st. st\<lparr>rsLastAssistantSeq := rsHeadSeq st\<rparr>))"
    by (intro stays_set calm_run) (simp_all add: sameRun_def sameCounts_def)
  have tail: "stays calmStep (case arOutcome a of OutcomeNeedsToolExecution \<Rightarrow> handleToolCalls l (arMessage a)
      | OutcomeFinal \<Rightarrow> classifyFinal l a
      | OutcomeNeedsContinuation \<Rightarrow> seqP (abortTurn l turnID (doneUsage a) 0)
          (seqP (noteP [RunErrorMetric ErrorDuringExecution]) (retP (turnAborted ErrorDuringExecution))))"
    using good by (cases "arOutcome a") (auto simp: goodAssembled_def intro: staysI)
  show ?thesis
  proof (cases "priceTurnUsage l (doneUsage a)")
    case (Inl e)
    then show ?thesis unfolding recordTurn_def by (simp add: abort_counts)
  next
    case (Inr y)
    then show ?thesis
      unfolding recordTurn_def
      by (simp add: d(1)) (unfold d(2), intro leaves_seq [OF spend_leaves] leaves_seq [OF app] balanced_calm
        stays_seq [OF preorder_calmStep seq] tail [unfolded d(2)])
  qed
qed

lemma closeOpenTurns_counts: "leaves balanced (closeOpenTurns l ots) (\<lambda>_. balanced)"
proof (induction ots)
  case (Cons ot ots)
  show ?case
    unfolding closeOpenTurns.simps Let_def
    by (rule leaves_balanced, rule leaves_seq [OF spend_leaves], rule leaves_seq [OF abort_leaves], rule triple_pre [OF Cons])
      (simp add: balanced_def)
qed (simp add: triple_def retP_def)

lemma turnBody_counts: "leaves balanced (turnBody l turnID req) (\<lambda>_. balanced)"
proof (rule leaves_balanced)
  fix u c
  have calm: "stays calmStep (appendEv l ActorSystem (TurnStarted turnID (lcModel (lpCfg l))))"
    by (intro staysI) (simp add: event_defs)
  let ?good = "\<lambda>res. case res of Inl _ \<Rightarrow> True | Inr a \<Rightarrow> goodAssembled a"
  have rest: "leaves (\<lambda>m. holds ((u, c), u, c) m \<and> ?good res) (afterStream l turnID res) (\<lambda>_. balanced)" for res
    by (cases "?good res"; cases res)
      (auto simp: triple_def [of "\<lambda>_. False"] abort_counts recordTurn_counts afterStream_def)
  show "leaves (holds ((u, c), u, c)) (turnBody l turnID req) (\<lambda>_. balanced)"
    unfolding turnBody_def
    by (rule leaves_calm_seq [OF calm], rule triple_bind [OF same_leaves [OF same_streams streamWithContinuations_good] rest])
qed

text \<open>A turn ends with the accounts met, and aborts for one reason only.\<close>

definition abortsAs :: "turnOutcome \<Rightarrow> bool" where
  "abortsAs out = (case out of turnAborted r \<Rightarrow> r = ErrorDuringExecution | _ \<Rightarrow> True)"

lemma runTurn_counts_up: "leaves balanced (runTurn l) (\<lambda>_. balanced)"
proof (rule leaves_balanced)
  fix u c
  have body: "leaves (holds ((u, c), u, c)) (seqP (setP (countTurn turnID)) (turnBody l turnID req)) (\<lambda>_. balanced)"
    for turnID req
  proof (rule leaves_seq [OF _ turnBody_counts])
    show "leaves (holds ((u, c), u, c)) (setP (countTurn turnID)) (\<lambda>_. balanced)"
      by (simp add: triple_def setP_def countTurn_def acct_def balanced_def)
  qed
  show "leaves (holds ((u, c), u, c)) (runTurn l) (\<lambda>_. balanced)"
    unfolding runTurn_def
    by (intro leaves_calm_bind calm_ask calm_buildRequest triple_if body balanced_calm stays_ret preorder_calmStep)
qed

lemma handleToolCalls_aborts: "yields abortsAs (handleToolCalls l msg)"
  unfolding handleToolCalls_def by (intro yieldsI) (simp_all add: abortsAs_def)

lemma classifyFinal_aborts: "yields abortsAs (classifyFinal l a)"
  unfolding classifyFinal_def by (intro yieldsI) (simp_all add: abortsAs_def)

lemma recordTurn_aborts: "yields abortsAs (recordTurn l turnID a)"
proof -
  have "yields abortsAs (case arOutcome a of OutcomeNeedsToolExecution \<Rightarrow> handleToolCalls l (arMessage a)
      | OutcomeFinal \<Rightarrow> classifyFinal l a
      | OutcomeNeedsContinuation \<Rightarrow> seqP (abortTurn l turnID (doneUsage a) 0)
          (seqP (noteP [RunErrorMetric ErrorDuringExecution]) (retP (turnAborted ErrorDuringExecution))))"
    by (cases "arOutcome a") (auto simp: abortsAs_def intro!: handleToolCalls_aborts classifyFinal_aborts yieldsI)
  then show ?thesis
    unfolding recordTurn_def by (intro yieldsI) (simp_all add: abortsAs_def)
qed

lemma runTurn_aborts: "yields abortsAs (runTurn l)"
  unfolding runTurn_def turnBody_def afterStream_def by (intro yieldsI recordTurn_aborts) (simp_all add: abortsAs_def)

text \<open>
  The result of a run agrees with the run's counters, the counters with the log, and unless the run was
  cut short the log ends the turn with the same numbers.
\<close>

definition settled :: "RunResult \<Rightarrow> 'e machine \<Rightarrow> bool" where
  "settled res m \<longleftrightarrow> balanced m \<and> rrUsage res = rsUsage (mcRun m) \<and> rrCostUSD res = rsCost (mcRun m) \<and>
     rrNumTurns res = rsNumTurns (mcRun m) \<and>
     (rrReason res = ErrorDuringExecution \<or>
      (\<exists>turnID. committed (mcTrace m) (TurnFinished turnID (rrReason res) (rrUsage res) (rrCostUSD res) (rrNumTurns res))))"

lemma leavesI: "(\<And>m m' x. P m \<Longrightarrow> p m = (m', Inr x) \<Longrightarrow> R x m') \<Longrightarrow> leaves P p R"
  by (auto simp: triple_def onOk_def split: prod.splits sum.splits)

lemma leavesD: "leaves P p R \<Longrightarrow> P m \<Longrightarrow> p m = (m', Inr x) \<Longrightarrow> R x m'"
  by (fastforce simp: triple_def)

lemma finishTurn_settles: "leaves balanced (finishTurn l turnID reason) settled"
proof (rule leavesI)
  fix m m' :: "'a machine" and res
  assume bal: "balanced m" and fin: "finishTurn l turnID reason m = (m', Inr res)"
  let ?ev = "TurnFinished turnID reason (rsUsage (mcRun m)) (rsCost (mcRun m)) (rsNumTurns (mcRun m))"
  from fin obtain m1 where app: "appendEv l ActorSystem ?ev m = (m1, Inr ())"
    and t: "\<exists>t. mcTrace m' = mcTrace m1 @ t" and res: "res = resultOf (mcRun m) reason"
    unfolding finishTurn_def by (auto simp: bindP_Inr seqP_Inr getP_def noteP_def retP_def split: if_splits)
  have "committed (mcTrace m1) ?ev"
    using proves_commit [of "\<lambda>_. True" l ActorSystem ?ev] app by (auto simp: proves_def)
  with t have "committed (mcTrace m') ?ev"
    using lasting_committed [of ?ev] by (auto simp: lasting_def)
  with bal res show "settled res m'"
    using stays_use [OF calm_finishTurn fin] calm_acct [of m m']
    by (auto simp: settled_def balanced_def resultOf_def calmStep_def sameCounts_def)
qed

lemma finish_settles: "leaves balanced (finish l reason) settled"
  unfolding finish_def
  by (rule triple_bind [where S = "\<lambda>_. balanced"]) (simp_all add: triple_def [where p = getP] getP_def finishTurn_settles)

lemma terminate_settles: "leaves balanced (terminate l reason) settled"
proof (rule leaves_balanced)
  fix u c
  have "leaves (holds ((u, c), u, c)) (finishTurn l turnID reason) settled" for turnID
    by (rule triple_pre [OF finishTurn_settles]) (simp add: balanced_def)
  then show "leaves (holds ((u, c), u, c)) (terminate l reason) settled"
    unfolding terminate_def by (intro leaves_calm_bind leaves_calm_seq calm_ask calm_append) (simp_all add: event_defs)
qed

lemma aborted_settles: "balanced m \<Longrightarrow> settled (resultOf (mcRun m) ErrorDuringExecution) m"
  by (simp add: settled_def resultOf_def)

lemma runLoop_settles: "balanced m \<Longrightarrow> runLoop l m = (m', Inr res) \<Longrightarrow> settled res m'"
proof (induction l m rule: runLoop.induct)
  case (1 l m)
  note bal = 1(2) and run = 1(3) [unfolded runLoop.simps [of l m]]
  show ?case
  proof (cases "overBudget l (mcRun m) \<or> effectiveMaxTurns l \<le> rsNumTurns (mcRun m)")
    case True
    with run obtain reason where "terminate l reason m = (m', Inr res)" by (auto split: if_splits)
    with bal show ?thesis by (rule leavesD [OF terminate_settles])
  next
    case False
    with run obtain m1 out where turn: "runTurn l m = (m1, Inr out)"
      by (auto split: prod.splits sum.splits)
    then have b1: "balanced m1" and a1: "abortsAs out"
      using leavesD [OF runTurn_counts_up bal] runTurn_aborts [of l] by (auto simp: yields_def)
    show ?thesis
    proof (cases out)
      case (turnTerminal reason)
      with run turn False have "finish l reason m1 = (m', Inr res)" by auto
      with b1 show ?thesis by (rule leavesD [OF finish_settles])
    next
      case turnContinue
      with run turn False have "runLoop l m1 = (m', Inr res)" by auto
      with 1(1) [OF _ _ turn [symmetric] refl turnContinue b1] False show ?thesis by auto
    next
      case (turnAborted reason)
      with run turn False a1 b1 show ?thesis by (auto simp: abortsAs_def aborted_settles)
    qed
  qed
qed

lemma adjudicateResume_settles:
  "leaves balanced (adjudicateResume l) (\<lambda>r m. balanced m \<and> (case r of None \<Rightarrow> True | Some res \<Rightarrow> settled res m))"
proof (rule leaves_balanced)
  fix u c
  let ?R = "\<lambda>r m. balanced m \<and> (case r of None \<Rightarrow> True | Some res \<Rightarrow> settled res m)"
  have over: "leaves (holds ((u, c), u, c)) (bindP getP (\<lambda>st. retP (Some (resultOf st ErrorDuringExecution)))) ?R"
    by (rule leavesI) (auto simp: bindP_Inr getP_def retP_def balanced_def intro!: aborted_settles)
  have close: "leaves (holds ((u, c), u, c)) (seqP (closeOpenTurns l ots) (retP None)) ?R" for ots
    by (rule leaves_seq [OF triple_pre [OF closeOpenTurns_counts]])
      (auto simp: balanced_def triple_def retP_def)
  show "leaves (holds ((u, c), u, c)) (adjudicateResume l) ?R"
    unfolding adjudicateResume_def Let_def
    by (intro leaves_calm_bind calm_loadEvents calm_listTools calm_resumeApprovals triple_if over close)
      (auto simp: triple_def retP_def balanced_def)
qed

lemma runBody_settles: "leaves balanced (runBody l inp) settled"
proof (rule leaves_balanced)
  fix u :: Usage and c :: cost
  let ?a = "((u, c), u, c)"

  have loop: "leaves balanced (seqP (if hasContent msg then appendEv l ActorUser (MessageAppended msg) else retP ()) (runLoop l))
      settled" for msg
    by (rule leaves_balanced, rule leaves_seq [OF balanced_calm [OF calm_userMessage]], rule leavesI) (rule runLoop_settles)
  have resume: "leaves (\<lambda>m. balanced m \<and> (case r of None \<Rightarrow> True | Some res \<Rightarrow> settled res m))
      (case r of Some res \<Rightarrow> retP res | None \<Rightarrow>
         seqP (if hasContent msg then appendEv l ActorUser (MessageAppended msg) else retP ()) (runLoop l)) settled" for r msg
    using loop by (cases r) (simp_all add: triple_def [where p = "retP _"] retP_def)

  have "leaves (holds ?a) (bindP (adjudicateResume l) (\<lambda>r. case r of Some res \<Rightarrow> retP res | None \<Rightarrow>
         seqP (if hasContent msg then appendEv l ActorUser (MessageAppended msg) else retP ()) (runLoop l))) settled" for msg
    by (rule triple_bind [OF triple_pre [OF adjudicateResume_settles] resume]) (simp add: balanced_def)
  then show "leaves (holds ?a) (runBody l inp) settled"
    unfolding runBody_def by (intro leaves_calm_bind [OF calm_loadSession] leaves_calm_seq [OF calm_setHead])
qed

lemma Run_settled:
  assumes "Run l inp e = (e', tr, Inr res)"
  obtains m where "settled res m" "mcTrace m = tr" "runBody l inp \<lparr>mcRun = initialRun l inp, mcEnv = e, mcTrace = []\<rparr> = (m, Inr res)"
proof -
  let ?m0 = "\<lparr>mcRun = initialRun l inp, mcEnv = e, mcTrace = []\<rparr>"
  have "balanced ?m0" by (simp add: balanced_def acct_def initialRun_def)
  moreover obtain m where "runBody l inp ?m0 = (m, Inr res)" "mcTrace m = tr"
    using assms by (auto simp: Run_def split: prod.splits)
  ultimately show thesis using that leavesD [OF runBody_settles] by blast
qed

end
