(* ===== verification/AgentBudget.thy ===== *)
theory AgentBudget
  imports AgentBound
begin

text \<open>
  The cost limit: the model is never called when the cost the log shows is above the limit. Within a
  turn nothing is charged before the model has answered, so the test between two turns is enough.
\<close>

definition withinBudget :: "cost \<Rightarrow> act list \<Rightarrow> bool" where
  "withinBudget b tr \<longleftrightarrow> (\<forall>i < length tr. isStream (tr ! i) \<longrightarrow> spentCost (take i tr) \<le> b)"

lemma withinBudget_snoc: "withinBudget b (tr @ [x]) \<longleftrightarrow> withinBudget b tr \<and> (isStream x \<longrightarrow> spentCost tr \<le> b)"
  by (auto simp: withinBudget_def nth_append less_Suc_eq)

lemma withinBudget_quiet: "withinBudget b tr \<Longrightarrow> streams t = 0 \<Longrightarrow> withinBudget b (tr @ t)"
proof (induction t rule: rev_induct)
  case (snoc x t)
  then show ?case by (simp add: withinBudget_snoc flip: append_assoc split: if_splits)
qed simp

definition keeps :: "cost \<Rightarrow> 'e machine \<Rightarrow> 'e machine \<Rightarrow> bool" where
  "keeps b m m' \<longleftrightarrow> (withinBudget b (mcTrace m) \<longrightarrow> withinBudget b (mcTrace m'))"

lemma keeps_trans: "keeps b x y \<Longrightarrow> keeps b y z \<Longrightarrow> keeps b x z"
  by (simp add: keeps_def)

lemma frame_keeps: "frameStep m m' \<Longrightarrow> keeps b m m'"
  by (auto simp: boundedStep_def keeps_def intro: withinBudget_quiet)

text \<open>A program that may call the model, started where the cost is within the limit.\<close>

definition affordable :: "cost \<Rightarrow> ('e, 'a) prog \<Rightarrow> bool" where
  "affordable b p \<longleftrightarrow> (\<forall>m. spentCost (mcTrace m) \<le> b \<longrightarrow> keeps b m (fst (p m)))"

lemma affordable_frame: "stays frameStep p \<Longrightarrow> affordable b p"
  by (auto simp: affordable_def stays_def intro: frame_keeps)

lemma affordable_ret: "affordable b (retP x)"
  by (intro affordable_frame stays_ret preorder_frame)

lemma affordable_bind:
  assumes "affordable b p" and "stays sameAcct p" and "\<And>x. affordable b (f x)"
  shows "affordable b (bindP p f)"
  unfolding affordable_def
proof (intro allI impI)
  fix m :: "'a machine" assume le: "spentCost (mcTrace m) \<le> b"
  obtain m' r where p: "p m = (m', r)" by force
  have "keeps b m m'" using assms(1) le p unfolding affordable_def by (metis fst_conv)
  moreover have "spentCost (mcTrace m') \<le> b"
    using stays_use [OF assms(2) p] le by (simp add: sameAcct_def acct_def)
  ultimately show "keeps b m (fst (bindP p f m))"
    using p assms(3) by (cases r) (auto simp: bindP_def affordable_def intro: keeps_trans)
qed

lemma affordable_then:
  assumes "affordable b p" and "yields V p" and "\<And>x. V x \<Longrightarrow> stays frameStep (f x)"
  shows "affordable b (bindP p f)"
  unfolding affordable_def
proof (intro allI impI)
  fix m :: "'a machine" assume le: "spentCost (mcTrace m) \<le> b"
  obtain m' r where p: "p m = (m', r)" by force
  have "keeps b m m'" using assms(1) le p unfolding affordable_def by (metis fst_conv)
  then show "keeps b m (fst (bindP p f m))"
    using p assms(2,3)
    by (cases r) (auto simp: bindP_def yields_def stays_def intro!: keeps_trans [of b m m'] intro: frame_keeps)
qed

lemma calm_affordable_bind:
  assumes "stays calmStep p" and "\<And>x. affordable b (f x)"
  shows "affordable b (bindP p f)"
proof (rule affordable_bind [OF _ _ assms(2)])
  show "affordable b p" by (rule affordable_frame [OF stays_bounded_calm [OF assms(1)]])
  show "stays sameAcct p" using assms(1) by (rule stays_mono) (simp add: sameAcct_def calm_acct)
qed

lemma affordable_streams: "affordable b (streamWithContinuations n l turnID req)"
proof (induction n arbitrary: req)
  case 0
  show ?case by (simp add: affordable_frame staysI)
next
  case (Suc n)
  let ?call = "callP (dpStream (lpDeps l) req) (StreamCall req)"
  have call: "affordable b ?call" "stays sameAcct ?call"
    by (auto simp: affordable_def stays_def keeps_def sameAcct_def acct_def callP_def bindP_def seqP_def askP_def noteP_def retP_def
        withinBudget_snoc actUsage_def actCost_def split: prod.splits)
  have fwd: "stays calmStep (noteP (forwarded sid turnID reader))" for sid reader
    by (intro stays_note calm_acts)
      (auto simp: forwarded_def list_all_iff calm_defs split: StreamEvent.splits if_splits)
  have rest: "affordable b (seqP (noteP (forwarded sid turnID reader))
      (case Assemble (dpJSON (lpDeps l)) reader of
         (a, Some e) \<Rightarrow> retP (Inl (doneUsage a, ErrAssemble e))
       | (a, None) \<Rightarrow> if arOutcome a \<noteq> OutcomeNeedsContinuation then retP (Inr a)
           else streamWithContinuations n l turnID (req\<lparr>lrProviderRaw := doneRaw a\<rparr>)))" for sid reader
    unfolding seqP_def
    by (rule calm_affordable_bind [OF fwd])
      (auto split: prod.splits option.splits intro: Suc affordable_ret)
  show ?case
    unfolding streamWithContinuations.simps
    by (rule affordable_bind [OF call])
      (auto split: sum.splits intro!: affordable_ret calm_affordable_bind [OF stays_get] rest)
qed

lemma affordable_runTurn: "affordable b (runTurn l)"
proof -
  have body: "affordable b (turnBody l turnID req)" for turnID req
    unfolding turnBody_def seqP_def
    by (rule calm_affordable_bind [OF calm_append], simp add: event_defs)
      (rule affordable_then [OF affordable_streams streamWithContinuations_good frame_afterStream])
  have count: "affordable b (setP (countTurn turnID))" "stays sameAcct (setP (countTurn turnID))" for turnID
    by (simp_all add: affordable_def stays_def keeps_def sameAcct_def acct_def setP_def countTurn_def)
  have "affordable b (seqP (setP (countTurn turnID)) (turnBody l turnID req))" for turnID req
    unfolding seqP_def by (rule affordable_bind [OF count body])
  then show ?thesis
    unfolding runTurn_def
    by (intro calm_affordable_bind calm_ask calm_buildRequest)
      (simp add: affordable_ret calm_affordable_bind calm_ask calm_buildRequest)
qed

lemma keeps_runLoop:
  "balanced m \<Longrightarrow> 0 < lcMaxBudgetUSD (lpCfg l) \<Longrightarrow> keeps (lcMaxBudgetUSD (lpCfg l)) m (fst (runLoop l m))"
proof (induction l m rule: runLoop.induct)
  case (1 l m)
  let ?b = "lcMaxBudgetUSD (lpCfg l)"
  have stop: "keeps ?b m (fst (terminate l reason m))" for reason
    by (rule frame_keeps [OF stays_at [OF frame_terminate]])
  have fin: "keeps ?b m' (fst (finish l reason m'))" for m' reason
    by (rule frame_keeps [OF stays_at [OF frame_finish]])
  have turn: "keeps ?b m m'" if "runTurn l m = (m', r)" "\<not> overBudget l (mcRun m)" for m' r
  proof -
    have "spentCost (mcTrace m) \<le> ?b"
      using that(2) 1(2,3) by (auto simp: overBudget_def balanced_def acct_def)
    then show ?thesis using affordable_runTurn [of ?b l] that(1) unfolding affordable_def by (metis fst_conv)
  qed
  have again: "keeps ?b m' (fst (runLoop l m'))" if "runTurn l m = (m', Inr turnContinue)"
    "\<not> overBudget l (mcRun m)" "\<not> effectiveMaxTurns l \<le> rsNumTurns (mcRun m)" for m'
    using 1(1) [OF that(2,3) that(1) [symmetric] refl refl leavesD [OF runTurn_counts_up 1(2) that(1)] 1(3)] .
  show ?case
    using stop fin turn again
    by (subst runLoop.simps) (auto split: prod.splits sum.splits turnOutcome.splits intro: keeps_trans)
qed

definition fromBalance :: "cost \<Rightarrow> ('e, 'a) prog \<Rightarrow> bool" where
  "fromBalance b p \<longleftrightarrow> (\<forall>m. balanced m \<longrightarrow> keeps b m (fst (p m)))"

lemma fromBalance_bind:
  assumes "stays frameStep p" and "leaves balanced p (\<lambda>_. balanced)" and "\<And>x. fromBalance b (f x)"
  shows "fromBalance b (bindP p f)"
  unfolding fromBalance_def
proof (intro allI impI)
  fix m :: "'a machine" assume bal: "balanced m"
  obtain m' r where p: "p m = (m', r)" by force
  have "keeps b m m'" by (rule frame_keeps [OF stays_use [OF assms(1) p]])
  with p show "keeps b m (fst (bindP p f m))"
    using assms(3) leavesD [OF assms(2) bal]
    by (cases r) (auto simp: bindP_def fromBalance_def intro: keeps_trans)
qed

lemma fromBalance_calm:
  "stays calmStep p \<Longrightarrow> (\<And>x. fromBalance b (f x)) \<Longrightarrow> fromBalance b (bindP p f)"
  by (intro fromBalance_bind stays_bounded_calm leaves_balanced balanced_calm)

lemma Run_withinBudget:
  assumes "Run l inp e = (e', tr, r)" and "0 < lcMaxBudgetUSD (lpCfg l)"
  shows "withinBudget (lcMaxBudgetUSD (lpCfg l)) tr"
proof -
  let ?b = "lcMaxBudgetUSD (lpCfg l)" and ?m0 = "\<lparr>mcRun = initialRun l inp, mcEnv = e, mcTrace = []\<rparr>"
  have loop: "fromBalance ?b (runLoop l)" using keeps_runLoop assms(2) by (auto simp: fromBalance_def)
  have ret: "fromBalance ?b (retP res)" for res :: RunResult by (simp add: fromBalance_def keeps_def retP_def)
  have start: "fromBalance ?b (bindP (if hasContent msg then appendEv l ActorUser (MessageAppended msg) else retP ()) (\<lambda>_. runLoop l))"
    for msg by (intro fromBalance_calm [OF calm_userMessage] loop)
  have resume: "leaves balanced (adjudicateResume l) (\<lambda>_. balanced)"
    by (rule triple_post [OF adjudicateResume_settles]) (auto simp: onOk_def split: sum.splits)
  have "fromBalance ?b (runBody l inp)"
    unfolding runBody_def seqP_def
    by (intro fromBalance_calm [OF calm_loadSession] fromBalance_calm [OF calm_setHead])
      (rule fromBalance_bind [OF frame_adjudicateResume resume],
       simp only: ret start split: option.splits, simp)
  moreover have "balanced ?m0" by (simp add: balanced_def acct_def initialRun_def)
  ultimately have "keeps ?b ?m0 (fst (runBody l inp ?m0))" by (simp add: fromBalance_def)
  with assms(1) show ?thesis by (auto simp: Run_def keeps_def withinBudget_def split: prod.splits)
qed

end
