(* ===== verification/AgentDemo.thy ===== *)
theory AgentDemo
  imports AgentRun
begin

text \<open>
  A small environment on which a run can be evaluated: a log that checks the expected head, a model that
  plays a script, one read-only tool, hooks that allow, and the policy engine with no rules, so that
  every call is put to a human who answers as configured. The run below is allowed one turn; the model
  asks for the tool, the human lets it through, and the run ends at its turn limit.
\<close>

record demoWorld =
  deLog :: "EventEnvelope list"
  deCount :: int
  deScript :: "recv list list"
  deHuman :: "string + AskResolution"

definition demoEnvelope :: "string \<Rightarrow> int \<Rightarrow> string \<Rightarrow> AppendInput \<Rightarrow> EventEnvelope" where
  "demoEnvelope sid q req inp = \<lparr>envType = eventType (aiEvent inp), envSeq = q, envSessionID = sid, envTenantID = ''t'',
     envRequestID = req, envSchemaVersion = 1, envActor = aiActor inp, envCreatedAt = 0, envEvent = aiEvent inp,
     envPayloadCanonical = None, envContentHash = None, envChainHash = None\<rparr>"

definition demoAppend :: "string \<Rightarrow> int \<Rightarrow> int \<Rightarrow> string \<Rightarrow> AppendInput \<Rightarrow> (demoWorld, string + EventEnvelope list) port" where
  "demoAppend sid head epoch req inp e =
     (if head \<noteq> int (length (deLog e)) then (e, Inl ''conflict'')
      else let env = demoEnvelope sid (head + 1) req inp in (e\<lparr>deLog := deLog e @ [env]\<rparr>, Inr [env]))"

definition demoStream :: "ModelRequest \<Rightarrow> (demoWorld, string + recv list) port" where
  "demoStream req e = (case deScript e of [] \<Rightarrow> (e, Inl ''no reply'') | r # rs \<Rightarrow> (e\<lparr>deScript := rs\<rparr>, Inr r))"

definition demoID :: "string \<Rightarrow> int \<Rightarrow> string" where
  "demoID p n = p @ FormatInt n"

definition demoFresh :: "string \<Rightarrow> (demoWorld, string) port" where
  "demoFresh p e = (e\<lparr>deCount := deCount e + 1\<rparr>, demoID p (deCount e))"

definition demoDescriptors :: "ToolDescriptor list" where
  "demoDescriptors = [\<lparr>dsName = ''ls'', dsDescription = ''list'', dsSchema = ''{}'', dsSideEffect = SideEffectReadOnly,
     dsEgressClass = EgressClassNone\<rparr>]"

definition demoJSON :: jsonlib where
  "demoJSON = \<lparr>jlMarshalObject = (\<lambda>_. Inr ''{}''), jlUnmarshalObject = (\<lambda>_. Inr (Some []))\<rparr>"

definition demoDeps :: "demoWorld Deps" where
  "demoDeps = \<lparr>
     dpLoadSession = (\<lambda>sid e. (e, Inr (zeroSession\<lparr>sID := sid, sHeadSeq := int (length (deLog e))\<rparr>))),
     dpLoad = (\<lambda>sid q e. (e, Inr (deLog e))),
     dpAppend = demoAppend,
     dpStream = demoStream,
     dpListTools = (\<lambda>sid e. (e, Inr demoDescriptors)),
     dpExecute = (\<lambda>_ te e. (e, Inr [ToolRecv (ToolOutputEv (zeroOutput\<lparr>toContent := ''a.txt''\<rparr>)), ToolEOF])),
     dpSpawn = (\<lambda>_ sp e. (e, Inr zeroOutput)),
     dpMaxDepth = None,
     dpHook = (\<lambda>hi e. (e, Inr \<lparr>hdAllow = True, hdReason = ''''\<rparr>)),
     dpEvaluate = (\<lambda>inp e. (e, Evaluate (\<lambda>_. None) \<lparr>denyRules = [], allowRules = [], editTools = []\<rparr> inp)),
     dpApproval = (\<lambda>_ req e. (e, deHuman e)),
     dpContext = None,
     dpCtxErr = (\<lambda>e. (e, False)),
     dpPick = (\<lambda>e. (e, 0)),
     dpNewID = demoFresh ''t'',
     dpNewRequestID = demoFresh ''r'',
     dpCostFunc = Some (\<lambda>_ u. Inr (of_int (OutputTokens u))),
     dpJSON = demoJSON,
     dpCompileSchema = (\<lambda>_. Inr (\<lambda>_. True)),
     dpFormatAny = (\<lambda>_. ''v''),
     dpDecodePlan = (\<lambda>_. Inr []),
     dpSha = (\<lambda>x. x),
     dpGOMAXPROCS = 2\<rparr>"

definition demoConfig :: LoopConfig where
  "demoConfig = \<lparr>lcModel = ''m'', lcMaxTurns = 1, lcMaxBudgetUSD = 5, lcMaxStructuredOutputRetries = 0,
     lcDoomLoopThreshold = 0, lcReadOnlyConcurrency = 0, lcToolDefs = [], lcMode = PModeDefault, lcLeaseEpoch = 0,
     lcOutputSchema = [], lcStrict = False, lcDepth = 0, lcResumeApprovalTimeout = 0\<rparr>"

definition demoLoop :: "demoWorld Loop" where
  "demoLoop = NewLoop demoDeps demoConfig"

definition demoDone :: "StopReason \<Rightarrow> recv" where
  "demoDone s = RecvEvent (DoneEv \<lparr>dStopReason = s, dRawStopReason = '''', dUsage = zeroUsage\<lparr>OutputTokens := 1\<rparr>, dProviderRaw = None\<rparr>)"

definition demoCallReply :: "string \<Rightarrow> recv list" where
  "demoCallReply tool = [RecvEvent (ToolCallDeltaEv \<lparr>tdCallID = ''c1'', tdName = tool, tdArgsPath = '''', tdArgsFragment = ''''\<rparr>),
     demoDone StopToolUse]"

definition demoStart :: demoWorld where
  "demoStart = \<lparr>deLog = [], deCount = 0, deScript = [demoCallReply ''ls''], deHuman = Inr AskAllowed\<rparr>"

definition demoRunInput :: RunInput where
  "demoRunInput = \<lparr>riSessionID = ''s'', riUserMessage = userText ''hi'', riTainted = False\<rparr>"

section \<open>Evaluation\<close>

text \<open>
  The combinators are unfolded at a machine only, and what follows a step is left alone until the step is
  evaluated; the configuration is read through its fields.
\<close>

lemma seqP_run: "seqP p q m = bindP p (\<lambda>_. q) m"
  by (simp add: seqP_def)

lemmas monad_simps = retP_def failP_def bindP_def seqP_run tryP_def getP_def setP_def askP_def noteP_def callP_def orFail_def

lemmas loop_defs = appendEv_def computeCost_def priceTurnUsage_def hasContent_def readOnlyLimit_def deriveIdempotencyKey_def
  resultOf_def addSpent_def finishTurn_def finish_def terminate_def execVirtual_def execOne_def recordExec_def runWorker_def
  removeNth_def dispatch_def deniedResult_def decide_def askHuman_def policyInput_def preToolInput_def gateCall_def
  toolCallsOf_def callSignature_def toolBatchSignature_def detectDoomLoop_def classTable_def listTools_def toolClasses_def
  runsParallel_def resultPart_def outputOf_def resultEvent_def toolMessage_def handleToolCalls_def forwarded_def
  doneUsage_def doneRaw_def compileOutputSchema_def classifyFinal_def loadEvents_def maybeCompact_def toolDefsFromRuntime_def
  buildRequest_def abortTurn_def recordTurn_def afterStream_def countTurn_def turnBody_def runTurn_def adjudicateResume_def
  effectiveMaxTurns_def overBudget_def initialRun_def runBody_def Run_def mode_def

lemma demoDeps_sel:
  "dpLoadSession demoDeps = (\<lambda>sid e. (e, Inr (zeroSession\<lparr>sID := sid, sHeadSeq := int (length (deLog e))\<rparr>)))"
  "dpLoad demoDeps = (\<lambda>sid q e. (e, Inr (deLog e)))"
  "dpAppend demoDeps = demoAppend"
  "dpStream demoDeps = demoStream"
  "dpListTools demoDeps = (\<lambda>sid e. (e, Inr demoDescriptors))"
  "dpExecute demoDeps = (\<lambda>_ te e. (e, Inr [ToolRecv (ToolOutputEv (zeroOutput\<lparr>toContent := ''a.txt''\<rparr>)), ToolEOF]))"
  "dpSpawn demoDeps = (\<lambda>_ sp e. (e, Inr zeroOutput))"
  "dpMaxDepth demoDeps = None"
  "dpHook demoDeps = (\<lambda>hi e. (e, Inr \<lparr>hdAllow = True, hdReason = ''''\<rparr>))"
  "dpEvaluate demoDeps = (\<lambda>inp e. (e, Evaluate (\<lambda>_. None) \<lparr>denyRules = [], allowRules = [], editTools = []\<rparr> inp))"
  "dpApproval demoDeps = (\<lambda>_ req e. (e, deHuman e))"
  "dpContext demoDeps = None"
  "dpCtxErr demoDeps = (\<lambda>e. (e, False))"
  "dpPick demoDeps = (\<lambda>e. (e, 0))"
  "dpNewID demoDeps = demoFresh ''t''"
  "dpNewRequestID demoDeps = demoFresh ''r''"
  "dpCostFunc demoDeps = Some (\<lambda>_ u. Inr (of_int (OutputTokens u)))"
  "dpJSON demoDeps = demoJSON"
  "dpCompileSchema demoDeps = (\<lambda>_. Inr (\<lambda>_. True))"
  "dpFormatAny demoDeps = (\<lambda>_. ''v'')"
  "dpDecodePlan demoDeps = (\<lambda>_. Inr [])"
  "dpSha demoDeps = (\<lambda>x. x)"
  "dpGOMAXPROCS demoDeps = 2"
  by (simp_all add: demoDeps_def)

lemma demoEnvelope_sel: "envSeq (demoEnvelope sid q req inp) = q"
  by (simp add: demoEnvelope_def)

lemma demoLoop_sel:
  "lpDeps demoLoop = demoDeps" "lcModel (lpCfg demoLoop) = ''m''" "lcMaxTurns (lpCfg demoLoop) = 1"
  "lcMaxBudgetUSD (lpCfg demoLoop) = 5" "lcMaxStructuredOutputRetries (lpCfg demoLoop) = 0"
  "lcDoomLoopThreshold (lpCfg demoLoop) = DefaultDoomLoopThreshold" "lcReadOnlyConcurrency (lpCfg demoLoop) = 0"
  "lcToolDefs (lpCfg demoLoop) = []" "lcMode (lpCfg demoLoop) = PModeDefault" "lcLeaseEpoch (lpCfg demoLoop) = 0"
  "lcOutputSchema (lpCfg demoLoop) = []" "lcStrict (lpCfg demoLoop) = False" "lcDepth (lpCfg demoLoop) = 0"
  by (simp_all add: demoLoop_def NewLoop_def demoConfig_def)

lemmas demo_defs = demoDeps_sel demoLoop_sel demoEnvelope_sel demoAppend_def demoStream_def demoFresh_def demoDescriptors_def
  demoJSON_def demoDone_def demoCallReply_def demoStart_def demoRunInput_def

lemmas assemble_defs = Assemble_def newAccumulator_def addEvent_def addText_def addThinking_def addToolCall_def foldDelta_def
  addArgs_def newCall_def finalize_def callPart_def callError_def parseArgs_def decodeObject_def contentSansTools_def firstSome_def
  classify_def hasToolCall_def isToolCallPart_def IsTerminal_def

lemma dispatchLoop_run: "dispatchLoop l limit todo pool d m =
     (if todo = [] \<and> pool = [] then retP d
      else bindP (askP (dpPick (lpDeps l))) (\<lambda>n.
        if pool \<noteq> [] \<and> (n < length pool \<or> todo = [] \<or> seParallel (hd todo) \<and> limit \<le> length pool)
        then let k = n mod length pool in
          bindP (runWorker l (pool ! k) d) (\<lambda>d'. dispatchLoop l limit todo (removeNth k pool) d')
        else (case todo of
            [] \<Rightarrow> retP d
          | e # es \<Rightarrow>
              if seParallel e then dispatchLoop l limit es (pool @ [e]) d
              else bindP (tryP (execOne l (dsGroupErr d \<noteq> None) e)) (\<lambda>r. case r of
                  Inl err \<Rightarrow> dispatchLoop l limit [] pool (d\<lparr>dsSerialErr := Some err\<rparr>)
                | Inr x \<Rightarrow> dispatchLoop l limit es pool (recordExec (tcID (seCall e)) x d))))) m"
  by (subst dispatchLoop.simps) (rule refl)

lemma stream_first:
  "streamWithContinuations maxPauseContinuations l turnID req m =
     bindP (callP (dpStream (lpDeps l) req) (StreamCall req)) (\<lambda>r. case r of
       Inl e \<Rightarrow> retP (Inl (zeroUsage, ErrStream e))
     | Inr reader \<Rightarrow>
         bindP getP (\<lambda>st.
         seqP (noteP (forwarded (rsSessionID st) turnID reader))
         (case Assemble (dpJSON (lpDeps l)) reader of
            (a, Some e) \<Rightarrow> retP (Inl (doneUsage a, ErrAssemble e))
          | (a, None) \<Rightarrow>
              if arOutcome a \<noteq> OutcomeNeedsContinuation then retP (Inr a)
              else streamWithContinuations 15 l turnID (req\<lparr>lrProviderRaw := doneRaw a\<rparr>)))) m"
proof -
  have m: "maxPauseContinuations = Suc 15" by (simp add: maxPauseContinuations_def)
  show ?thesis by (subst (1) m, subst streamWithContinuations.simps(2), intro refl)
qed

lemmas run_simps = monad_simps loop_defs demo_defs assemble_defs IsError_def Let_def userText_def stream_first
  dispatchLoop_run DefaultDoomLoopThreshold_def mergeVirtualClasses_def virtualClasses_def toolNameSpawnSubagent_def
  toolNameTodoWrite_def isVirtualTool_def Evaluate_def allowStage_def firstMatch_def isExternal_def

lemma bindP_wcong: "m = m' \<Longrightarrow> bindP p f m = bindP p f m'"
  by simp

lemma seqP_wcong: "m = m' \<Longrightarrow> seqP p f m = seqP p f m'"
  by simp

definition demoToolCall :: ToolCall where
  "demoToolCall = \<lparr>tcID = ''c1'', tcName = ''ls'', tcArgs = []\<rparr>"

definition demoExecution :: act where
  "demoExecution = ExecuteCall \<lparr>teSessionID = ''s'', teCall = demoToolCall,
       teIdempotencyKey = deriveIdempotencyKey (\<lambda>x. x) ''s'' 3\<rparr>
     (Inr [ToolRecv (ToolOutputEv (zeroOutput\<lparr>toContent := ''a.txt''\<rparr>)), ToolEOF])"

definition demoResult :: RunResult where
  "demoResult = \<lparr>rrReason = ErrorMaxTurns, rrUsage = zeroUsage\<lparr>OutputTokens := 1\<rparr>, rrCostUSD = 1, rrNumTurns = 1\<rparr>"

text \<open>The run, evaluated once: its length, the execution in it, its only model call, and its result.\<close>

lemma demoRun:
  "case Run demoLoop demoRunInput demoStart of (e, tr, r) \<Rightarrow>
     length tr = 21 \<and> tr ! 15 = demoExecution \<and> isStream (tr ! 6) \<and> r = Inr demoResult"
  by (simp add: run_simps runLoop.simps demoExecution_def demoToolCall_def demoResult_def isStream_def
      cong: bindP_wcong seqP_wcong)

end
