(* ===== verification/AgentProps.thy ===== *)
theory AgentProps
  imports AgentBudget AgentDemo
begin

text \<open>The properties of the agent loop, each over the list of calls a run makes.\<close>

lemma authorised_at: "authorised (before @ x # after) \<Longrightarrow> okAct before x"
  unfolding authorised_def by (drule spec [of _ "length before"]) simp

text \<open>The evaluated run, cut at one of its calls.\<close>

lemma demoRun_at:
  obtains e tr req a where "Run demoLoop demoRunInput demoStart = (e, tr, Inr demoResult)"
    "Run demoLoop demoRunInput demoStart = (e, take 15 tr @ demoExecution # drop 16 tr, Inr demoResult)"
    "Run demoLoop demoRunInput demoStart = (e, take 6 tr @ StreamCall req a # drop 7 tr, Inr demoResult)"
proof -
  obtain e tr r where run: "Run demoLoop demoRunInput demoStart = (e, tr, r)" by (cases "Run demoLoop demoRunInput demoStart") auto
  with demoRun have facts: "length tr = 21" "tr ! 15 = demoExecution" "isStream (tr ! 6)" "r = Inr demoResult" by auto
  obtain req a where call: "tr ! 6 = StreamCall req a"
    using facts(3) by (cases "tr ! 6") (auto simp: isStream_def)
  have "take 15 tr @ demoExecution # drop 16 tr = tr" "take 6 tr @ StreamCall req a # drop 7 tr = tr"
    using id_take_nth_drop [of 15 tr] id_take_nth_drop [of 6 tr] facts(1,2) call by simp_all
  then show thesis using that [of e tr req a] run facts(4) by simp
qed

text \<open>
  C33. In every run, whatever the store, the model, the hooks, the policy, the human, the tools and the
  scheduler answer, a tool is executed only when, among the calls made before, that very call (same id,
  name and arguments) passed the hooks and was allowed by the policy, or was allowed by the human asked,
  the decision was committed to the log, and the intent with the idempotency key used was committed too;
  and a sub-agent is started only for a \<^verbatim>\<open>spawn_subagent\<close> call that is ready in the same sense.
\<close>

theorem executions_authorised: "Run l inp e = (e', before @ x # after, r) \<Longrightarrow> okAct before x"
  by (rule authorised_at [OF run_authorised])

theorem executions_authorised_witness:
  "case Run demoLoop demoRunInput demoStart of (e', tr, r) \<Rightarrow>
     tr ! 15 = demoExecution \<and> permitted (take 15 tr) demoToolCall \<and>
     committed (take 15 tr) (ToolExecutionStarted ''c1'' ''ls'' (deriveIdempotencyKey (\<lambda>x. x) ''s'' 3))"
proof -
  obtain e tr where run: "Run demoLoop demoRunInput demoStart = (e, tr, Inr demoResult)"
    and cut: "Run demoLoop demoRunInput demoStart = (e, take 15 tr @ demoExecution # drop 16 tr, Inr demoResult)"
    by (rule demoRun_at)
  have "okAct (take 15 tr) demoExecution" by (rule executions_authorised [OF cut])
  then show ?thesis using run demoRun by (simp add: okAct_def ready_def demoExecution_def demoToolCall_def)
qed

text \<open>
  C34. Every run ends: the turn loop returns from any state (it is a total function), the number of turns
  it reports is between zero and the effective turn limit, and the model is called at most sixteen times
  per turn counted, so at most sixteen times the limit in all, also when the run fails.
\<close>

theorem run_bounded:
  "case Run l inp e of (e', tr, r) \<Rightarrow>
     int (streams tr) \<le> int maxPauseContinuations * effectiveMaxTurns l \<and>
     (case r of Inl _ \<Rightarrow> True
      | Inr res \<Rightarrow> 0 \<le> rrNumTurns res \<and> rrNumTurns res \<le> effectiveMaxTurns l \<and>
                  int (streams tr) \<le> int maxPauseContinuations * rrNumTurns res)"
proof -
  obtain e' tr r where run: "Run l inp e = (e', tr, r)" by (cases "Run l inp e") auto
  from Run_within [OF run] obtain m where m: "runBody l inp \<lparr>mcRun = initialRun l inp, mcEnv = e, mcTrace = []\<rparr> = (m, r)"
    "int (streams tr) \<le> int maxPauseContinuations * rsNumTurns (mcRun m)" "rsNumTurns (mcRun m) \<le> effectiveMaxTurns l" by blast
  have "rrNumTurns res = rsNumTurns (mcRun m)" if "r = Inr res" for res
    using Run_settled [OF run [unfolded that]] m(1) that by (metis Pair_inject settled_def)
  moreover have "0 \<le> rsNumTurns (mcRun m)" using m(2) by (simp add: maxPauseContinuations_def)
  moreover have "int maxPauseContinuations * rsNumTurns (mcRun m) \<le> int maxPauseContinuations * effectiveMaxTurns l"
    using m(3) by (intro mult_left_mono) auto
  ultimately show ?thesis using m run by (auto split: sum.splits)
qed

text \<open>
  C35. Every event a run offers to the log is well typed: assistant messages come from the assistant, in
  the assistant role, with a terminal stop reason; tool results and tool messages come from the tool
  actor, a tool message being a non-empty list of tool results; plans are well formed and come from the
  assistant; a permission decision carries a human's answer only when the decision was to ask; an aborted
  turn is an error during execution; and no other kind of event is written.
\<close>

theorem run_appends_typed: "list_all wfAct (fst (snd (Run l inp e)))"
proof -
  obtain e' tr r where run: "Run l inp e = (e', tr, r)" by (cases "Run l inp e") auto
  from Run_within [OF run] have "list_all wfAct tr" .
  with run show ?thesis by simp
qed

text \<open>
  C36. When a run returns a result, its usage and cost are the sums over the assistant messages and
  aborted turns the store accepted during the run, and unless it ended with an error during execution the
  log holds a turn end with the same reason, usage, cost and number of turns.
\<close>

theorem run_accounts:
  assumes "Run l inp e = (e', tr, Inr res)"
  shows "rrUsage res = spentUsage tr \<and> rrCostUSD res = spentCost tr \<and>
    (rrReason res = ErrorDuringExecution \<or>
     (\<exists>turnID. committed tr (TurnFinished turnID (rrReason res) (rrUsage res) (rrCostUSD res) (rrNumTurns res))))"
proof -
  obtain m where "settled res m" "mcTrace m = tr" "runBody l inp \<lparr>mcRun = initialRun l inp, mcEnv = e, mcTrace = []\<rparr> = (m, Inr res)"
    by (rule Run_settled [OF assms])
  then show ?thesis by (auto simp: settled_def balanced_def acct_def)
qed

theorem run_accounts_witness:
  "case Run demoLoop demoRunInput demoStart of (e', tr, r) \<Rightarrow>
     spentUsage tr = zeroUsage\<lparr>OutputTokens := 1\<rparr> \<and> spentCost tr = 1 \<and>
     (\<exists>turnID. committed tr (TurnFinished turnID ErrorMaxTurns (zeroUsage\<lparr>OutputTokens := 1\<rparr>) 1 1))"
proof -
  obtain e tr where run: "Run demoLoop demoRunInput demoStart = (e, tr, Inr demoResult)" by (rule demoRun_at)
  from run_accounts [OF run] show ?thesis unfolding run by (simp add: demoResult_def) metis
qed



end
