(* ===== verification/Egress.thy ===== *)
theory Egress
  imports Domain "HOL-Library.Word"
begin

text \<open>
  The exfiltration controls of the tool runtime: the per-session allowlist
  (\<^verbatim>\<open>internal/toolruntime/adapter/outbound/egress\<close>) and the hardened fetcher that carries every request
  of the web tools (\<^verbatim>\<open>adapter/outbound/egressclient\<close>).

  The broker is a record of maps; the time stamped on an audit entry is the argument \<open>now\<close>. The fetcher
  takes the broker as an interface, so it is parameterised by the operation \<open>allow\<close> on a broker state;
  the locale \<open>egress_broker\<close> holds what it relies on, and the broker interprets it. The outside world is
  the record \<^verbatim>\<open>network\<close>: name resolution, the parser of IP literals, and the reply to the \<open>n\<close>-th request
  sent to an address. The redirect loop of \<^verbatim>\<open>http.Client.Do\<close> is the recursion \<open>doRequest\<close>, which also
  returns the requests it sent. An address is a 32 bit or a 128 bit word.
\<close>

unbundle bit_operations_syntax

section \<open>The broker\<close>

record EgressPolicy =
  epSessionID :: string
  epAllowedHosts :: "string list"

record EgressDecision =
  edSessionID :: string
  edHost :: string
  edAllowed :: bool
  edAt :: int

record Broker =
  bkPolicies :: "string \<Rightarrow> EgressPolicy option"
  bkDecisions :: "string \<Rightarrow> EgressDecision list"
  bkDefaultHosts :: "string list"

definition NewBroker :: "string list \<Rightarrow> Broker" where
  "NewBroker hosts = \<lparr>bkPolicies = (\<lambda>_. None), bkDecisions = (\<lambda>_. []), bkDefaultHosts = hosts\<rparr>"

definition matchEntry :: "string \<Rightarrow> string \<Rightarrow> bool" where
  "matchEntry host entry =
     (if HasPrefix entry ''*.'' then
        (let suffix = drop 2 entry in
         if \<not> HasSuffix host (''.'' @ suffix) then False
         else \<not> Contains (take (length host - length suffix - 1) host) ''.'')
      else host = entry)"

definition matchesPolicy :: "string \<Rightarrow> string list \<Rightarrow> bool" where
  "matchesPolicy host allowed = list_ex (matchEntry host) allowed"

definition governingHosts :: "Broker \<Rightarrow> string \<Rightarrow> string list" where
  "governingHosts b sess = (case bkPolicies b sess of Some p \<Rightarrow> epAllowedHosts p | None \<Rightarrow> bkDefaultHosts b)"

definition AllowHost :: "int \<Rightarrow> Broker \<Rightarrow> string \<Rightarrow> string \<Rightarrow> Broker \<times> (string + bool)" where
  "AllowHost now b sess host =
     (let ok = matchesPolicy host (governingHosts b sess);
          d = \<lparr>edSessionID = sess, edHost = host, edAllowed = ok, edAt = now\<rparr>
      in (b\<lparr>bkDecisions := (bkDecisions b)(sess := bkDecisions b sess @ [d])\<rparr>, Inr ok))"

definition SetPolicy :: "EgressPolicy \<Rightarrow> Broker \<Rightarrow> Broker" where
  "SetPolicy p b = b\<lparr>bkPolicies := (bkPolicies b)(epSessionID p := Some p)\<rparr>"

definition DecisionsOf :: "Broker \<Rightarrow> string \<Rightarrow> EgressDecision list" where
  "DecisionsOf b sess = bkDecisions b sess"

section \<open>Addresses\<close>

datatype ip = IPv4 "32 word" | IPv6 "128 word"

definition To4 :: "ip \<Rightarrow> 32 word option" where
  "To4 a = (case a of IPv4 w \<Rightarrow> Some w | IPv6 w \<Rightarrow> if drop_bit 32 w = 0xffff then Some (ucast w) else None)"

definition octet4 :: "nat \<Rightarrow> 32 word \<Rightarrow> 32 word" where
  "octet4 i w = drop_bit (8 * (3 - i)) w AND 0xff"

definition octet16 :: "nat \<Rightarrow> 128 word \<Rightarrow> 128 word" where
  "octet16 i w = drop_bit (8 * (15 - i)) w AND 0xff"

definition raw16 :: "ip \<Rightarrow> 128 word" where
  "raw16 a = (case a of IPv4 w \<Rightarrow> ucast w OR 0xffff00000000 | IPv6 w \<Rightarrow> w)"

definition IsUnspecified :: "ip \<Rightarrow> bool" where
  "IsUnspecified a \<longleftrightarrow> To4 a = Some 0 \<or> raw16 a = 0"

definition IsLoopback :: "ip \<Rightarrow> bool" where
  "IsLoopback a \<longleftrightarrow> (case To4 a of Some w \<Rightarrow> octet4 0 w = 127 | None \<Rightarrow> raw16 a = 1)"

definition IsPrivate :: "ip \<Rightarrow> bool" where
  "IsPrivate a \<longleftrightarrow> (case To4 a of
      Some w \<Rightarrow> octet4 0 w = 10 \<or> octet4 0 w = 172 \<and> octet4 1 w AND 0xf0 = 16 \<or> octet4 0 w = 192 \<and> octet4 1 w = 168
    | None \<Rightarrow> octet16 0 (raw16 a) AND 0xfe = 0xfc)"

definition IsMulticast :: "ip \<Rightarrow> bool" where
  "IsMulticast a \<longleftrightarrow> (case To4 a of Some w \<Rightarrow> octet4 0 w AND 0xf0 = 0xe0 | None \<Rightarrow> octet16 0 (raw16 a) = 0xff)"

definition IsLinkLocalMulticast :: "ip \<Rightarrow> bool" where
  "IsLinkLocalMulticast a \<longleftrightarrow> (case To4 a of
      Some w \<Rightarrow> octet4 0 w = 224 \<and> octet4 1 w = 0 \<and> octet4 2 w = 0
    | None \<Rightarrow> octet16 0 (raw16 a) = 0xff \<and> octet16 1 (raw16 a) AND 0x0f = 2)"

definition IsLinkLocalUnicast :: "ip \<Rightarrow> bool" where
  "IsLinkLocalUnicast a \<longleftrightarrow> (case To4 a of
      Some w \<Rightarrow> octet4 0 w = 169 \<and> octet4 1 w = 254
    | None \<Rightarrow> octet16 0 (raw16 a) = 0xfe \<and> octet16 1 (raw16 a) AND 0xc0 = 0x80)"

definition isPublicAddress :: "ip \<Rightarrow> bool" where
  "isPublicAddress a = (if IsLoopback a \<or> IsPrivate a \<or> IsLinkLocalUnicast a \<or> IsLinkLocalMulticast a
     \<or> IsMulticast a \<or> IsUnspecified a then False else True)"

section \<open>The fetcher\<close>

record url =
  uScheme :: string
  uHostname :: string
  uString :: string

record FetchResult =
  frStatus :: int
  frFinalURL :: string
  frContentType :: string
  frBody :: bytes
  frTruncated :: bool

datatype http_reply = HttpError string | Redirect url | Response int string bytes

record network =
  netParseURL :: "string \<Rightarrow> url option"
  netParseIP :: "string \<Rightarrow> ip option"
  netResolve :: "string \<Rightarrow> ip list option"
  netReply :: "nat \<Rightarrow> ip \<Rightarrow> url \<Rightarrow> http_reply"

record ClientConfig =
  ccMaxBodyBytes :: int
  ccTimeout :: int
  ccMaxRedirects :: int
  ccAllowPrivate :: bool

definition DefaultMaxBodyBytes :: int where "DefaultMaxBodyBytes = 2 * 2 ^ 20"
definition DefaultTimeout :: int where "DefaultTimeout = 30 * 10 ^ 9"
definition DefaultMaxRedirects :: int where "DefaultMaxRedirects = 5"

definition withDefaults :: "ClientConfig \<Rightarrow> ClientConfig" where
  "withDefaults c = c\<lparr>
     ccMaxBodyBytes := (if ccMaxBodyBytes c \<le> 0 then DefaultMaxBodyBytes else ccMaxBodyBytes c),
     ccTimeout := (if ccTimeout c \<le> 0 then DefaultTimeout else ccTimeout c),
     ccMaxRedirects := (if ccMaxRedirects c \<le> 0 then DefaultMaxRedirects else ccMaxRedirects c)\<rparr>"

datatype fetch_error = CannotParseURL | SchemeNotAllowed string | CannotDetermineHost | BrokerError string
  | HostNotAllowed string | ResolveFailed string | NonPublicOnly string | RedirectChainExceeds int
  | FetchFailed string

type_synonym 's allowfun = "'s \<Rightarrow> string \<Rightarrow> string \<Rightarrow> 's \<times> (string + bool)"

definition gate :: "'s allowfun \<Rightarrow> string \<Rightarrow> string \<Rightarrow> 's \<Rightarrow> 's \<times> (fetch_error + unit)" where
  "gate allow sess host st =
     (case allow st sess host of
        (st', Inl e) \<Rightarrow> (st', Inl (BrokerError e))
      | (st', Inr ok) \<Rightarrow> (st', require ok (HostNotAllowed host)))"

definition dialPinned :: "ClientConfig \<Rightarrow> network \<Rightarrow> string \<Rightarrow> fetch_error + ip" where
  "dialPinned cfg net host =
     andThen (case netParseIP net host of
        Some a \<Rightarrow> Inr [a]
      | None \<Rightarrow> (case netResolve net host of None \<Rightarrow> Inl (ResolveFailed host) | Some ips \<Rightarrow> Inr ips))
     (\<lambda>ips. case find (\<lambda>a. ccAllowPrivate cfg \<or> isPublicAddress a) ips of
        Some a \<Rightarrow> Inr a
      | None \<Rightarrow> Inl (NonPublicOnly host))"

definition httpScheme :: "url \<Rightarrow> bool" where
  "httpScheme u \<longleftrightarrow> uScheme u = ''http'' \<or> uScheme u = ''https''"

definition checkRedirect ::
  "'s allowfun \<Rightarrow> ClientConfig \<Rightarrow> string \<Rightarrow> nat \<Rightarrow> url \<Rightarrow> 's \<Rightarrow> 's \<times> (fetch_error + unit)" where
  "checkRedirect allow cfg sess via u st =
     (if ccMaxRedirects cfg \<le> int via then (st, Inl (RedirectChainExceeds (ccMaxRedirects cfg)))
      else if \<not> httpScheme u then (st, Inl (SchemeNotAllowed (uScheme u)))
      else gate allow sess (uHostname u) st)"

function doRequest ::
  "'s allowfun \<Rightarrow> ClientConfig \<Rightarrow> network \<Rightarrow> string \<Rightarrow> (url \<times> ip) list \<Rightarrow> url \<Rightarrow> 's
    \<Rightarrow> 's \<times> (url \<times> ip) list \<times> (fetch_error + url \<times> int \<times> string \<times> bytes)" where
  "doRequest allow cfg net sess via u st =
     (case dialPinned cfg net (uHostname u) of
        Inl e \<Rightarrow> (st, via, Inl e)
      | Inr a \<Rightarrow>
          (let sent = via @ [(u, a)] in
           case netReply net (length via) a u of
             HttpError m \<Rightarrow> (st, sent, Inl (FetchFailed m))
           | Response code ct body \<Rightarrow> (st, sent, Inr (u, code, ct, body))
           | Redirect u' \<Rightarrow>
               (case checkRedirect allow cfg sess (length sent) u' st of
                  (st', Inl e) \<Rightarrow> (st', sent, Inl e)
                | (st', Inr _) \<Rightarrow> doRequest allow cfg net sess sent u' st')))"
  by pat_completeness auto

definition readBody :: "ClientConfig \<Rightarrow> url \<times> int \<times> string \<times> bytes \<Rightarrow> FetchResult" where
  "readBody cfg resp = (case resp of (u, code, ct, stream) \<Rightarrow>
     (let body = take (nat (ccMaxBodyBytes cfg + 1)) stream;
          truncated = int (length body) > ccMaxBodyBytes cfg
      in \<lparr>frStatus = code, frFinalURL = uString u, frContentType = ct,
          frBody = (if truncated then take (nat (ccMaxBodyBytes cfg)) body else body), frTruncated = truncated\<rparr>))"

definition checkURL :: "network \<Rightarrow> string \<Rightarrow> fetch_error + url" where
  "checkURL net rawURL =
     (case netParseURL net rawURL of
        None \<Rightarrow> Inl CannotParseURL
      | Some u \<Rightarrow>
          andThen (require (httpScheme u) (SchemeNotAllowed (uScheme u))) (\<lambda>_.
          andThen (require (uHostname u \<noteq> '''') CannotDetermineHost) (\<lambda>_. Inr u)))"

lemma checkRedirect_Inr:
  "checkRedirect allow cfg sess n u st = (st', Inr x) \<Longrightarrow> int n < ccMaxRedirects cfg \<and> httpScheme u \<and> gate allow sess (uHostname u) st = (st', Inr x)"
  by (auto simp: checkRedirect_def split: if_splits)

termination doRequest
  by (relation "measure (\<lambda>(allow, cfg, net, sess, via, u, st). nat (ccMaxRedirects cfg - int (length via)))")
    (auto dest!: checkRedirect_Inr [OF sym] simp: nat_less_iff)

declare doRequest.simps [simp del]

definition Fetch ::
  "'s allowfun \<Rightarrow> ClientConfig \<Rightarrow> network \<Rightarrow> string \<Rightarrow> string \<Rightarrow> 's
    \<Rightarrow> 's \<times> (url \<times> ip) list \<times> (fetch_error + FetchResult)" where
  "Fetch allow cfg net sess rawURL st =
     (case checkURL net rawURL of
        Inl e \<Rightarrow> (st, [], Inl e)
      | Inr u \<Rightarrow>
          (case gate allow sess (uHostname u) st of
             (st', Inl e) \<Rightarrow> (st', [], Inl e)
           | (st', Inr _) \<Rightarrow>
               (case doRequest allow cfg net sess [] u st' of
                  (st'', sent, Inl e) \<Rightarrow> (st'', sent, Inl e)
                | (st'', sent, Inr resp) \<Rightarrow> (st'', sent, Inr (readBody cfg resp)))))"


definition demoURL :: "string \<Rightarrow> url" where
  "demoURL h = \<lparr>uScheme = ''https'', uHostname = h, uString = h\<rparr>"

definition demoNet :: network where
  "demoNet = \<lparr>netParseURL = (\<lambda>s. Some (demoURL s)),
     netParseIP = (\<lambda>_. None),
     netResolve = (\<lambda>h. Some [IPv4 0x0a000001, IPv4 0x5db8d822]),
     netReply = (\<lambda>n a u. if uHostname u = ''a.com'' then Redirect (demoURL ''b.com'')
       else Response 200 ''text/html'' ''hello'')\<rparr>"

definition demoCfg :: ClientConfig where
  "demoCfg = \<lparr>ccMaxBodyBytes = 0, ccTimeout = 0, ccMaxRedirects = 0, ccAllowPrivate = False\<rparr>"

section \<open>One request\<close>

lemma doRequest_step [consumes 1, case_names sNoDial sLast sRefused sRedirect]:
  assumes "doRequest allow cfg net sess via u st = (st', sent, r)"
  obtains e where "dialPinned cfg net (uHostname u) = Inl e" "st' = st" "sent = via" "r = Inl e"
  | a where "dialPinned cfg net (uHostname u) = Inr a" "st' = st" "sent = via @ [(u, a)]"
  | a u' e where "dialPinned cfg net (uHostname u) = Inr a"
      "checkRedirect allow cfg sess (Suc (length via)) u' st = (st', Inl e)" "sent = via @ [(u, a)]" "r = Inl e"
  | a u' s x where "dialPinned cfg net (uHostname u) = Inr a"
      "checkRedirect allow cfg sess (Suc (length via)) u' st = (s, Inr x)"
      "doRequest allow cfg net sess (via @ [(u, a)]) u' s = (st', sent, r)"
  using assms
  by (subst (asm) doRequest.simps) (auto simp: Let_def split: sum.splits http_reply.splits prod.splits)

lemma dialPinned_public: "dialPinned cfg net h = Inr a \<Longrightarrow> ccAllowPrivate cfg \<or> isPublicAddress a"
  by (auto simp: dialPinned_def andThen_Inr_iff find_Some_iff split: option.splits if_splits)

section \<open>The contract of a broker\<close>

text \<open>
  What the fetcher relies on: a granted host is permitted by the session's policy, and asking does not
  change the policy. A broker that keeps an audit trail records the granted hosts in order.
\<close>

locale egress_broker =
  fixes allow :: "'s allowfun"
    and permits :: "'s \<Rightarrow> string \<Rightarrow> string \<Rightarrow> bool"
  assumes allow_sound: "allow s sess h = (s', Inr True) \<Longrightarrow> permits s sess h"
    and allow_keeps: "allow s sess h = (s', r) \<Longrightarrow> permits s' = permits s"
begin

lemma gate_sound: "gate allow sess h s = (s', Inr x) \<Longrightarrow> allow s sess h = (s', Inr True) \<and> permits s sess h"
  using allow_sound by (auto simp: gate_def split: prod.splits sum.splits)

lemma gate_keeps: "gate allow sess h s = (s', r) \<Longrightarrow> permits s' = permits s"
  using allow_keeps by (auto simp: gate_def split: prod.splits sum.splits)

lemma checkRedirect_keeps: "checkRedirect allow cfg sess n u s = (s', r) \<Longrightarrow> permits s' = permits s"
  by (auto simp: checkRedirect_def gate_keeps split: if_splits)

lemma doRequest_contacts:
  assumes "doRequest allow cfg net sess via u st = (st', sent, r)"
    and "httpScheme u" and "permits st sess (uHostname u)"
  shows "\<exists>new. sent = via @ new \<and> length sent \<le> max (Suc (length via)) (nat (ccMaxRedirects cfg)) \<and>
    (\<forall>(v, a) \<in> set new. httpScheme v \<and> permits st sess (uHostname v) \<and> dialPinned cfg net (uHostname v) = Inr a)"
  using assms
proof (induction "nat (ccMaxRedirects cfg - int (length via))" arbitrary: via u st rule: less_induct)
  case less
  from less(2) show ?case
  proof (cases rule: doRequest_step)
    case (sRedirect a u' s x)
    note ok = checkRedirect_Inr [OF sRedirect(2)]
    have "permits s = permits st" using checkRedirect_keeps [OF sRedirect(2)] .
    moreover have "permits st sess (uHostname u')" using ok gate_sound by blast
    ultimately obtain new where new: "sent = (via @ [(u, a)]) @ new"
        "length sent \<le> max (Suc (length (via @ [(u, a)]))) (nat (ccMaxRedirects cfg))"
        "\<forall>(v, a) \<in> set new. httpScheme v \<and> permits st sess (uHostname v) \<and> dialPinned cfg net (uHostname v) = Inr a"
      using less(1) [OF _ sRedirect(3)] ok by auto
    show ?thesis
      by (rule exI [of _ "(u, a) # new"]) (use new ok less(3,4) sRedirect(1) in auto)
  qed (use less(3,4) in auto)
qed

end

locale audited_broker = egress_broker +
  fixes granted :: "'a \<Rightarrow> string \<Rightarrow> string list"
  assumes allow_logs: "allow s sess h = (s', Inr True) \<Longrightarrow> granted s' sess = granted s sess @ [h]"
    and refusal_logs: "allow s sess h = (s', r) \<Longrightarrow> r \<noteq> Inr True \<Longrightarrow> granted s' sess = granted s sess"
begin

lemma gate_logs: "gate allow sess h s = (s', Inr x) \<Longrightarrow> granted s' sess = granted s sess @ [h]"
  using gate_sound allow_logs by blast

lemma gate_refusal: "gate allow sess h s = (s', Inl e) \<Longrightarrow> granted s' sess = granted s sess"
  using refusal_logs by (auto simp: gate_def require_def split: prod.splits sum.splits if_splits)

lemma checkRedirect_refusal: "checkRedirect allow cfg sess n u s = (s', Inl e) \<Longrightarrow> granted s' sess = granted s sess"
  by (auto simp: checkRedirect_def gate_refusal split: if_splits)

lemma doRequest_audited:
  assumes "doRequest allow cfg net sess via u st = (st', sent, r)"
    and "granted st sess = old @ map (uHostname \<circ> fst) via @ [uHostname u]"
  shows "\<exists>undialled. granted st' sess = old @ map (uHostname \<circ> fst) sent @ undialled \<and> length undialled \<le> 1 \<and>
    (isOk r \<longrightarrow> undialled = [])"
  using assms
proof (induction "nat (ccMaxRedirects cfg - int (length via))" arbitrary: via u st rule: less_induct)
  case less
  from less(2) show ?case
  proof (cases rule: doRequest_step)
    case (sRedirect a u' s x)
    note ok = checkRedirect_Inr [OF sRedirect(2)]
    then have "granted s sess = old @ map (uHostname \<circ> fst) (via @ [(u, a)]) @ [uHostname u']"
      using gate_logs less(3) by fastforce
    then show ?thesis using less(1) [OF _ sRedirect(3)] ok by auto
  next
    case (sRefused a u' e)
    then show ?thesis using checkRedirect_refusal less(3) by fastforce
  qed (use less(3) in auto)
qed

end

definition brokerPermits :: "Broker \<Rightarrow> string \<Rightarrow> string \<Rightarrow> bool" where
  "brokerPermits b sess host \<longleftrightarrow> matchesPolicy host (governingHosts b sess)"

definition grantedHosts :: "Broker \<Rightarrow> string \<Rightarrow> string list" where
  "grantedHosts b sess = map edHost (filter edAllowed (DecisionsOf b sess))"

lemma AllowHost_keeps: "AllowHost now b sess h = (b', r) \<Longrightarrow> governingHosts b' = governingHosts b"
  by (auto simp: AllowHost_def governingHosts_def Let_def fun_eq_iff split: option.splits)

interpretation broker: audited_broker "AllowHost now" brokerPermits grantedHosts for now
proof
  show "AllowHost now s sess h = (s', r) \<Longrightarrow> brokerPermits s' = brokerPermits s" for s sess h s' r
    using AllowHost_keeps by (simp add: brokerPermits_def fun_eq_iff)
qed (auto simp: AllowHost_def brokerPermits_def grantedHosts_def DecisionsOf_def Let_def)

section \<open>Matching\<close>

lemma Contains_char: "Contains s [c] \<longleftrightarrow> c \<in> set s"
  by (induction s) (auto simp: HasPrefix_def)

lemma matchEntry_wildcard:
  "matchEntry host (''*.'' @ suffix) \<longleftrightarrow> (\<exists>label. host = label @ ''.'' @ suffix \<and> CHR ''.'' \<notin> set label)"
  by (auto simp: matchEntry_def HasPrefix_def HasSuffix_iff Contains_char)

lemma matchEntry_exact: "\<not> HasPrefix entry ''*.'' \<Longrightarrow> matchEntry host entry \<longleftrightarrow> host = entry"
  by (simp add: matchEntry_def)

lemma denied_by_default: "\<not> brokerPermits (NewBroker []) sess host"
  by (simp add: brokerPermits_def governingHosts_def NewBroker_def matchesPolicy_def)

lemma withDefaults_pos: "0 < ccMaxRedirects (withDefaults c)" "0 < ccMaxBodyBytes (withDefaults c)"
  "ccAllowPrivate (withDefaults c) = ccAllowPrivate c"
  by (simp_all add: withDefaults_def DefaultMaxRedirects_def DefaultMaxBodyBytes_def)

lemma checkURL_Inr: "checkURL net raw = Inr u \<longleftrightarrow> netParseURL net raw = Some u \<and> httpScheme u \<and> uHostname u \<noteq> ''''"
  by (auto simp: checkURL_def andThen_Inr_iff split: option.splits)

lemma readBody_bound: "0 \<le> ccMaxBodyBytes cfg \<Longrightarrow> int (length (frBody (readBody cfg resp))) \<le> ccMaxBodyBytes cfg"
  by (auto simp: readBody_def Let_def split: prod.splits)

lemma Fetch_cases [consumes 1, case_names fRejected fRefused fSent]:
  assumes "Fetch allow cfg net sess raw st = (st', sent, r)"
  obtains e where "checkURL net raw = Inl e" "st' = st" "sent = []" "r = Inl e"
  | u e where "checkURL net raw = Inr u" "gate allow sess (uHostname u) st = (st', Inl e)" "sent = []" "r = Inl e"
  | u s x r' where "checkURL net raw = Inr u" "gate allow sess (uHostname u) st = (s, Inr x)"
      "doRequest allow cfg net sess [] u s = (st', sent, r')" "isOk r = isOk r'"
      "r = (case r' of Inl e \<Rightarrow> Inl e | Inr resp \<Rightarrow> Inr (readBody cfg resp))"
  using assms by (fastforce simp: Fetch_def split: sum.splits prod.splits)

section \<open>Address classes as ranges\<close>

lemma and_ff: "(x::32 word) AND 0xff = take_bit 8 x"
  by (simp add: take_bit_eq_mask mask_eq_exp_minus_1)

lemma unat_field: "unat (take_bit k (drop_bit n (w::32 word))) = unat w div 2 ^ n mod 2 ^ k"
proof -
  have "unat (take_bit k (drop_bit n w)) = take_bit k (drop_bit n (unat w))"
    by (simp only: unsigned_take_bit_eq unat_drop_bit_eq)
  then show ?thesis by (simp add: drop_bit_eq_div take_bit_eq_mod)
qed

lemma octet4_unat: "unat (octet4 i w) = unat w div 2 ^ (8 * (3 - i)) mod 2 ^ 8"
  unfolding octet4_def and_ff by (rule unat_field)

lemma and_f0: "(x::32 word) AND 0xf0 = push_bit 4 (take_bit 4 (drop_bit 4 x))"
proof -
  have f0: "(0xf0 :: 32 word) = push_bit 4 (mask 4)" by (simp add: mask_eq_exp_minus_1 push_bit_eq_mult)
  show ?thesis unfolding f0 by (rule bit_eqI) (auto simp: bit_push_bit_iff bit_and_iff bit_take_bit_iff bit_drop_bit_eq bit_mask_iff simp del: push_bit_mask_eq push_bit_of_1 push_bit_numeral)
qed

lemma and_f0_unat: "unat ((x::32 word) AND 0xf0) = 16 * (unat x div 16 mod 16)"
proof -
  have "unat (take_bit 4 (drop_bit 4 x)) = unat x div 16 mod 16"
    using unat_field [of 4 4 x] by simp
  then show ?thesis
    unfolding and_f0 by (simp add: push_bit_eq_mult unat_mult_lem [THEN iffD1])
qed

lemma octet4_eq: "octet4 i w = numeral n \<longleftrightarrow> unat w div 2 ^ (8 * (3 - i)) mod 2 ^ 8 = unat (numeral n :: 32 word)"
  by (metis octet4_unat word_unat_eq_iff)

lemma octet4_zero: "octet4 i w = 0 \<longleftrightarrow> unat w div 2 ^ (8 * (3 - i)) mod 2 ^ 8 = 0"
  by (metis octet4_unat unat_eq_0)

lemma octet4_f0: "octet4 i w AND 0xf0 = numeral n \<longleftrightarrow> 16 * (unat w div 2 ^ (8 * (3 - i)) mod 2 ^ 8 div 16 mod 16) = unat (numeral n :: 32 word)"
  by (metis octet4_unat and_f0_unat word_unat_eq_iff)

lemma div_range: "0 < d \<Longrightarrow> (m::nat) div d = q \<longleftrightarrow> q * d \<le> m \<and> m < (q + 1) * d"
  by (metis add.commute div_nat_eqI dividend_less_times_div mult.commute plus_1_eq_Suc mult_Suc_right times_div_less_eq_dividend)

lemma div_mod_pair: "b < 256 \<Longrightarrow> (q::nat) div 256 = a \<and> q mod 256 = b \<longleftrightarrow> q = 256 * a + b"
proof
  assume "q div 256 = a \<and> q mod 256 = b"
  then show "q = 256 * a + b" using mult_div_mod_eq [of 256 q] by simp
qed simp

lemma twelve_bits: "(q::nat) div 256 = 172 \<and> 16 * (q mod 256 div 16 mod 16) = 16 \<longleftrightarrow> q div 16 = 0xac1"
proof -
  have "q mod 256 div 16 < 16" by (simp add: less_mult_imp_div_less)
  moreover have "q div 16 = 16 * (q div 256) + q mod 256 div 16"
  proof -
    have "q = q mod 256 + (16 * (q div 256)) * 16" by simp
    then have "q div 16 = (q mod 256 + (16 * (q div 256)) * 16) div 16" by (rule arg_cong)
    then show ?thesis by (simp only: div_mult_self1)
  qed
  moreover have "16 * y + x = 0xac1 \<longleftrightarrow> y = 172 \<and> x = 1" if "x < 16" for x y :: nat
  proof
    assume e: "16 * y + x = 0xac1"
    with that have "y = 172" by linarith
    with e show "y = 172 \<and> x = 1" by simp
  qed simp
  ultimately show ?thesis by simp
qed

lemma octet_ranges:
  assumes n: "(n::nat) < 2 ^ 32"
  shows "n div 2 ^ 24 mod 256 = 10 \<longleftrightarrow> 0x0a000000 \<le> n \<and> n \<le> 0x0affffff"
    and "n div 2 ^ 24 mod 256 = 127 \<longleftrightarrow> 0x7f000000 \<le> n \<and> n \<le> 0x7fffffff"
    and "16 * (n div 2 ^ 24 mod 256 div 16 mod 16) = 224 \<longleftrightarrow> 0xe0000000 \<le> n \<and> n \<le> 0xefffffff"
    and "n div 2 ^ 24 mod 256 = 169 \<and> n div 2 ^ 16 mod 256 = 254 \<longleftrightarrow> 0xa9fe0000 \<le> n \<and> n \<le> 0xa9feffff"
    and "n div 2 ^ 24 mod 256 = 192 \<and> n div 2 ^ 16 mod 256 = 168 \<longleftrightarrow> 0xc0a80000 \<le> n \<and> n \<le> 0xc0a8ffff"
    and "n div 2 ^ 24 mod 256 = 172 \<and> 16 * (n div 2 ^ 16 mod 256 div 16 mod 16) = 16 \<longleftrightarrow> 0xac100000 \<le> n \<and> n \<le> 0xac1fffff"
proof -
  have q: "n div 2 ^ 24 < 256" using n by (simp add: less_mult_imp_div_less)
  then have d: "n div 2 ^ 24 mod 256 = n div 2 ^ 24" by simp
  have e: "n div 2 ^ 24 = n div 2 ^ 16 div 256" "n div 2 ^ 28 = n div 2 ^ 24 div 16" "n div 2 ^ 20 = n div 2 ^ 16 div 16"
    using div_mult2_eq [of n "2 ^ 16" 256] div_mult2_eq [of n "2 ^ 24" 16] div_mult2_eq [of n "2 ^ 16" 16] by simp_all
  have two: "n div 2 ^ 24 mod 256 = a \<and> n div 2 ^ 16 mod 256 = b \<longleftrightarrow> n div 2 ^ 16 = 256 * a + b" if "b < 256" for a b
    unfolding d unfolding e(1) by (rule div_mod_pair [OF that])
  show "n div 2 ^ 24 mod 256 = 10 \<longleftrightarrow> 0x0a000000 \<le> n \<and> n \<le> 0x0affffff" unfolding d by (auto simp: div_range)
  show "n div 2 ^ 24 mod 256 = 127 \<longleftrightarrow> 0x7f000000 \<le> n \<and> n \<le> 0x7fffffff" unfolding d by (auto simp: div_range)
  have "16 * (n div 2 ^ 24 mod 256 div 16 mod 16) = 224 \<longleftrightarrow> n div 2 ^ 28 = 14"
    using q unfolding d e(2) by (simp add: div_less_iff_less_mult)
  then show "16 * (n div 2 ^ 24 mod 256 div 16 mod 16) = 224 \<longleftrightarrow> 0xe0000000 \<le> n \<and> n \<le> 0xefffffff" by (auto simp: div_range)
  show "n div 2 ^ 24 mod 256 = 169 \<and> n div 2 ^ 16 mod 256 = 254 \<longleftrightarrow> 0xa9fe0000 \<le> n \<and> n \<le> 0xa9feffff"
    by (subst two) (auto simp: div_range)
  show "n div 2 ^ 24 mod 256 = 192 \<and> n div 2 ^ 16 mod 256 = 168 \<longleftrightarrow> 0xc0a80000 \<le> n \<and> n \<le> 0xc0a8ffff"
    by (subst two) (auto simp: div_range)
  have "n div 2 ^ 24 mod 256 = 172 \<and> 16 * (n div 2 ^ 16 mod 256 div 16 mod 16) = 16 \<longleftrightarrow> n div 2 ^ 20 = 0xac1"
    unfolding d unfolding e by (rule twelve_bits)
  then show "n div 2 ^ 24 mod 256 = 172 \<and> 16 * (n div 2 ^ 16 mod 256 div 16 mod 16) = 16 \<longleftrightarrow> 0xac100000 \<le> n \<and> n \<le> 0xac1fffff"
    by (auto simp: div_range)
qed


lemma raw16_IPv4: "raw16 (IPv4 w) \<noteq> 0"
proof
  assume "raw16 (IPv4 w) = 0"
  then have "bit (raw16 (IPv4 w)) 32 = False" by simp
  then show False by (simp add: raw16_def bit_simps)
qed

lemma class_ranges:
  shows "octet4 0 w = 10 \<longleftrightarrow> \<not> (w < 0x0a000000 \<or> 0x0affffff < w)"
    and "octet4 0 w = 127 \<longleftrightarrow> \<not> (w < 0x7f000000 \<or> 0x7fffffff < w)"
    and "octet4 0 w AND 0xf0 = 0xe0 \<longleftrightarrow> \<not> (w < 0xe0000000 \<or> 0xefffffff < w)"
    and "octet4 0 w = 169 \<and> octet4 1 w = 254 \<longleftrightarrow> \<not> (w < 0xa9fe0000 \<or> 0xa9feffff < w)"
    and "octet4 0 w = 192 \<and> octet4 1 w = 168 \<longleftrightarrow> \<not> (w < 0xc0a80000 \<or> 0xc0a8ffff < w)"
    and "octet4 0 w = 172 \<and> octet4 1 w AND 0xf0 = 16 \<longleftrightarrow> \<not> (w < 0xac100000 \<or> 0xac1fffff < w)"
    and "octet4 0 w = 224 \<Longrightarrow> octet4 0 w AND 0xf0 = 0xe0"
  using octet_ranges [of "unat w"] unsigned_less [of w, where ?'a = nat]
  by (simp_all add: octet4_eq octet4_f0 word_less_nat_alt not_less)

lemma To4_mapped: "To4 (IPv6 (raw16 (IPv4 w))) = Some w"
proof -
  have f: "(0xffff00000000 :: 128 word) = push_bit 32 (mask 16)"
    by (simp add: mask_eq_exp_minus_1 push_bit_eq_mult)
  have "drop_bit 32 (ucast w OR 0xffff00000000 :: 128 word) = mask 16"
    unfolding f by (rule bit_eqI) (auto simp: bit_drop_bit_eq bit_or_iff bit_push_bit_iff bit_mask_iff bit_unsigned_iff dest: bit_imp_le_length)
  moreover have "ucast (ucast w OR 0xffff00000000 :: 128 word) = w"
    unfolding f by (rule bit_eqI) (auto simp: bit_or_iff bit_push_bit_iff bit_mask_iff bit_unsigned_iff)
  ultimately show ?thesis by (simp add: To4_def raw16_def mask_eq_exp_minus_1)
qed

section \<open>Demonstration values\<close>

lemma demo_private: "\<not> isPublicAddress (IPv4 0x0a000001)" and demo_public: "isPublicAddress (IPv4 0x5db8d822)"
  by (simp_all add: isPublicAddress_def IsLoopback_def IsPrivate_def IsLinkLocalUnicast_def IsLinkLocalMulticast_def
      IsMulticast_def IsUnspecified_def To4_def octet4_def raw16_def)

lemma demo_dial: "dialPinned (withDefaults demoCfg) demoNet h = Inr (IPv4 0x5db8d822)" "dialPinned demoCfg demoNet h = Inr (IPv4 0x5db8d822)"
  by (simp_all add: dialPinned_def demoNet_def demoCfg_def withDefaults_def demo_private demo_public)

lemma demoURL_simps [simp]: "uHostname (demoURL h) = h" "httpScheme (demoURL h)"
  by (simp_all add: demoURL_def httpScheme_def)

lemma demoNet_simps [simp]: "netParseURL demoNet h = Some (demoURL h)"
  "netReply demoNet n a (demoURL h) = (if h = ''a.com'' then Redirect (demoURL ''b.com'') else Response 200 ''text/html'' ''hello'')"
  "ccMaxRedirects (withDefaults demoCfg) = 5"
  by (simp_all add: demoNet_def demoURL_def withDefaults_def demoCfg_def DefaultMaxRedirects_def)

lemmas demo_fetch = Fetch_def checkURL_def gate_def doRequest.simps checkRedirect_def demo_dial AllowHost_def
  matchesPolicy_def matchEntry_def HasPrefix_def governingHosts_def NewBroker_def

section \<open>Properties\<close>

text \<open>
  C20. Nothing leaves outside the allowlist. Every request that a fetch sends, the first one and every
  redirect it follows, is plain http or https, goes to a host that the session's policy permits, and is
  sent to an address that is public unless the operator opted out. A fetch sends at most
  \<^verbatim>\<open>MaxRedirects\<close> requests and returns at most \<^verbatim>\<open>MaxBodyBytes\<close> bytes.
\<close>

theorem fetch_stays_on_allowlist:
  assumes "Fetch (AllowHost now) (withDefaults cfg) net sess raw b = (b', sent, r)"
  shows "(\<forall>(u, a) \<in> set sent. httpScheme u \<and> matchesPolicy (uHostname u) (governingHosts b sess) \<and>
            (ccAllowPrivate cfg \<or> isPublicAddress a)) \<and>
         int (length sent) \<le> ccMaxRedirects (withDefaults cfg) \<and>
         (case r of Inl _ \<Rightarrow> True | Inr fr \<Rightarrow> int (length (frBody fr)) \<le> ccMaxBodyBytes (withDefaults cfg))"
  using assms
proof (cases rule: Fetch_cases)
  case (fSent u s x r')
  have u: "httpScheme u" using fSent(1) by (simp add: checkURL_Inr)
  have "brokerPermits s = brokerPermits b" "brokerPermits b sess (uHostname u)"
    using broker.gate_keeps [OF fSent(2)] broker.gate_sound [OF fSent(2)] by blast+
  with broker.doRequest_contacts [OF fSent(3) u]
  have sent: "length sent \<le> max (Suc 0) (nat (ccMaxRedirects (withDefaults cfg)))"
    "\<forall>(v, a) \<in> set sent. httpScheme v \<and> brokerPermits b sess (uHostname v) \<and>
       dialPinned (withDefaults cfg) net (uHostname v) = Inr a" by auto
  moreover have "case r of Inl _ \<Rightarrow> True | Inr fr \<Rightarrow> int (length (frBody fr)) \<le> ccMaxBodyBytes (withDefaults cfg)"
    using fSent(5) readBody_bound withDefaults_pos(2) [of cfg] by (auto split: sum.splits)
  ultimately show ?thesis
    using withDefaults_pos(1) [of cfg] withDefaults_pos(3) [of cfg] dialPinned_public
    by (fastforce simp: brokerPermits_def)
qed (use withDefaults_pos(1) [of cfg] in auto)

theorem fetch_stays_on_allowlist_witness:
  "(case Fetch (AllowHost 0) (withDefaults demoCfg) demoNet ''s'' ''a.com'' (NewBroker [''a.com'', ''b.com'']) of
     (b', sent, r) \<Rightarrow> sent = [(demoURL ''a.com'', IPv4 0x5db8d822), (demoURL ''b.com'', IPv4 0x5db8d822)] \<and> isOk r \<and>
       list_all (\<lambda>(u, a). isPublicAddress a) sent)"
proof -
  obtain b' r where f: "Fetch (AllowHost 0) (withDefaults demoCfg) demoNet ''s'' ''a.com'' (NewBroker [''a.com'', ''b.com'']) =
      (b', [(demoURL ''a.com'', IPv4 0x5db8d822), (demoURL ''b.com'', IPv4 0x5db8d822)], Inr r)"
    by (auto simp: demo_fetch)
  have "\<not> ccAllowPrivate demoCfg" by (simp add: demoCfg_def)
  then show ?thesis using fetch_stays_on_allowlist [OF f] f by (auto simp: list_all_iff)
qed

text \<open>
  C21. The audit trail is exact. The hosts a fetch was granted, in the order of the session's decisions,
  are the hosts it sent a request to, in that order, and at most one more whose connection could not be
  opened; a fetch that succeeds leaves no such extra entry.
\<close>

theorem fetch_audited:
  assumes "Fetch (AllowHost now) cfg net sess raw b = (b', sent, r)"
  shows "\<exists>undialled. grantedHosts b' sess = grantedHosts b sess @ map (uHostname \<circ> fst) sent @ undialled \<and>
           length undialled \<le> 1 \<and> (isOk r \<longrightarrow> undialled = [])"
  using assms
proof (cases rule: Fetch_cases)
  case (fRefused u e)
  then show ?thesis using broker.gate_refusal by fastforce
next
  case (fSent u s x r')
  then show ?thesis
    using broker.doRequest_audited [OF fSent(3), of "grantedHosts b sess"] broker.gate_logs [OF fSent(2)] by simp
qed simp

theorem fetch_audited_witness:
  "(case Fetch (AllowHost 0) demoCfg demoNet ''s'' ''c.com'' (NewBroker [''c.com'']) of
     (b', sent, r) \<Rightarrow> grantedHosts b' ''s'' = [''c.com''] \<and> sent = [(demoURL ''c.com'', IPv4 0x5db8d822)])"
proof -
  obtain b' r where f: "Fetch (AllowHost 0) demoCfg demoNet ''s'' ''c.com'' (NewBroker [''c.com'']) =
      (b', [(demoURL ''c.com'', IPv4 0x5db8d822)], Inr r)"
    by (auto simp: demo_fetch)
  have "grantedHosts (NewBroker [''c.com'']) ''s'' = []" by (simp add: grantedHosts_def DecisionsOf_def NewBroker_def)
  then show ?thesis using fetch_audited [OF f] f by (simp add: demoURL_def)
qed

text \<open>
  C22. What counts as public. The byte tests on an IPv4 address decide exactly the numeric ranges
  10.0.0.0/8, 127.0.0.0/8, 169.254.0.0/16 (with the cloud metadata address), 172.16.0.0/12,
  192.168.0.0/16, 224.0.0.0/4 and the address 0.0.0.0: everything else is public. Writing an IPv4
  address as an IPv4-mapped IPv6 address does not change the verdict.
\<close>

theorem public_ipv4_ranges:
  "(isPublicAddress (IPv4 w) \<longleftrightarrow> w \<noteq> 0 \<and>
     list_all (\<lambda>(lo, hi). w < lo \<or> hi < w)
       [(0x0a000000, 0x0affffff), (0x7f000000, 0x7fffffff), (0xa9fe0000, 0xa9feffff),
        (0xac100000, 0xac1fffff), (0xc0a80000, 0xc0a8ffff), (0xe0000000, 0xefffffff)]) \<and>
   isPublicAddress (IPv6 (raw16 (IPv4 w))) = isPublicAddress (IPv4 w)"
proof (rule conjI)
  have "isPublicAddress (IPv4 w) \<longleftrightarrow> \<not> (octet4 0 w = 127 \<or> octet4 0 w = 10 \<or> (octet4 0 w = 172 \<and> octet4 1 w AND 0xf0 = 16) \<or>
      (octet4 0 w = 192 \<and> octet4 1 w = 168) \<or> (octet4 0 w = 169 \<and> octet4 1 w = 254) \<or>
      (octet4 0 w = 224 \<and> octet4 1 w = 0 \<and> octet4 2 w = 0) \<or> octet4 0 w AND 0xf0 = 0xe0 \<or> w = 0)"
    by (auto simp: isPublicAddress_def IsLoopback_def IsPrivate_def IsLinkLocalUnicast_def IsLinkLocalMulticast_def
      IsMulticast_def IsUnspecified_def To4_def raw16_IPv4)
  then show "isPublicAddress (IPv4 w) \<longleftrightarrow> w \<noteq> 0 \<and>
     list_all (\<lambda>(lo, hi). w < lo \<or> hi < w)
       [(0x0a000000, 0x0affffff), (0x7f000000, 0x7fffffff), (0xa9fe0000, 0xa9feffff),
        (0xac100000, 0xac1fffff), (0xc0a80000, 0xc0a8ffff), (0xe0000000, 0xefffffff)]"
    unfolding class_ranges(1-6) list.pred_inject prod.case list_all_iff list.set using class_ranges(7) [of w, unfolded class_ranges(3)] by blast
  show "isPublicAddress (IPv6 (raw16 (IPv4 w))) = isPublicAddress (IPv4 w)"
    using raw16_IPv4 [of w] To4_mapped [of w]
    by (simp add: isPublicAddress_def IsLoopback_def IsPrivate_def IsLinkLocalUnicast_def IsLinkLocalMulticast_def
      IsMulticast_def IsUnspecified_def To4_def [of "IPv4 w"] raw16_def)
qed

end
