(* ===== verification/Dedup.thy ===== *)
theory Dedup
  imports Domain
begin

text \<open>
  The ledger of tool executions that makes side effects at most once: the PostgreSQL store
  (\<^verbatim>\<open>internal/toolruntime/adapter/outbound/dedup/store.go\<close>) and the in-memory ledger of the development
  server (\<^verbatim>\<open>cmd/boltrope-dev/dedup.go\<close>). Both provide the port \<^verbatim>\<open>app.DedupStore\<close>, which is the locale
  \<open>dedup_store\<close> here.

  The table \<^verbatim>\<open>tool_executions\<close> is a list of rows under the primary key tenant, session, idempotency key,
  and a row is visible to its own tenant. \<^verbatim>\<open>encoding/json\<close> on an \<^verbatim>\<open>Observation\<close> is the record \<open>obsCodec\<close>. Every
  statement may fail, as the argument of type \<open>dfaults\<close> says; a failed commit may have been applied
  (\<open>DLostCommit\<close>) or not. The in-memory ledger is keyed by the triple itself: the code joins the three
  quoted parts with NUL bytes, which is injective.
\<close>

section \<open>Records\<close>

record Observation =
  obContent :: string
  obIsError :: bool
  obTruncated :: bool
  obBlobRef :: string

definition zeroObs :: Observation where
  "zeroObs = \<lparr>obContent = '''', obIsError = False, obTruncated = False, obBlobRef = ''''\<rparr>"

datatype ExecutionStatus = ExecStarted | ExecCompleted | ExecFailed | ExecUnknown | ExecUnset

record ExecutionRecord =
  erTenantID :: string
  erSessionID :: string
  erIdempotencyKey :: string
  erStatus :: ExecutionStatus
  erResult :: Observation

type_synonym execKey = "string \<times> string \<times> string"

definition recKey :: "ExecutionRecord \<Rightarrow> execKey" where
  "recKey r = (erTenantID r, erSessionID r, erIdempotencyKey r)"

record ledgerRow =
  lrTenant :: string
  lrSession :: string
  lrKey :: string
  lrStatus :: ExecutionStatus
  lrResultRef :: "bytes option"

type_synonym ledger = "ledgerRow list"

record obsCodec =
  ocMarshal :: "Observation \<Rightarrow> bytes option"
  ocUnmarshal :: "bytes \<Rightarrow> Observation option"

datatype dstmt = DAcquire | DBegin | DSetTenant | DInsert | DUpdate | DRead | DCommit

datatype dfault = DFail | DUnique | DLostCommit

type_synonym dfaults = "dstmt \<Rightarrow> dfault option"

datatype dedup_error = DedupNoTenant | DedupDriver dstmt | DedupNotFound | DedupMarshal | DedupUnmarshal
  | DedupNoRow

definition noDFaults :: dfaults where "noDFaults _ = None"

section \<open>The PostgreSQL ledger\<close>

definition runD :: "dfaults \<Rightarrow> dstmt \<Rightarrow> dedup_error + unit" where
  "runD f s = (case f s of None \<Rightarrow> Inr () | Some _ \<Rightarrow> Inl (DedupDriver s))"

definition isUniqueViolation :: "dfault \<Rightarrow> bool" where
  "isUniqueViolation x \<longleftrightarrow> x = DUnique"

definition dedupBeginTenantTx :: "dfaults \<Rightarrow> string \<Rightarrow> dedup_error + unit" where
  "dedupBeginTenantTx f t =
     andThen (require (t \<noteq> '''') DedupNoTenant) (\<lambda>_.
     andThen (runD f DAcquire) (\<lambda>_.
     andThen (runD f DBegin) (\<lambda>_. runD f DSetTenant)))"

definition rowKey :: "ledgerRow \<Rightarrow> execKey" where
  "rowKey r = (lrTenant r, lrSession r, lrKey r)"

definition visibleRows :: "string \<Rightarrow> ledger \<Rightarrow> ledger" where
  "visibleRows t led = filter (\<lambda>r. lrTenant r = t) led"

definition findExec :: "execKey \<Rightarrow> ledger \<Rightarrow> ledgerRow option" where
  "findExec k led = find (\<lambda>r. rowKey r = k) (visibleRows (fst k) led)"

definition insertStarted :: "execKey \<Rightarrow> ledger \<Rightarrow> ledger" where
  "insertStarted k led =
     (if \<exists>r \<in> set led. rowKey r = k then led
      else led @ [\<lparr>lrTenant = fst k, lrSession = fst (snd k), lrKey = snd (snd k), lrStatus = ExecStarted, lrResultRef = None\<rparr>])"

definition decodeResult :: "obsCodec \<Rightarrow> bytes option \<Rightarrow> dedup_error + Observation" where
  "decodeResult oc ref =
     (case ref of
        None \<Rightarrow> Inr zeroObs
      | Some b \<Rightarrow> if b = '''' then Inr zeroObs
          else (case ocUnmarshal oc b of None \<Rightarrow> Inl DedupUnmarshal | Some ob \<Rightarrow> Inr ob))"

definition readRecord :: "obsCodec \<Rightarrow> dfaults \<Rightarrow> execKey \<Rightarrow> ledger \<Rightarrow> dedup_error + ExecutionRecord" where
  "readRecord oc f k led =
     andThen (runD f DRead) (\<lambda>_.
     (case findExec k led of
        None \<Rightarrow> Inl DedupNotFound
      | Some r \<Rightarrow>
          andThen (decodeResult oc (lrResultRef r)) (\<lambda>ob.
          Inr \<lparr>erTenantID = fst k, erSessionID = fst (snd k), erIdempotencyKey = snd (snd k),
               erStatus = lrStatus r, erResult = ob\<rparr>)))"

definition commitLedger :: "dfaults \<Rightarrow> ledger \<Rightarrow> ledger \<Rightarrow> 'a \<Rightarrow> ledger \<times> (dedup_error + 'a)" where
  "commitLedger f old new x =
     (case f DCommit of
        None \<Rightarrow> (new, Inr x)
      | Some flt \<Rightarrow> ((if flt = DLostCommit then new else old), Inl (DedupDriver DCommit)))"

definition BeginExec :: "obsCodec \<Rightarrow> dfaults \<Rightarrow> ExecutionRecord \<Rightarrow> ledger \<Rightarrow> ledger \<times> (dedup_error + ExecutionRecord)" where
  "BeginExec oc f rec led =
     (if erTenantID rec = '''' then (led, Inl DedupNoTenant) else
      case dedupBeginTenantTx f (erTenantID rec) of
        Inl e \<Rightarrow> (led, Inl e)
      | Inr _ \<Rightarrow>
          (case (case f DInsert of
                   None \<Rightarrow> Inr (insertStarted (recKey rec) led)
                 | Some flt \<Rightarrow> if isUniqueViolation flt then Inr led else Inl (DedupDriver DInsert)) of
             Inl e \<Rightarrow> (led, Inl e)
           | Inr led' \<Rightarrow>
               (case readRecord oc f (recKey rec) led' of
                  Inl e \<Rightarrow> (led, Inl e)
                | Inr existing \<Rightarrow> commitLedger f led led' existing)))"

definition setTerminal :: "execKey \<Rightarrow> ExecutionStatus \<Rightarrow> bytes \<Rightarrow> ledger \<Rightarrow> ledger" where
  "setTerminal k st ref led =
     map (\<lambda>r. if lrTenant r = fst k \<and> rowKey r = k then r\<lparr>lrStatus := st, lrResultRef := Some ref\<rparr> else r) led"

definition CompleteExec :: "obsCodec \<Rightarrow> dfaults \<Rightarrow> ExecutionRecord \<Rightarrow> ledger \<Rightarrow> ledger \<times> (dedup_error + unit)" where
  "CompleteExec oc f rec led =
     (if erTenantID rec = '''' then (led, Inl DedupNoTenant) else
      case ocMarshal oc (erResult rec) of
        None \<Rightarrow> (led, Inl DedupMarshal)
      | Some ref \<Rightarrow>
          (case dedupBeginTenantTx f (erTenantID rec) of
             Inl e \<Rightarrow> (led, Inl e)
           | Inr _ \<Rightarrow>
               if f DUpdate \<noteq> None \<or> findExec (recKey rec) led \<noteq> None \<and> erStatus rec = ExecUnset
               then (led, Inl (DedupDriver DUpdate))
               else if findExec (recKey rec) led = None then (led, Inl DedupNoRow)
               else commitLedger f led (setTerminal (recKey rec) (erStatus rec) ref led) ()))"

definition LookupExec :: "obsCodec \<Rightarrow> dfaults \<Rightarrow> execKey \<Rightarrow> ledger \<Rightarrow> dedup_error + ExecutionRecord" where
  "LookupExec oc f k led =
     andThen (require (fst k \<noteq> '''') DedupNoTenant) (\<lambda>_.
     andThen (dedupBeginTenantTx f (fst k)) (\<lambda>_. readRecord oc f k led))"

section \<open>The in-memory ledger\<close>

type_synonym memDedup = "execKey \<Rightarrow> ExecutionRecord option"

definition newMemDedup :: memDedup where "newMemDedup = (\<lambda>_. None)"

definition memBegin :: "ExecutionRecord \<Rightarrow> memDedup \<Rightarrow> memDedup \<times> (dedup_error + ExecutionRecord)" where
  "memBegin rec m =
     (case m (recKey rec) of
        Some existing \<Rightarrow> (m, Inr existing)
      | None \<Rightarrow> (let started = rec\<lparr>erStatus := ExecStarted\<rparr> in (m(recKey rec := Some started), Inr started)))"

definition memComplete :: "ExecutionRecord \<Rightarrow> memDedup \<Rightarrow> memDedup \<times> (dedup_error + unit)" where
  "memComplete rec m = (m(recKey rec := Some rec), Inr ())"

definition memLookup :: "execKey \<Rightarrow> memDedup \<Rightarrow> dedup_error + ExecutionRecord" where
  "memLookup k m = (case m k of None \<Rightarrow> Inl DedupNotFound | Some r \<Rightarrow> Inr r)"

section \<open>What both ledgers mean\<close>

text \<open>
  The abstract ledger: the status and the result recorded for a key. \<open>wfLedger\<close> is the primary key.
\<close>

definition wfLedger :: "ledger \<Rightarrow> bool" where
  "wfLedger led \<longleftrightarrow> distinct (map rowKey led)"

definition pgEntry :: "obsCodec \<Rightarrow> ledger \<Rightarrow> execKey \<Rightarrow> (ExecutionStatus \<times> Observation) option" where
  "pgEntry oc led k =
     map_option (\<lambda>r. (lrStatus r, case decodeResult oc (lrResultRef r) of Inl _ \<Rightarrow> zeroObs | Inr ob \<Rightarrow> ob)) (findExec k led)"

definition memEntry :: "memDedup \<Rightarrow> execKey \<Rightarrow> (ExecutionStatus \<times> Observation) option" where
  "memEntry m k = map_option (\<lambda>r. (erStatus r, erResult r)) (m k)"

definition roundTrips :: "obsCodec \<Rightarrow> Observation \<Rightarrow> bool" where
  "roundTrips oc ob \<longleftrightarrow> (\<exists>b. ocMarshal oc ob = Some b \<and> b \<noteq> '''' \<and> ocUnmarshal oc b = Some ob)"

section \<open>The port\<close>

text \<open>
  The laws a client of the port may use. \<open>entry\<close> is the abstract ledger. Beginning is get-or-create;
  completing overwrites; a call that fails has either no effect or its full effect. An attempt that
  succeeds without a fault (\<open>calm\<close>) is available, so the laws are not met by a ledger that always fails.
\<close>

locale dedup_store =
  fixes beginOp :: "'f \<Rightarrow> ExecutionRecord \<Rightarrow> 's \<Rightarrow> 's \<times> (dedup_error + ExecutionRecord)"
    and completeOp :: "'f \<Rightarrow> ExecutionRecord \<Rightarrow> 's \<Rightarrow> 's \<times> (dedup_error + unit)"
    and entry :: "'s \<Rightarrow> execKey \<Rightarrow> (ExecutionStatus \<times> Observation) option"
    and wf :: "'s \<Rightarrow> bool"
    and storable :: "Observation \<Rightarrow> bool"
    and calm :: 'f
  assumes begin_wf: "wf s \<Longrightarrow> erResult rec = zeroObs \<Longrightarrow> beginOp f rec s = (s', res) \<Longrightarrow> wf s'"
    and complete_wf: "wf s \<Longrightarrow> completeOp f rec s = (s', done) \<Longrightarrow> wf s'"
    and begin_new: "wf s \<Longrightarrow> erResult rec = zeroObs \<Longrightarrow> beginOp f rec s = (s', Inr r) \<Longrightarrow> entry s (recKey rec) = None \<Longrightarrow>
      entry s' = (entry s)(recKey rec := Some (ExecStarted, zeroObs)) \<and> erStatus r = ExecStarted"
    and begin_known: "wf s \<Longrightarrow> beginOp f rec s = (s', Inr r) \<Longrightarrow> entry s (recKey rec) = Some (st, ob) \<Longrightarrow>
      entry s' = entry s \<and> erStatus r = st \<and> erResult r = ob"
    and begin_failed: "wf s \<Longrightarrow> erResult rec = zeroObs \<Longrightarrow> beginOp f rec s = (s', Inl e) \<Longrightarrow>
      entry s' = entry s \<or> entry s (recKey rec) = None \<and> entry s' = (entry s)(recKey rec := Some (ExecStarted, zeroObs))"
    and complete_ok: "wf s \<Longrightarrow> storable (erResult rec) \<Longrightarrow> completeOp f rec s = (s', Inr u) \<Longrightarrow>
      entry s' = (entry s)(recKey rec := Some (erStatus rec, erResult rec))"
    and complete_failed: "wf s \<Longrightarrow> storable (erResult rec) \<Longrightarrow> completeOp f rec s = (s', Inl e) \<Longrightarrow>
      entry s' = entry s \<or> entry s' = (entry s)(recKey rec := Some (erStatus rec, erResult rec))"
    and complete_calm: "wf s \<Longrightarrow> storable (erResult rec) \<Longrightarrow> erTenantID rec \<noteq> '''' \<Longrightarrow> erStatus rec \<noteq> ExecUnset \<Longrightarrow>
      entry s (recKey rec) \<noteq> None \<Longrightarrow> isOk (snd (completeOp calm rec s))"
begin

lemma begin_others:
  "wf s \<Longrightarrow> erResult rec = zeroObs \<Longrightarrow> beginOp f rec s = (s', r) \<Longrightarrow> k \<noteq> recKey rec \<or> entry s k \<noteq> None \<Longrightarrow> entry s' k = entry s k"
  using begin_new [of s rec f s'] begin_known [of s f rec s'] begin_failed [of s rec f s']
  by (cases r; cases "entry s (recKey rec)") auto

lemma begin_recorded:
  "wf s \<Longrightarrow> erResult rec = zeroObs \<Longrightarrow> beginOp f rec s = (s', Inr r) \<Longrightarrow>
    \<exists>ob. entry s' (recKey rec) = Some (erStatus r, ob) \<and> (erStatus r = ExecCompleted \<longrightarrow> ob = erResult r)"
  using begin_new [of s rec f s'] begin_known [of s f rec s']
  by (cases "entry s (recKey rec)") auto

lemma complete_others:
  "wf s \<Longrightarrow> storable (erResult rec) \<Longrightarrow> completeOp f rec s = (s', u) \<Longrightarrow> k \<noteq> recKey rec \<Longrightarrow> entry s' k = entry s k"
  using complete_ok [of s rec f s'] complete_failed [of s rec f s'] by (cases u) auto

end

section \<open>Both ledgers provide the port\<close>

lemma findExec_None: "findExec k led = None \<longleftrightarrow> (\<forall>r \<in> set led. rowKey r \<noteq> k)"
  by (auto simp: findExec_def visibleRows_def find_None_iff rowKey_def)

lemma findExec_Nil: "findExec k [] = None"
  by (simp add: findExec_def visibleRows_def)

lemma findExec_Cons: "findExec k (r # led) = (if rowKey r = k then Some r else findExec k led)"
  by (auto simp: findExec_def visibleRows_def rowKey_def)

lemma findExec_rowKey: "findExec k led = Some r \<Longrightarrow> r \<in> set led \<and> rowKey r = k"
  by (induction led) (auto simp: findExec_Nil findExec_Cons split: if_splits)

lemma findExec_app: "findExec k (led @ led') = (case findExec k led of Some r \<Rightarrow> Some r | None \<Rightarrow> findExec k led')"
  by (induction led) (simp_all add: findExec_Nil findExec_Cons)

definition startedRow :: "execKey \<Rightarrow> ledgerRow" where
  "startedRow k = \<lparr>lrTenant = fst k, lrSession = fst (snd k), lrKey = snd (snd k), lrStatus = ExecStarted, lrResultRef = None\<rparr>"

lemma rowKey_startedRow: "rowKey (startedRow k) = k"
  by (simp add: rowKey_def startedRow_def)

lemma findExec_insertStarted:
  "findExec k (insertStarted k' led) =
     (if k = k' \<and> findExec k led = None then Some (startedRow k) else findExec k led)"
proof (cases "findExec k' led")
  case None
  then have "insertStarted k' led = led @ [startedRow k']"
    by (auto simp: insertStarted_def findExec_None startedRow_def)
  then show ?thesis using None
    by (simp add: findExec_app findExec_Cons findExec_Nil rowKey_startedRow split: option.splits)
next
  case (Some r)
  then have "insertStarted k' led = led" using findExec_rowKey [OF Some] by (auto simp: insertStarted_def)
  with Some show ?thesis by (cases "k = k'") simp_all
qed

lemma findExec_setTerminal:
  "findExec k (setTerminal k' st ref led) =
     (if k = k' then map_option (\<lambda>r. r\<lparr>lrStatus := st, lrResultRef := Some ref\<rparr>) (findExec k led) else findExec k led)"
  by (induction led) (auto simp: setTerminal_def rowKey_def findExec_Nil findExec_Cons)

lemma pgEntry_insertStarted:
  "pgEntry oc (insertStarted k led) = (if pgEntry oc led k = None then (pgEntry oc led)(k := Some (ExecStarted, zeroObs)) else pgEntry oc led)"
  by (rule ext) (simp add: pgEntry_def findExec_insertStarted startedRow_def decodeResult_def)

lemma pgEntry_setTerminal:
  "ocMarshal oc ob = Some ref \<Longrightarrow> roundTrips oc ob \<Longrightarrow> findExec k led \<noteq> None \<Longrightarrow>
   pgEntry oc (setTerminal k st ref led) = (pgEntry oc led)(k := Some (st, ob))"
  by (rule ext) (auto simp: pgEntry_def findExec_setTerminal decodeResult_def roundTrips_def)

lemma wf_insertStarted: "wfLedger led \<Longrightarrow> wfLedger (insertStarted k led)"
  by (auto simp: wfLedger_def insertStarted_def rowKey_def)

lemma map_rowKey_setTerminal: "map rowKey (setTerminal k st ref led) = map rowKey led"
  by (simp add: setTerminal_def rowKey_def)

lemma commitLedger_result: "commitLedger f old new x = (led', r) \<Longrightarrow> (led' = new \<and> (r = Inr x \<or> \<not> isOk r)) \<or> (led' = old \<and> \<not> isOk r)"
  by (auto simp: commitLedger_def split: option.splits)

lemma BeginExec_result:
  assumes b: "BeginExec oc f rec led = (led', r)"
  obtains "led' = led" "\<not> isOk r"
  | "led' = insertStarted (recKey rec) led" "\<not> isOk r"
  | x where "led' = led \<or> led' = insertStarted (recKey rec) led" "readRecord oc f (recKey rec) led' = Inr x" "r = Inr x"
proof (cases "dedupBeginTenantTx f (erTenantID rec)")
  case (Inl e)
  with b have "led' = led \<and> \<not> isOk r" by (cases r) (auto simp: BeginExec_def split: if_splits)
  then show ?thesis using that(1) by blast
next
  case (Inr u)
  define ins where "ins = (case f DInsert of
                   None \<Rightarrow> Inr (insertStarted (recKey rec) led)
                 | Some flt \<Rightarrow> if isUniqueViolation flt then Inr led else Inl (DedupDriver DInsert))"
  have ins: "ins = Inr l \<Longrightarrow> l = led \<or> l = insertStarted (recKey rec) led" for l
    by (auto simp: ins_def split: option.splits if_splits)
  show ?thesis
  proof (cases ins)
    case (Inl e)
    with b Inr have "led' = led \<and> \<not> isOk r" by (cases r) (auto simp: BeginExec_def ins_def [symmetric] split: if_splits)
    then show ?thesis using that(1) by blast
  next
    case (Inr l)
    with b \<open>dedupBeginTenantTx f (erTenantID rec) = Inr u\<close>
    have "led' = led \<and> \<not> isOk r \<or> (\<exists>x. readRecord oc f (recKey rec) l = Inr x \<and> commitLedger f led l x = (led', r))"
      by (cases r; cases "readRecord oc f (recKey rec) l") (auto simp: BeginExec_def ins_def [symmetric] split: if_splits)
    then show ?thesis using that ins [OF Inr] commitLedger_result by metis
  qed
qed

lemma CompleteExec_result:
  assumes c: "CompleteExec oc f rec led = (led', u)"
  obtains "led' = led" "\<not> isOk u"
  | ref where "ocMarshal oc (erResult rec) = Some ref" "findExec (recKey rec) led \<noteq> None"
      "led' = setTerminal (recKey rec) (erStatus rec) ref led"
proof (cases "dedupBeginTenantTx f (erTenantID rec)")
  case (Inl e)
  with c have "led' = led \<and> \<not> isOk u" by (cases u) (auto simp: CompleteExec_def split: if_splits option.splits)
  then show ?thesis using that(1) by blast
next
  case (Inr x)
  with c have "led' = led \<and> \<not> isOk u \<or> (\<exists>ref. ocMarshal oc (erResult rec) = Some ref \<and> findExec (recKey rec) led \<noteq> None \<and>
      commitLedger f led (setTerminal (recKey rec) (erStatus rec) ref led) () = (led', u))"
    by (cases u; cases "ocMarshal oc (erResult rec)") (auto simp: CompleteExec_def split: if_splits)
  then show ?thesis using that commitLedger_result by metis
qed

lemma readRecord_Inr:
  "readRecord oc f k led = Inr x \<Longrightarrow> pgEntry oc led k = Some (erStatus x, erResult x)"
  by (auto simp: readRecord_def pgEntry_def andThen_Inr_iff split: option.splits)

interpretation pgLedger: dedup_store "BeginExec oc" "CompleteExec oc" "pgEntry oc" wfLedger "roundTrips oc" noDFaults for oc
proof
  fix s rec f s' res
  assume "wfLedger s" "BeginExec oc f rec s = (s', res)"
  then show "wfLedger s'" using wf_insertStarted by (metis BeginExec_result)
next
  fix s rec f s' u
  assume "wfLedger s" "CompleteExec oc f rec s = (s', u)"
  then show "wfLedger s'" by (auto elim!: CompleteExec_result simp: wfLedger_def map_rowKey_setTerminal)
next
  fix s rec f s' r
  assume b: "BeginExec oc f rec s = (s', Inr r)" and new: "pgEntry oc s (recKey rec) = None"
  then have "readRecord oc f (recKey rec) s' = Inr r" "s' = s \<or> s' = insertStarted (recKey rec) s"
    by (auto elim!: BeginExec_result)
  with new readRecord_Inr [of oc f "recKey rec" s' r]
  show "pgEntry oc s' = (pgEntry oc s)(recKey rec := Some (ExecStarted, zeroObs)) \<and> erStatus r = ExecStarted"
    by (auto simp: pgEntry_insertStarted)
next
  fix s rec f s' r st ob
  assume b: "BeginExec oc f rec s = (s', Inr r)" and known: "pgEntry oc s (recKey rec) = Some (st, ob)"
  then have "readRecord oc f (recKey rec) s' = Inr r" "s' = s \<or> s' = insertStarted (recKey rec) s"
    by (auto elim!: BeginExec_result)
  with known readRecord_Inr [of oc f "recKey rec" s' r]
  show "pgEntry oc s' = pgEntry oc s \<and> erStatus r = st \<and> erResult r = ob"
    by (auto simp: pgEntry_insertStarted)
next
  fix s rec f s' e
  assume "BeginExec oc f rec s = (s', Inl e)"
  then have "s' = s \<or> s' = insertStarted (recKey rec) s" by (auto elim!: BeginExec_result)
  then show "pgEntry oc s' = pgEntry oc s \<or> pgEntry oc s (recKey rec) = None \<and> pgEntry oc s' = (pgEntry oc s)(recKey rec := Some (ExecStarted, zeroObs))"
    by (auto simp: pgEntry_insertStarted)
next
  fix s rec f s' u
  assume "roundTrips oc (erResult rec)" "CompleteExec oc f rec s = (s', Inr u)"
  then show "pgEntry oc s' = (pgEntry oc s)(recKey rec := Some (erStatus rec, erResult rec))"
    by (auto elim!: CompleteExec_result simp: pgEntry_setTerminal)
next
  fix s rec f s' e
  assume "roundTrips oc (erResult rec)" "CompleteExec oc f rec s = (s', Inl e)"
  then show "pgEntry oc s' = pgEntry oc s \<or> pgEntry oc s' = (pgEntry oc s)(recKey rec := Some (erStatus rec, erResult rec))"
    by (auto elim!: CompleteExec_result simp: pgEntry_setTerminal)
next
  fix s rec
  assume "roundTrips oc (erResult rec)" "erTenantID rec \<noteq> ''''" "erStatus rec \<noteq> ExecUnset" "pgEntry oc s (recKey rec) \<noteq> None"
  then show "isOk (snd (CompleteExec oc noDFaults rec s))"
    by (auto simp: CompleteExec_def roundTrips_def dedupBeginTenantTx_def runD_def noDFaults_def commitLedger_def pgEntry_def)
qed

lemma memEntry_upd [simp]: "memEntry (m(k := Some r)) = (memEntry m)(k := Some (erStatus r, erResult r))"
  by (auto simp: memEntry_def)

lemma memBegin_result:
  "memBegin rec m = (m', r) \<Longrightarrow>
     (\<exists>x. m (recKey rec) = Some x \<and> m' = m \<and> r = Inr x) \<or>
     (m (recKey rec) = None \<and> m' = m(recKey rec := Some (rec\<lparr>erStatus := ExecStarted\<rparr>)) \<and> r = Inr (rec\<lparr>erStatus := ExecStarted\<rparr>))"
  by (auto simp: memBegin_def Let_def split: option.splits)

lemma recKey_status [simp]: "recKey (rec\<lparr>erStatus := x\<rparr>) = recKey rec"
  by (simp add: recKey_def)

interpretation memLedger: dedup_store "\<lambda>_::unit. memBegin" "\<lambda>_. memComplete" memEntry "\<lambda>_. True" "\<lambda>_. True" "()"
proof (unfold_locales, goal_cases)
  case (3 s rec f s' r)
  then show ?case using memBegin_result [OF 3(3)] by (auto simp: memEntry_def)
next
  case (4 s f rec s' r st ob)
  then show ?case using memBegin_result [OF 4(2)] by (auto simp: memEntry_def)
next
  case (5 s rec f s' e)
  then show ?case using memBegin_result [OF 5(3)] by auto
next
  case (6 s rec f s' u)
  then have "s' = s(recKey rec := Some rec)" by (simp add: memComplete_def)
  then show ?case by simp
qed (simp_all add: memComplete_def)

end
