(* ===== verification/BlobStore.thy ===== *)
theory BlobStore
  imports Domain
begin

text \<open>
  The filesystem store for large payloads, \<^verbatim>\<open>internal/platform/blob/fsstore.go\<close>, behind the port
  \<^verbatim>\<open>BlobStorePort\<close>. The file system is a map from paths to contents; the operations of one call that fail
  are given by the argument of type \<open>fsfaults\<close>. The JSON form of the metadata is the record \<open>metaCodec\<close>.
  The path separator is a slash, and \<^verbatim>\<open>filepath.Join\<close> of a clean directory with a name that holds no
  separator is \<open>joinPath\<close>. The contract that a client relies on is the locale \<open>blob_store\<close>.
\<close>

section \<open>Data\<close>

record Ref =
  refTenantID :: string
  refKey :: string

record Object =
  objRef :: Ref
  objMediaType :: string
  objSizeBytes :: int

record FSStore =
  fsRoot :: string
  fsMaxBytes :: int

record blobMeta =
  bmMediaType :: string
  bmSizeBytes :: int

record metaCodec =
  mcMarshal :: "blobMeta \<Rightarrow> bytes option"
  mcUnmarshal :: "bytes \<Rightarrow> blobMeta option"

type_synonym files = "string \<Rightarrow> bytes option"

datatype fsop = FRead | FMkdir | FCreateTemp string | FWrite string | FSync string | FChmod string | FClose string
  | FRename string | FOpen string | FRemove string

type_synonym fsfaults = "fsop \<Rightarrow> bool"

datatype blob_error = BlobNotFound | BlobTooLarge | BlobIO fsop | BlobMetaMarshal | BlobMetaParse

definition IsZero :: "Ref \<Rightarrow> bool" where
  "IsZero r \<longleftrightarrow> refTenantID r = '''' \<and> refKey r = ''''"

section \<open>Paths\<close>

fun ReplaceAll :: "string \<Rightarrow> string \<Rightarrow> string \<Rightarrow> string" where
  "ReplaceAll [] old new = []"
| "ReplaceAll (c # s) old new =
     (if old \<noteq> [] \<and> HasPrefix (c # s) old then new @ ReplaceAll (drop (length old - 1) s) old new
      else c # ReplaceAll s old new)"

definition keyBase :: "string \<Rightarrow> string" where
  "keyBase key = ReplaceAll (ReplaceAll (ReplaceAll key ''/'' ''_'') ''/'' ''_'') ''..'' ''_''"

definition joinPath :: "string \<Rightarrow> string \<Rightarrow> string" where
  "joinPath dir name = (if name = '''' \<or> name = ''.'' then dir else dir @ ''/'' @ name)"

definition tenantDir :: "FSStore \<Rightarrow> string \<Rightarrow> string" where
  "tenantDir st tenantID =
     joinPath (fsRoot st) (ReplaceAll (ReplaceAll (ReplaceAll tenantID ''/'' ''_'') ''/'' ''_'') ''..'' ''_'')"

definition blobPaths :: "FSStore \<Rightarrow> Ref \<Rightarrow> string \<times> string" where
  "blobPaths st ref =
     (let base = joinPath (tenantDir st (refTenantID ref)) (keyBase (refKey ref))
      in (base @ ''.blob'', base @ ''.meta.json''))"

section \<open>Operations\<close>

definition ioStep :: "fsfaults \<Rightarrow> fsop \<Rightarrow> blob_error + unit" where
  "ioStep f op = require (\<not> f op) (BlobIO op)"

definition writeFileAtomic :: "fsfaults \<Rightarrow> string \<Rightarrow> bytes \<Rightarrow> files \<Rightarrow> blob_error + files" where
  "writeFileAtomic f path data fs =
     andThen (ioStep f (FCreateTemp path)) (\<lambda>_.
     andThen (ioStep f (FWrite path)) (\<lambda>_.
     andThen (ioStep f (FSync path)) (\<lambda>_.
     andThen (ioStep f (FChmod path)) (\<lambda>_.
     andThen (ioStep f (FClose path)) (\<lambda>_.
     andThen (ioStep f (FRename path)) (\<lambda>_. Inr (fs(path := Some data))))))))"

definition readPayload :: "FSStore \<Rightarrow> fsfaults \<Rightarrow> bytes \<Rightarrow> blob_error + bytes" where
  "readPayload st f stream =
     (if 0 < fsMaxBytes st then
        (let data = take (nat (fsMaxBytes st + 1)) stream in
         andThen (ioStep f FRead) (\<lambda>_.
         andThen (require (int (length data) \<le> fsMaxBytes st) BlobTooLarge) (\<lambda>_. Inr data)))
      else andThen (ioStep f FRead) (\<lambda>_. Inr stream))"

definition Put ::
  "FSStore \<Rightarrow> metaCodec \<Rightarrow> fsfaults \<Rightarrow> Ref \<Rightarrow> string \<Rightarrow> bytes \<Rightarrow> files \<Rightarrow> files \<times> (blob_error + Object)" where
  "Put st mc f ref mediaType stream fs =
     (case andThen (readPayload st f stream) (\<lambda>data. andThen (ioStep f FMkdir) (\<lambda>_. Inr data)) of
        Inl e \<Rightarrow> (fs, Inl e)
      | Inr data \<Rightarrow>
          (case writeFileAtomic f (fst (blobPaths st ref)) data fs of
             Inl e \<Rightarrow> (fs, Inl e)
           | Inr fs1 \<Rightarrow>
               (case mcMarshal mc \<lparr>bmMediaType = mediaType, bmSizeBytes = int (length data)\<rparr> of
                  None \<Rightarrow> (fs1, Inl BlobMetaMarshal)
                | Some mb \<Rightarrow>
                    (case writeFileAtomic f (snd (blobPaths st ref)) mb fs1 of
                       Inl e \<Rightarrow> (fs1, Inl e)
                     | Inr fs2 \<Rightarrow> (fs2, Inr \<lparr>objRef = ref, objMediaType = mediaType, objSizeBytes = int (length data)\<rparr>)))))"

definition readMeta :: "FSStore \<Rightarrow> metaCodec \<Rightarrow> fsfaults \<Rightarrow> Ref \<Rightarrow> files \<Rightarrow> blob_error + Object" where
  "readMeta st mc f ref fs =
     (let p = snd (blobPaths st ref) in
      case fs p of
        None \<Rightarrow> Inl BlobNotFound
      | Some raw \<Rightarrow>
          andThen (ioStep f (FOpen p)) (\<lambda>_.
          (case mcUnmarshal mc raw of
             None \<Rightarrow> Inl BlobMetaParse
           | Some m \<Rightarrow> Inr \<lparr>objRef = ref, objMediaType = bmMediaType m, objSizeBytes = bmSizeBytes m\<rparr>)))"

definition GetBlob :: "FSStore \<Rightarrow> metaCodec \<Rightarrow> fsfaults \<Rightarrow> Ref \<Rightarrow> files \<Rightarrow> blob_error + (Object \<times> bytes)" where
  "GetBlob st mc f ref fs =
     andThen (readMeta st mc f ref fs) (\<lambda>obj.
     (let p = fst (blobPaths st ref) in
      case fs p of
        None \<Rightarrow> Inl BlobNotFound
      | Some bs \<Rightarrow> andThen (ioStep f (FOpen p)) (\<lambda>_. Inr (obj, bs))))"

definition Stat :: "FSStore \<Rightarrow> metaCodec \<Rightarrow> fsfaults \<Rightarrow> Ref \<Rightarrow> files \<Rightarrow> blob_error + Object" where
  "Stat st mc f ref fs = readMeta st mc f ref fs"

definition removeFile :: "fsfaults \<Rightarrow> string \<Rightarrow> files \<Rightarrow> blob_error + files" where
  "removeFile f p fs =
     (case fs p of None \<Rightarrow> Inr fs | Some _ \<Rightarrow> andThen (ioStep f (FRemove p)) (\<lambda>_. Inr (fs(p := None))))"

definition DeleteBlob :: "FSStore \<Rightarrow> fsfaults \<Rightarrow> Ref \<Rightarrow> files \<Rightarrow> files \<times> (blob_error + unit)" where
  "DeleteBlob st f ref fs =
     (case removeFile f (fst (blobPaths st ref)) fs of
        Inl e \<Rightarrow> (fs, Inl e)
      | Inr fs1 \<Rightarrow>
          (case removeFile f (snd (blobPaths st ref)) fs1 of
             Inl e \<Rightarrow> (fs1, Inl e)
           | Inr fs2 \<Rightarrow> (fs2, Inr ())))"

definition noIOFaults :: fsfaults where "noIOFaults _ = False"

definition safeName :: "string \<Rightarrow> bool" where
  "safeName n \<longleftrightarrow> CHR ''/'' \<notin> set n \<and> \<not> Contains n ''..'' \<and> n \<noteq> '''' \<and> n \<noteq> ''.''"

definition safeRef :: "Ref \<Rightarrow> bool" where
  "safeRef r \<longleftrightarrow> safeName (refTenantID r) \<and> safeName (refKey r)"

definition demoMeta :: metaCodec where
  "demoMeta = \<lparr>mcMarshal = (\<lambda>m. Some (bmMediaType m @ ''|'' @ FormatInt (bmSizeBytes m))),
     mcUnmarshal = (\<lambda>b. let i = length (takeWhile (\<lambda>c. c \<noteq> CHR ''|'') b) in
       Some \<lparr>bmMediaType = take i b, bmSizeBytes = int (readDigits (drop (Suc i) b))\<rparr>)\<rparr>"

definition demoStore :: FSStore where "demoStore = \<lparr>fsRoot = ''/b'', fsMaxBytes = 0\<rparr>"

definition metaRoundTrips :: "metaCodec \<Rightarrow> string \<Rightarrow> int \<Rightarrow> bool" where
  "metaRoundTrips mc mt n \<longleftrightarrow> (\<forall>b. mcMarshal mc \<lparr>bmMediaType = mt, bmSizeBytes = n\<rparr> = Some b \<longrightarrow>
     mcUnmarshal mc b = Some \<lparr>bmMediaType = mt, bmSizeBytes = n\<rparr>)"

definition demoRef :: "string \<Rightarrow> Ref" where "demoRef t = \<lparr>refTenantID = t, refKey = ''k''\<rparr>"

section \<open>The contract\<close>

text \<open>
  A successful put can be read back, and it leaves every other blob alone. \<open>names\<close> are the refs the
  contract covers.
\<close>

locale blob_store =
  fixes put :: "'f \<Rightarrow> Ref \<Rightarrow> string \<Rightarrow> bytes \<Rightarrow> 's \<Rightarrow> 's \<times> (blob_error + Object)"
    and get :: "Ref \<Rightarrow> 's \<Rightarrow> blob_error + (Object \<times> bytes)"
    and names :: "Ref \<Rightarrow> bool"
    and storableMeta :: "string \<Rightarrow> int \<Rightarrow> bool"
  assumes put_get: "put f ref mt bs s = (s', Inr obj) \<Longrightarrow> storableMeta mt (int (length bs)) \<Longrightarrow> get ref s' = Inr (obj, bs)"
    and put_size: "put f ref mt bs s = (s', Inr obj) \<Longrightarrow> objSizeBytes obj = int (length bs)"
    and put_frame: "put f ref mt bs s = (s', res) \<Longrightarrow> names ref \<Longrightarrow> names ref' \<Longrightarrow> ref' \<noteq> ref \<Longrightarrow> get ref' s' = get ref' s"
begin

lemma put_twice:
  "put f ref mt bs s = (s', Inr obj) \<Longrightarrow> storableMeta mt (int (length bs)) \<Longrightarrow> names ref \<Longrightarrow> names ref' \<Longrightarrow> ref' \<noteq> ref \<Longrightarrow>
   put f' ref' mt' bs' s' = (s'', res) \<Longrightarrow> get ref s'' = Inr (obj, bs)"
  using put_get put_frame by metis

end

section \<open>Sanitising\<close>

lemma ReplaceAll_id: "\<not> Contains s old \<Longrightarrow> ReplaceAll s old new = s"
  by (induction s old new rule: ReplaceAll.induct) auto

lemma not_Contains_single: "CHR ''/'' \<notin> set n \<Longrightarrow> \<not> Contains n ''/''"
  by (induction n) (auto simp: HasPrefix_def)

lemma safeName_sanitised:
  "safeName n \<Longrightarrow> ReplaceAll (ReplaceAll (ReplaceAll n ''/'' ''_'') ''/'' ''_'') ''..'' ''_'' = n"
  by (simp add: safeName_def not_Contains_single ReplaceAll_id)

lemma safe_paths:
  "safeRef r \<Longrightarrow> blobPaths st r =
     (fsRoot st @ ''/'' @ refTenantID r @ ''/'' @ refKey r @ ''.blob'',
      fsRoot st @ ''/'' @ refTenantID r @ ''/'' @ refKey r @ ''.meta.json'')"
  using safeName_sanitised [of "refTenantID r"] safeName_sanitised [of "refKey r"]
  by (simp add: safeRef_def safeName_def blobPaths_def tenantDir_def keyBase_def joinPath_def Let_def)

lemma split_at_slash: "t @ CHR ''/'' # a = t' @ CHR ''/'' # b \<Longrightarrow> CHR ''/'' \<notin> set t \<Longrightarrow> CHR ''/'' \<notin> set t' \<Longrightarrow> t = t' \<and> a = b"
  by (induction t t' rule: list_induct2') auto

lemma append_last_neq: "last x \<noteq> last y \<Longrightarrow> x \<noteq> [] \<Longrightarrow> y \<noteq> [] \<Longrightarrow> a @ x \<noteq> b @ y"
  by (metis last_appendR)

lemma own_paths_differ: "fst (blobPaths st r) \<noteq> snd (blobPaths st r)"
  by (simp add: blobPaths_def Let_def)

lemma safe_paths_differ:
  assumes r: "safeRef r" and r': "safeRef r'" and ne: "r' \<noteq> r"
  shows "fst (blobPaths st r') \<noteq> fst (blobPaths st r)" "snd (blobPaths st r') \<noteq> snd (blobPaths st r)"
    "fst (blobPaths st r') \<noteq> snd (blobPaths st r)" "snd (blobPaths st r') \<noteq> fst (blobPaths st r)"
proof -
  have t: "CHR ''/'' \<notin> set (refTenantID r)" "CHR ''/'' \<notin> set (refTenantID r')"
    using r r' by (simp_all add: safeRef_def safeName_def)
  have ne': "refTenantID r' \<noteq> refTenantID r \<or> refKey r' \<noteq> refKey r" using ne by auto
  have split: "refTenantID r' @ CHR ''/'' # a = refTenantID r @ CHR ''/'' # b \<longleftrightarrow> refTenantID r' = refTenantID r \<and> a = b" for a b
    using split_at_slash [OF _ t(2) t(1)] by blast
  show "fst (blobPaths st r') \<noteq> fst (blobPaths st r)" "snd (blobPaths st r') \<noteq> snd (blobPaths st r)"
    using ne' by (simp_all add: safe_paths [OF r] safe_paths [OF r'] split)
  show "fst (blobPaths st r') \<noteq> snd (blobPaths st r)" "snd (blobPaths st r') \<noteq> fst (blobPaths st r)"
    unfolding safe_paths [OF r] safe_paths [OF r'] fst_conv snd_conv append_assoc [symmetric]
    by (rule append_last_neq; simp)+
qed

lemma writeFileAtomic_Inr: "writeFileAtomic f p data fs = Inr fs' \<Longrightarrow> fs' = fs(p := Some data)"
  by (auto simp: writeFileAtomic_def andThen_Inr_iff)

lemma readPayload_Inr: "readPayload st f stream = Inr data \<Longrightarrow> data = stream"
  by (auto simp: readPayload_def Let_def andThen_Inr_iff split: if_splits)

lemma Put_success:
  assumes "Put st mc f ref mt bs fs = (fs', Inr obj)"
  shows "\<exists>mb. mcMarshal mc \<lparr>bmMediaType = mt, bmSizeBytes = int (length bs)\<rparr> = Some mb \<and>
    fs' = fs(fst (blobPaths st ref) := Some bs, snd (blobPaths st ref) := Some mb) \<and>
    obj = \<lparr>objRef = ref, objMediaType = mt, objSizeBytes = int (length bs)\<rparr>"
  using assms
  by (auto simp: Put_def andThen_Inr_iff dest!: writeFileAtomic_Inr readPayload_Inr split: sum.splits option.splits)

lemma Put_files:
  assumes "Put st mc f ref mt bs fs = (fs', r)" and "p \<noteq> fst (blobPaths st ref)" and "p \<noteq> snd (blobPaths st ref)"
  shows "fs' p = fs p"
  using assms by (auto simp: Put_def dest!: writeFileAtomic_Inr split: sum.splits option.splits)

interpretation fsBlobs: blob_store "Put st mc" "GetBlob st mc noIOFaults" safeRef "metaRoundTrips mc" for st mc
proof (unfold_locales, goal_cases)
  case (1 f ref mt bs s s' obj)
  then show ?case
    using own_paths_differ [of st ref]
    by (auto dest!: Put_success simp: GetBlob_def readMeta_def Let_def metaRoundTrips_def ioStep_def noIOFaults_def)
next
  case (2 f ref mt bs s s' obj)
  then show ?case by (auto dest!: Put_success)
next
  case (3 f ref mt bs s s' res ref')
  then have "s' (fst (blobPaths st ref')) = s (fst (blobPaths st ref'))" "s' (snd (blobPaths st ref')) = s (snd (blobPaths st ref'))"
    using Put_files [OF 3(1)] safe_paths_differ [OF 3(2,3,4)] by metis+
  then show ?case by (simp add: GetBlob_def readMeta_def Let_def)
qed

section \<open>Properties\<close>

text \<open>
  C23. Blobs of different tenants are kept apart, for names that survive sanitising. A put that succeeds
  is read back byte for byte with its exact size; the puts of one ref never change what another safe ref
  reads. Names are safe when they hold no slash and no double dot; without that, the tenants \<open>a/b\<close> and
  \<open>a_b\<close> share one directory.
\<close>

theorem blobs_isolated:
  assumes "Put st mc f ref mt bs fs = (fs', Inr obj)" and "metaRoundTrips mc mt (int (length bs))"
    and "safeRef ref" and "safeRef ref'" and "ref' \<noteq> ref"
  shows "GetBlob st mc noIOFaults ref fs' = Inr (obj, bs) \<and> objSizeBytes obj = int (length bs) \<and>
    GetBlob st mc noIOFaults ref' fs' = GetBlob st mc noIOFaults ref' fs \<and>
    tenantDir st ''a/b'' = tenantDir st ''a_b''"
proof -
  have "tenantDir st ''a/b'' = tenantDir st ''a_b''"
    by (simp add: tenantDir_def HasPrefix_def)
  then show ?thesis
    using fsBlobs.put_get [OF assms(1,2)] fsBlobs.put_size [OF assms(1)] fsBlobs.put_frame [OF assms(1,3,4,5)] by blast
qed

theorem blobs_isolated_witness:
  "(case Put demoStore demoMeta noIOFaults (demoRef ''t'') ''x'' ''hello'' (\<lambda>_. None) of
     (fs', r) \<Rightarrow> r = Inr \<lparr>objRef = demoRef ''t'', objMediaType = ''x'', objSizeBytes = 5\<rparr> \<and>
       GetBlob demoStore demoMeta noIOFaults (demoRef ''t'') fs' = Inr (projr r, ''hello'') \<and>
       GetBlob demoStore demoMeta noIOFaults (demoRef ''u'') fs' = Inl BlobNotFound)"
proof -
  obtain fs' where p: "Put demoStore demoMeta noIOFaults (demoRef ''t'') ''x'' ''hello'' (\<lambda>_. None) =
      (fs', Inr \<lparr>objRef = demoRef ''t'', objMediaType = ''x'', objSizeBytes = 5\<rparr>)"
    by (simp add: Put_def readPayload_def demoStore_def ioStep_def noIOFaults_def writeFileAtomic_def demoMeta_def)
  have m: "metaRoundTrips demoMeta ''x'' (int (length ''hello''))"
    by (simp add: metaRoundTrips_def demoMeta_def FormatInt_def readDigits_FormatNat Let_def)
  have "safeRef (demoRef ''t'')" "safeRef (demoRef ''u'')" "demoRef ''u'' \<noteq> demoRef ''t''" by code_simp+
  moreover have "GetBlob demoStore demoMeta noIOFaults (demoRef ''u'') (\<lambda>_. None) = Inl BlobNotFound"
    by (simp add: GetBlob_def readMeta_def Let_def)
  ultimately show ?thesis using blobs_isolated [OF p m] p by simp
qed

end
