(* ===== verification/ToolExec.thy ===== *)
theory ToolExec
  imports HashChain Encoding Egress Dedup BlobStore "HOL-Library.AList"
begin

text \<open>
  The tool runtime: the merged catalog of native and MCP tools with its validate-then-execute decorator
  (\<^verbatim>\<open>internal/toolruntime/adapter/registry\<close>) and the use case that runs one call
  (\<^verbatim>\<open>internal/toolruntime/app/execute/service.go\<close>).

  A tool acts on a world of arbitrary type \<open>'w\<close>, so that a property can say that a call had no side
  effect. The service takes its collaborators as interfaces: the record \<^verbatim>\<open>Service\<close> holds the operations of
  the ledger, the egress broker and the blob store, each on a state of its own, and the properties
  instantiate them with the ledger, broker and file store of the earlier theories. Compiling a JSON schema
  is the parameter \<open>compileSchema\<close>; a compiled schema maps arguments to an error message or accepts. The
  per-call timeout acts inside the tool. Error texts quote with \<open>goQuote\<close>, the verb \<open>%q\<close> on printable text.
\<close>

section \<open>Tools\<close>

record ToolSpec =
  tsName :: string
  tsDescription :: string
  tsJSONSchema :: bytes
  tsSideEffect :: SideEffect
  tsEgressClass :: EgressClass

definition specIsReadOnly :: "ToolSpec \<Rightarrow> bool" where
  "specIsReadOnly s \<longleftrightarrow> tsSideEffect s = SideEffectReadOnly"

definition specIsExternal :: "ToolSpec \<Rightarrow> bool" where
  "specIsExternal s \<longleftrightarrow> tsEgressClass s = EgressClassExternal"

type_synonym schema = "args \<Rightarrow> string option"

type_synonym 'w runfun = "string \<Rightarrow> args \<Rightarrow> 'w \<Rightarrow> 'w \<times> (string + Observation)"

datatype 'w tool = BaseTool ToolSpec "(args \<Rightarrow> string option) option" "'w runfun"
  | ValidatingTool "'w tool" schema

primrec Spec :: "'w tool \<Rightarrow> ToolSpec" where
  "Spec (BaseTool sp _ _) = sp"
| "Spec (ValidatingTool inner _) = Spec inner"

primrec runTool :: "'w tool \<Rightarrow> string \<Rightarrow> args \<Rightarrow> 'w \<Rightarrow> 'w \<times> (string + Observation)" where
  "runTool (BaseTool _ _ run) sess as w = run sess as w"
| "runTool (ValidatingTool inner sch) sess as w =
     (case sch as of
        Some err \<Rightarrow> (w, Inr (zeroObs\<lparr>obContent := ''invalid arguments for tool '' @ goQuote (tsName (Spec inner)) @ '': '' @ err,
                                   obIsError := True\<rparr>))
      | None \<Rightarrow> runTool inner sess as w)"

section \<open>The registry\<close>

datatype reg_error = NameEmpty | DescriptionEmpty string | SchemaEmpty string | SchemaInvalid string string
  | DuplicateTool string | ToolNotFound string | MCPLoadFailed string

type_synonym 'w compiledTool = "'w tool \<times> schema"

record 'w Registry =
  regNative :: "(string \<times> 'w compiledTool) list"
  regMCPTools :: "(string \<times> 'w compiledTool) list"
  regMCPLoaded :: bool

type_synonym 'w mcpSource = "(string + 'w tool list) option"

definition NewRegistry :: "'w Registry" where
  "NewRegistry = \<lparr>regNative = [], regMCPTools = [], regMCPLoaded = False\<rparr>"

definition compileTool :: "(bytes \<Rightarrow> string + schema) \<Rightarrow> 'w tool \<Rightarrow> reg_error + 'w compiledTool" where
  "compileTool compileSchema t =
     (let sp = Spec t in
      if tsName sp = '''' then Inl NameEmpty
      else if tsDescription sp = '''' then Inl (DescriptionEmpty (tsName sp))
      else if tsJSONSchema sp = '''' then Inl (SchemaEmpty (tsName sp))
      else (case compileSchema (tsJSONSchema sp) of
              Inl e \<Rightarrow> Inl (SchemaInvalid (tsName sp) e)
            | Inr sch \<Rightarrow> Inr (t, sch)))"

definition RegisterTool :: "(bytes \<Rightarrow> string + schema) \<Rightarrow> 'w tool \<Rightarrow> 'w Registry \<Rightarrow> 'w Registry \<times> (reg_error + unit)" where
  "RegisterTool compileSchema t reg =
     (case compileTool compileSchema t of
        Inl e \<Rightarrow> (reg, Inl e)
      | Inr ct \<Rightarrow>
          (if map_of (regNative reg) (tsName (Spec t)) \<noteq> None then (reg, Inl (DuplicateTool (tsName (Spec t))))
           else (reg\<lparr>regNative := regNative reg @ [(tsName (Spec t), ct)]\<rparr>, Inr ())))"

fun mergeMCP ::
  "(bytes \<Rightarrow> string + schema) \<Rightarrow> (string \<times> 'w compiledTool) list \<Rightarrow> 'w tool list
    \<Rightarrow> (string \<times> 'w compiledTool) list \<Rightarrow> (string \<times> 'w compiledTool) list" where
  "mergeMCP compileSchema native [] acc = acc"
| "mergeMCP compileSchema native (t # ts) acc =
     (case compileTool compileSchema t of
        Inl _ \<Rightarrow> mergeMCP compileSchema native ts acc
      | Inr ct \<Rightarrow>
          if map_of native (tsName (Spec t)) \<noteq> None then mergeMCP compileSchema native ts acc
          else mergeMCP compileSchema native ts (AList.update (tsName (Spec t)) ct acc))"

definition ensureMCPLoaded ::
  "(bytes \<Rightarrow> string + schema) \<Rightarrow> 'w mcpSource \<Rightarrow> 'w Registry \<Rightarrow> 'w Registry \<times> (reg_error + unit)" where
  "ensureMCPLoaded compileSchema src reg =
     (if regMCPLoaded reg then (reg, Inr ())
      else (case src of
              None \<Rightarrow> (reg\<lparr>regMCPLoaded := True\<rparr>, Inr ())
            | Some (Inl e) \<Rightarrow> (reg, Inl (MCPLoadFailed e))
            | Some (Inr ts) \<Rightarrow>
                (reg\<lparr>regMCPTools := mergeMCP compileSchema (regNative reg) ts (regMCPTools reg), regMCPLoaded := True\<rparr>, Inr ())))"

definition GetTool ::
  "(bytes \<Rightarrow> string + schema) \<Rightarrow> 'w mcpSource \<Rightarrow> string \<Rightarrow> 'w Registry \<Rightarrow> 'w Registry \<times> (reg_error + 'w tool)" where
  "GetTool compileSchema src name reg =
     (case ensureMCPLoaded compileSchema src reg of
        (reg', Inl e) \<Rightarrow> (reg', Inl e)
      | (reg', Inr _) \<Rightarrow>
          (case map_of (regNative reg') name of
             Some (t, sch) \<Rightarrow> (reg', Inr (ValidatingTool t sch))
           | None \<Rightarrow>
               (case map_of (regMCPTools reg') name of
                  Some (t, sch) \<Rightarrow> (reg', Inr (ValidatingTool t sch))
                | None \<Rightarrow> (reg', Inl (ToolNotFound name)))))"

definition ListSpecs ::
  "(bytes \<Rightarrow> string + schema) \<Rightarrow> 'w mcpSource \<Rightarrow> 'w Registry \<Rightarrow> 'w Registry \<times> (reg_error + ToolSpec list)" where
  "ListSpecs compileSchema src reg =
     (case ensureMCPLoaded compileSchema src reg of
        (reg', Inl e) \<Rightarrow> (reg', Inl e)
      | (reg', Inr _) \<Rightarrow> (reg', Inr (map (Spec \<circ> fst \<circ> snd) (regNative reg') @ map (Spec \<circ> fst \<circ> snd) (regMCPTools reg'))))"

section \<open>The service\<close>

definition BlobThresholdBytes :: int where "BlobThresholdBytes = 32 * 2 ^ 10"

definition blobMediaType :: string where "blobMediaType = ''text/plain; charset=utf-8''"

record Request =
  rqTenantID :: string
  rqSessionID :: string
  rqCallID :: string
  rqToolName :: string
  rqArgs :: args
  rqIdempotencyKey :: string
  rqTimeout :: int

record ExecResult =
  xrObservation :: Observation
  xrBlobSizeBytes :: int

record ('l, 'b, 'p) Collaborators =
  coBegin :: "ExecutionRecord \<Rightarrow> 'l \<Rightarrow> 'l \<times> (dedup_error + ExecutionRecord)"
  coComplete :: "ExecutionRecord \<Rightarrow> 'l \<Rightarrow> 'l \<times> (dedup_error + unit)"
  coAllow :: "'b allowfun"
  coPut :: "Ref \<Rightarrow> string \<Rightarrow> bytes \<Rightarrow> 'p \<Rightarrow> 'p \<times> (blob_error + Object)"

record ExecConfig =
  xcHasRegistry :: bool
  xcHasRuntime :: bool
  xcHasEgress :: bool
  xcHasDedup :: bool
  xcHasBlobs :: bool
  xcMasker :: "(string \<Rightarrow> string) option"
  xcInlineThreshold :: int

record ExecService =
  svMasker :: "(string \<Rightarrow> string) option"
  svThreshold :: int

datatype config_error = NilRegistry | NilRuntime | NilEgress | NilDedup | NilBlobs

definition NewService :: "ExecConfig \<Rightarrow> config_error + ExecService" where
  "NewService cfg =
     (if \<not> xcHasRegistry cfg then Inl NilRegistry
      else if \<not> xcHasRuntime cfg then Inl NilRuntime
      else if \<not> xcHasEgress cfg then Inl NilEgress
      else if \<not> xcHasDedup cfg then Inl NilDedup
      else if \<not> xcHasBlobs cfg then Inl NilBlobs
      else Inr \<lparr>svMasker = xcMasker cfg,
                svThreshold = (if xcInlineThreshold cfg \<le> 0 then BlobThresholdBytes else xcInlineThreshold cfg)\<rparr>)"

record ('l, 'b, 'p, 'w) runtime =
  rtLedger :: 'l
  rtBroker :: 'b
  rtBlobs :: 'p
  rtRegistry :: "'w Registry"
  rtWorld :: 'w

record 'w surroundings =
  suCompile :: "bytes \<Rightarrow> string + schema"
  suMCP :: "'w mcpSource"
  suParseHost :: "string \<Rightarrow> string option"
  suSha :: hashfun
  suProgress :: "string \<Rightarrow> string option"

datatype exec_error = ResolveTool reg_error | DedupBegin dedup_error | EmitProgress string | OffloadOutput blob_error

definition errResult :: "string \<Rightarrow> Observation" where
  "errResult msg = zeroObs\<lparr>obContent := msg, obIsError := True\<rparr>"

definition stringField :: "args \<Rightarrow> string \<Rightarrow> string option" where
  "stringField as key = (case map_of as key of Some (JStr s) \<Rightarrow> Some s | _ \<Rightarrow> None)"

fun hostFromKeys :: "(string \<Rightarrow> string option) \<Rightarrow> args \<Rightarrow> string list \<Rightarrow> string option" where
  "hostFromKeys parseHost as [] = None"
| "hostFromKeys parseHost as (key # keys) =
     (case stringField as key of
        Some raw \<Rightarrow>
          (case parseHost (TrimSpace raw) of
             Some host \<Rightarrow> if host \<noteq> '''' then Some host else hostFromKeys parseHost as keys
           | None \<Rightarrow> hostFromKeys parseHost as keys)
      | None \<Rightarrow> hostFromKeys parseHost as keys)"

definition hostFromArgs :: "(string \<Rightarrow> string option) \<Rightarrow> args \<Rightarrow> string option" where
  "hostFromArgs parseHost as =
     (case stringField as ''host'' of
        Some h \<Rightarrow> if h \<noteq> '''' then Some h else hostFromKeys parseHost as [''url'', ''endpoint'', ''uri'']
      | None \<Rightarrow> hostFromKeys parseHost as [''url'', ''endpoint'', ''uri''])"

primrec egressTarget :: "(string \<Rightarrow> string option) \<Rightarrow> 'w tool \<Rightarrow> args \<Rightarrow> string option" where
  "egressTarget parseHost (BaseTool _ targeter _) as =
     (case targeter of Some t \<Rightarrow> t as | None \<Rightarrow> hostFromArgs parseHost as)"
| "egressTarget parseHost (ValidatingTool inner _) as = egressTarget parseHost inner as"

definition egressGate ::
  "'b allowfun \<Rightarrow> (string \<Rightarrow> string option) \<Rightarrow> Request \<Rightarrow> 'w tool \<Rightarrow> 'b \<Rightarrow> 'b \<times> Observation option" where
  "egressGate allow parseHost req t br =
     (let name = goQuote (tsName (Spec t)) in
      case egressTarget parseHost t (rqArgs req) of
        None \<Rightarrow> (br, Some (errResult (''tool '' @ name @ '': egress denied: cannot determine target host'')))
      | Some host \<Rightarrow>
          (case allow br (rqSessionID req) host of
             (br', Inl e) \<Rightarrow> (br', Some (errResult (''tool '' @ name @ '': egress denied for host '' @ goQuote host @ '': '' @ e)))
           | (br', Inr ok) \<Rightarrow>
               (br', if ok then None
                     else Some (errResult (''tool '' @ name @ '': egress denied: host '' @ goQuote host @ '' is not on the session allowlist'')))))"

definition ellipsis :: string where "ellipsis = [CHR 0xE2, CHR 0x80, CHR 0xA6]"

definition descriptor :: "bytes \<Rightarrow> int \<Rightarrow> string" where
  "descriptor full threshold =
     (let head = (if threshold < int (length full) then take (nat threshold) full else full)
      in head @ CHR 0x0A # ellipsis @ ''[output truncated: '' @ FormatInt (int (length full)) @
         '' bytes total, full content offloaded to blob store]'')"

definition offload ::
  "ExecService \<Rightarrow> ('l, 'b, 'p) Collaborators \<Rightarrow> hashfun \<Rightarrow> Request \<Rightarrow> Observation \<Rightarrow> 'p
    \<Rightarrow> 'p \<times> (blob_error + Observation \<times> int)" where
  "offload sv co sha req obs ps =
     (if int (length (obContent obs)) \<le> svThreshold sv then (ps, Inr (obs, 0))
      else
        (let full = obContent obs; key = hexEncode (sha full) in
         case coPut co \<lparr>refTenantID = rqTenantID req, refKey = key\<rparr> blobMediaType full ps of
           (ps', Inl e) \<Rightarrow> (ps', Inl e)
         | (ps', Inr obj) \<Rightarrow>
             (ps', Inr (obs\<lparr>obContent := descriptor full (svThreshold sv), obTruncated := True, obBlobRef := key\<rparr>,
                        objSizeBytes obj))))"

definition recordTerminal ::
  "('l, 'b, 'p) Collaborators \<Rightarrow> ExecutionRecord \<Rightarrow> Observation \<Rightarrow> ExecutionStatus \<Rightarrow> 'l \<Rightarrow> 'l" where
  "recordTerminal co rec obs status l = fst (coComplete co (rec\<lparr>erStatus := status, erResult := obs\<rparr>) l)"

definition execRecord :: "Request \<Rightarrow> ExecutionRecord" where
  "execRecord req = \<lparr>erTenantID = rqTenantID req, erSessionID = rqSessionID req,
     erIdempotencyKey = rqIdempotencyKey req, erStatus = ExecUnset, erResult = zeroObs\<rparr>"

definition execFresh ::
  "ExecService \<Rightarrow> ('l, 'b, 'p) Collaborators \<Rightarrow> 'w surroundings \<Rightarrow> Request \<Rightarrow> 'w tool \<Rightarrow> ('l, 'b, 'p, 'w) runtime
    \<Rightarrow> ('l, 'b, 'p, 'w) runtime \<times> (exec_error + ExecResult)" where
  "execFresh sv co su req t rt =
     (let rec = execRecord req in
      case suProgress su (''executing '' @ tsName (Spec t)) of
        Some e \<Rightarrow> (rt, Inl (EmitProgress e))
      | None \<Rightarrow>
          (case runTool t (rqSessionID req) (rqArgs req) (rtWorld rt) of
             (w, Inl e) \<Rightarrow>
               (let failObs = zeroObs\<lparr>obContent := ''tool '' @ goQuote (tsName (Spec t)) @ '' failed: '' @ e, obIsError := True\<rparr>
                in (rt\<lparr>rtWorld := w, rtLedger := recordTerminal co rec failObs ExecFailed (rtLedger rt)\<rparr>,
                    Inr \<lparr>xrObservation = failObs, xrBlobSizeBytes = 0\<rparr>))
           | (w, Inr obs0) \<Rightarrow>
               (let obs1 = (case svMasker sv of None \<Rightarrow> obs0 | Some m \<Rightarrow> obs0\<lparr>obContent := m (obContent obs0)\<rparr>) in
                case offload sv co (suSha su) req obs1 (rtBlobs rt) of
                  (ps, Inl e) \<Rightarrow> (rt\<lparr>rtWorld := w, rtBlobs := ps\<rparr>, Inl (OffloadOutput e))
                | (ps, Inr (obs, sz)) \<Rightarrow>
                    (rt\<lparr>rtWorld := w, rtBlobs := ps,
                        rtLedger := recordTerminal co rec obs (if obIsError obs then ExecFailed else ExecCompleted) (rtLedger rt)\<rparr>,
                     Inr \<lparr>xrObservation = obs, xrBlobSizeBytes = sz\<rparr>))))"

definition Execute ::
  "ExecService \<Rightarrow> ('l, 'b, 'p) Collaborators \<Rightarrow> 'w surroundings \<Rightarrow> Request \<Rightarrow> ('l, 'b, 'p, 'w) runtime
    \<Rightarrow> ('l, 'b, 'p, 'w) runtime \<times> (exec_error + ExecResult)" where
  "Execute sv co su req rt =
     (case GetTool (suCompile su) (suMCP su) (rqToolName req) (rtRegistry rt) of
        (reg, Inl e) \<Rightarrow>
          (rt\<lparr>rtRegistry := reg\<rparr>,
           case e of
             ToolNotFound _ \<Rightarrow> Inr \<lparr>xrObservation = errResult (''unknown tool '' @ goQuote (rqToolName req)), xrBlobSizeBytes = 0\<rparr>
           | _ \<Rightarrow> Inl (ResolveTool e))
      | (reg, Inr t) \<Rightarrow>
          (case coBegin co (execRecord req) (rtLedger rt) of
             (l, Inl e) \<Rightarrow> (rt\<lparr>rtRegistry := reg, rtLedger := l\<rparr>, Inl (DedupBegin e))
           | (l, Inr existing) \<Rightarrow>
               (let rt1 = rt\<lparr>rtRegistry := reg, rtLedger := l\<rparr> in
                if erStatus existing = ExecCompleted
                then (rt1, Inr \<lparr>xrObservation = erResult existing, xrBlobSizeBytes = 0\<rparr>)
                else if specIsExternal (Spec t) then
                  (case egressGate (coAllow co) (suParseHost su) req t (rtBroker rt1) of
                     (br, Some obs) \<Rightarrow>
                       (rt1\<lparr>rtBroker := br, rtLedger := recordTerminal co (execRecord req) obs ExecFailed (rtLedger rt1)\<rparr>,
                        Inr \<lparr>xrObservation = obs, xrBlobSizeBytes = 0\<rparr>)
                   | (br, None) \<Rightarrow> execFresh sv co su req t (rt1\<lparr>rtBroker := br\<rparr>))
                else execFresh sv co su req t rt1)))"

section \<open>Demonstration values and composition\<close>

text \<open>The service over the PostgreSQL ledger, the egress broker and the file store.\<close>

definition pgCollaborators ::
  "obsCodec \<Rightarrow> dfaults \<Rightarrow> dfaults \<Rightarrow> int \<Rightarrow> FSStore \<Rightarrow> metaCodec \<Rightarrow> fsfaults \<Rightarrow> (ledger, Broker, files) Collaborators" where
  "pgCollaborators oc fb fc now st mc ff =
     \<lparr>coBegin = BeginExec oc fb, coComplete = CompleteExec oc fc, coAllow = AllowHost now, coPut = Put st mc ff\<rparr>"

definition requestKey :: "Request \<Rightarrow> execKey" where
  "requestKey req = (rqTenantID req, rqSessionID req, rqIdempotencyKey req)"

definition unknownTool :: "Request \<Rightarrow> ExecResult" where
  "unknownTool req = \<lparr>xrObservation = errResult (''unknown tool '' @ goQuote (rqToolName req)), xrBlobSizeBytes = 0\<rparr>"

definition resolves :: "'w surroundings \<Rightarrow> Request \<Rightarrow> ('l, 'b, 'p, 'w) runtime \<Rightarrow> 'w tool \<Rightarrow> bool" where
  "resolves su req rt t \<longleftrightarrow> snd (GetTool (suCompile su) (suMCP su) (rqToolName req) (rtRegistry rt)) = Inr t"

definition regOk :: "(bytes \<Rightarrow> string + schema) \<Rightarrow> (string \<times> 'w compiledTool) list \<Rightarrow> bool" where
  "regOk compileSchema es \<longleftrightarrow> (\<forall>(n, t, sch) \<in> set es. tsName (Spec t) = n \<and> compileSchema (tsJSONSchema (Spec t)) = Inr sch)"

definition regInv :: "(bytes \<Rightarrow> string + schema) \<Rightarrow> 'w Registry \<Rightarrow> bool" where
  "regInv compileSchema reg \<longleftrightarrow> regOk compileSchema (regNative reg) \<and> regOk compileSchema (regMCPTools reg)"

definition demoObsCodec :: obsCodec where
  "demoObsCodec = \<lparr>ocMarshal = (\<lambda>ob. Some ((if obIsError ob then ''1'' else ''0'') @ obContent ob)),
     ocUnmarshal = (\<lambda>b. case b of [] \<Rightarrow> None | c # s \<Rightarrow> Some (zeroObs\<lparr>obContent := s, obIsError := (c = CHR ''1'')\<rparr>))\<rparr>"

definition demoTool :: "EgressClass \<Rightarrow> nat tool" where
  "demoTool ec = BaseTool \<lparr>tsName = ''t'', tsDescription = ''d'', tsJSONSchema = ''{}'', tsSideEffect = SideEffectMutating,
     tsEgressClass = ec\<rparr> None (\<lambda>_ _ w. (w + 1, Inr (zeroObs\<lparr>obContent := ''ok''\<rparr>)))"

definition demoSchema :: "bytes \<Rightarrow> string + schema" where
  "demoSchema b = Inr (\<lambda>as. if map_of as ''bad'' = None then None else Some ''bad'')"

definition demoAround :: "nat surroundings" where
  "demoAround = \<lparr>suCompile = demoSchema, suMCP = None, suParseHost = (\<lambda>u. Some u), suSha = (\<lambda>b. ''h''), suProgress = (\<lambda>_. None)\<rparr>"

definition demoRuntime :: "EgressClass \<Rightarrow> ledger \<Rightarrow> (ledger, Broker, files, nat) runtime" where
  "demoRuntime ec l = \<lparr>rtLedger = l, rtBroker = NewBroker [], rtBlobs = (\<lambda>_. None),
     rtRegistry = fst (RegisterTool demoSchema (demoTool ec) NewRegistry), rtWorld = 0\<rparr>"

definition demoRequest :: Request where
  "demoRequest = \<lparr>rqTenantID = ''T'', rqSessionID = ''S'', rqCallID = ''c'', rqToolName = ''t'',
     rqArgs = [(''url'', JStr ''evil.com'')], rqIdempotencyKey = ''K'', rqTimeout = 0\<rparr>"

definition demoService :: ExecService where
  "demoService = \<lparr>svMasker = None, svThreshold = BlobThresholdBytes\<rparr>"

definition demoCo :: "dfaults \<Rightarrow> (ledger, Broker, files) Collaborators" where
  "demoCo fc = pgCollaborators demoObsCodec noDFaults fc 0 demoStore demoMeta noIOFaults"

definition completeFails :: dfaults where
  "completeFails s = (if s = DUpdate then Some DFail else None)"

section \<open>The service over any ledger\<close>

lemma recKey_execRecord [simp]: "recKey (execRecord req) = requestKey req"
  "recKey ((execRecord req)\<lparr>erStatus := x, erResult := y\<rparr>) = requestKey req"
  by (simp_all add: recKey_def execRecord_def requestKey_def)

lemma execRecord_fields [simp]: "erResult (execRecord req) = zeroObs" "erTenantID (execRecord req) = rqTenantID req"
  by (simp_all add: execRecord_def)

lemma Execute_cases [consumes 1, case_names unresolved failed cached denied run]:
  assumes "Execute sv co su req rt = (rt', r)"
  obtains reg e where "GetTool (suCompile su) (suMCP su) (rqToolName req) (rtRegistry rt) = (reg, Inl e)"
      "rt' = rt\<lparr>rtRegistry := reg\<rparr>" "r = Inl (ResolveTool e) \<or> r = Inr (unknownTool req)"
  | reg t l e where "GetTool (suCompile su) (suMCP su) (rqToolName req) (rtRegistry rt) = (reg, Inr t)"
      "coBegin co (execRecord req) (rtLedger rt) = (l, Inl e)"
      "rt' = rt\<lparr>rtRegistry := reg, rtLedger := l\<rparr>" "r = Inl (DedupBegin e)"
  | reg t l ex where "GetTool (suCompile su) (suMCP su) (rqToolName req) (rtRegistry rt) = (reg, Inr t)"
      "coBegin co (execRecord req) (rtLedger rt) = (l, Inr ex)" "erStatus ex = ExecCompleted"
      "rt' = rt\<lparr>rtRegistry := reg, rtLedger := l\<rparr>" "r = Inr \<lparr>xrObservation = erResult ex, xrBlobSizeBytes = 0\<rparr>"
  | reg t l ex br obs where "GetTool (suCompile su) (suMCP su) (rqToolName req) (rtRegistry rt) = (reg, Inr t)"
      "coBegin co (execRecord req) (rtLedger rt) = (l, Inr ex)" "erStatus ex \<noteq> ExecCompleted" "specIsExternal (Spec t)"
      "egressGate (coAllow co) (suParseHost su) req t (rtBroker rt) = (br, Some obs)"
      "rt' = rt\<lparr>rtRegistry := reg, rtBroker := br, rtLedger := recordTerminal co (execRecord req) obs ExecFailed l\<rparr>"
      "r = Inr \<lparr>xrObservation = obs, xrBlobSizeBytes = 0\<rparr>"
  | reg t l ex br where "GetTool (suCompile su) (suMCP su) (rqToolName req) (rtRegistry rt) = (reg, Inr t)"
      "coBegin co (execRecord req) (rtLedger rt) = (l, Inr ex)" "erStatus ex \<noteq> ExecCompleted"
      "if specIsExternal (Spec t) then egressGate (coAllow co) (suParseHost su) req t (rtBroker rt) = (br, None) else br = rtBroker rt"
      "execFresh sv co su req t (rt\<lparr>rtRegistry := reg, rtLedger := l, rtBroker := br\<rparr>) = (rt', r)"
proof -
  obtain reg g where g: "GetTool (suCompile su) (suMCP su) (rqToolName req) (rtRegistry rt) = (reg, g)" by fastforce
  obtain l b where b: "coBegin co (execRecord req) (rtLedger rt) = (l, b)" by fastforce
  consider e where "g = Inl e" | t e where "g = Inr t" "b = Inl e"
    | t ex where "g = Inr t" "b = Inr ex" "erStatus ex = ExecCompleted"
    | t ex where "g = Inr t" "b = Inr ex" "erStatus ex \<noteq> ExecCompleted"
    by (cases g; cases b) auto
  then show ?thesis
  proof cases
    case 1
    with assms g show ?thesis using that(1) by (auto simp: Execute_def unknownTool_def split: reg_error.splits)
  next
    case 2
    with assms g b show ?thesis using that(2) by (simp add: Execute_def)
  next
    case 3
    with assms g b show ?thesis using that(3) by (simp add: Execute_def)
  next
    case (4 t ex)
    obtain br v where v: "egressGate (coAllow co) (suParseHost su) req t (rtBroker rt) = (br, v)" by fastforce
    show ?thesis
    proof (cases "specIsExternal (Spec t)")
      case True
      with assms g b 4 v show ?thesis using that(4) [of reg t l ex br] that(5) [of reg t l ex br]
        by (cases v) (auto simp: Execute_def Let_def)
    next
      case False
      with assms g b 4 show ?thesis using that(5) [of reg t l ex "rtBroker rt"] by (simp add: Execute_def Let_def)
    qed
  qed
qed

lemma execFresh_cases [consumes 1, case_names aborted lost crashed recorded]:
  assumes "execFresh sv co su req t rt = (rt', r)"
  obtains e where "rt' = rt" "r = Inl (EmitProgress e)"
  | w ps e where "rt' = rt\<lparr>rtWorld := w, rtBlobs := ps\<rparr>" "r = Inl (OffloadOutput e)"
  | w obs where "rt' = rt\<lparr>rtWorld := w, rtLedger := recordTerminal co (execRecord req) obs ExecFailed (rtLedger rt)\<rparr>"
      "obIsError obs" "r = Inr \<lparr>xrObservation = obs, xrBlobSizeBytes = 0\<rparr>"
  | w ps obs sz where
      "rt' = rt\<lparr>rtWorld := w, rtBlobs := ps,
        rtLedger := recordTerminal co (execRecord req) obs (if obIsError obs then ExecFailed else ExecCompleted) (rtLedger rt)\<rparr>"
      "r = Inr \<lparr>xrObservation = obs, xrBlobSizeBytes = sz\<rparr>"
proof (cases "suProgress su (''executing '' @ tsName (Spec t))")
  case (Some e)
  with assms show ?thesis using that(1) by (auto simp: execFresh_def)
next
  case None
  obtain w ro where ro: "runTool t (rqSessionID req) (rqArgs req) (rtWorld rt) = (w, ro)" by fastforce
  show ?thesis
  proof (cases ro)
    case (Inl e)
    define failObs where "failObs = zeroObs\<lparr>obContent := ''tool '' @ goQuote (tsName (Spec t)) @ '' failed: '' @ e, obIsError := True\<rparr>"
    show ?thesis
      by (rule that(3) [where w = w and obs = failObs]) (use assms None ro Inl in \<open>auto simp: execFresh_def Let_def failObs_def\<close>)
  next
    case (Inr obs0)
    define obs1 where "obs1 = (case svMasker sv of None \<Rightarrow> obs0 | Some m \<Rightarrow> obs0\<lparr>obContent := m (obContent obs0)\<rparr>)"
    obtain ps oo where oo: "offload sv co (suSha su) req obs1 (rtBlobs rt) = (ps, oo)" by fastforce
    show ?thesis
    proof (cases oo)
      case (Inl e)
      with assms None ro Inr oo show ?thesis using that(2) by (auto simp: execFresh_def Let_def obs1_def)
    next
      case (Inr x)
      with assms None ro \<open>ro = Inr obs0\<close> oo show ?thesis
        using that(4) by (cases x) (auto simp: execFresh_def Let_def obs1_def)
    qed
  qed
qed

context dedup_store
begin

lemma recordTerminal_entry:
  assumes "coComplete co = completeOp f" "wf l" "storable obs"
  shows "k \<noteq> requestKey req \<Longrightarrow> entry (recordTerminal co (execRecord req) obs st l) k = entry l k"
    and "f = calm \<Longrightarrow> rqTenantID req \<noteq> '''' \<Longrightarrow> st \<noteq> ExecUnset \<Longrightarrow> entry l (requestKey req) \<noteq> None \<Longrightarrow>
      entry (recordTerminal co (execRecord req) obs st l) = (entry l)(requestKey req := Some (st, obs))"
proof -
  obtain l' u where c: "completeOp f ((execRecord req)\<lparr>erStatus := st, erResult := obs\<rparr>) l = (l', u)" by fastforce
  then have r: "recordTerminal co (execRecord req) obs st l = l'" using assms(1) by (simp add: recordTerminal_def)
  show "k \<noteq> requestKey req \<Longrightarrow> entry (recordTerminal co (execRecord req) obs st l) k = entry l k"
    using complete_others [OF assms(2) _ c] assms(3) r by simp
  assume "f = calm" "rqTenantID req \<noteq> ''''" "st \<noteq> ExecUnset" "entry l (requestKey req) \<noteq> None"
  then have "isOk u" using complete_calm [OF assms(2), of "(execRecord req)\<lparr>erStatus := st, erResult := obs\<rparr>"] assms(3) c by simp
  then obtain v where "u = Inr v" by (auto simp: isOk_iff)
  then show "entry (recordTerminal co (execRecord req) obs st l) = (entry l)(requestKey req := Some (st, obs))"
    using complete_ok [OF assms(2) _ c [unfolded \<open>u = Inr v\<close>]] assms(3) r by simp
qed

lemma completed_no_effect:
  assumes x: "Execute sv co su req rt = (rt', r)" and b: "coBegin co = beginOp f" and wf: "wf (rtLedger rt)"
    and cmp: "entry (rtLedger rt) (requestKey req) = Some (ExecCompleted, ob)"
  shows "rtWorld rt' = rtWorld rt \<and> rtBlobs rt' = rtBlobs rt \<and> rtBroker rt' = rtBroker rt \<and>
    entry (rtLedger rt') = entry (rtLedger rt) \<and>
    (r = Inr \<lparr>xrObservation = ob, xrBlobSizeBytes = 0\<rparr> \<or> \<not> isOk r \<or> (\<nexists>t. resolves su req rt t) \<and> r = Inr (unknownTool req))"
proof -
  have known: "entry l = entry (rtLedger rt) \<and> erStatus ex = ExecCompleted \<and> erResult ex = ob"
    if "coBegin co (execRecord req) (rtLedger rt) = (l, Inr ex)" for l ex
    using begin_known [OF wf _ _, of f "execRecord req" l ex ExecCompleted ob] that b cmp by simp
  have kept: "entry l = entry (rtLedger rt)" if "coBegin co (execRecord req) (rtLedger rt) = (l, Inl e)" for l e
    using begin_failed [OF wf, of "execRecord req" f l e] that b cmp by simp
  from x show ?thesis
  proof (cases rule: Execute_cases)
    case (unresolved reg e)
    then show ?thesis by (auto simp: resolves_def)
  next
    case (failed reg t l e)
    then show ?thesis using kept [OF failed(2)] by simp
  next
    case (cached reg t l ex)
    then show ?thesis using known [OF cached(2)] by simp
  next
    case (denied reg t l ex)
    then show ?thesis using known [OF denied(2)] by simp
  next
    case (run reg t l ex)
    then show ?thesis using known [OF run(2)] by simp
  qed
qed

lemma outcome_recorded:
  assumes x: "Execute sv co su req rt = (rt', Inr res)" and b: "coBegin co = beginOp f" and c: "coComplete co = completeOp calm"
    and wf: "wf (rtLedger rt)" and t: "resolves su req rt t" and tn: "rqTenantID req \<noteq> ''''" and st: "storable (xrObservation res)"
  shows "wf (rtLedger rt') \<and> (\<exists>status. entry (rtLedger rt') (requestKey req) = Some (status, xrObservation res) \<and>
     (status = ExecCompleted \<or> status = ExecFailed \<and> obIsError (xrObservation res))) \<and>
     (\<forall>k. k \<noteq> requestKey req \<longrightarrow> entry (rtLedger rt') k = entry (rtLedger rt) k)"
proof -
  have bw: "wf l \<and> (\<exists>ob. entry l (requestKey req) = Some (erStatus ex, ob) \<and> (erStatus ex = ExecCompleted \<longrightarrow> ob = erResult ex)) \<and>
      (\<forall>k. k \<noteq> requestKey req \<longrightarrow> entry l k = entry (rtLedger rt) k)"
    if "coBegin co (execRecord req) (rtLedger rt) = (l, Inr ex)" for l ex
    using begin_wf [OF wf, of "execRecord req" f l] begin_recorded [OF wf, of "execRecord req" f l ex]
      begin_others [OF wf, of "execRecord req" f l "Inr ex"] that b by auto
  have cw: "wf l \<Longrightarrow> wf (recordTerminal co (execRecord req) obs s l)" for l obs s
    using complete_wf [of l calm "(execRecord req)\<lparr>erStatus := s, erResult := obs\<rparr>"] c
    by (metis prod.collapse recordTerminal_def)
  note rec = recordTerminal_entry [OF c, where req = req]
  from x show ?thesis
  proof (cases rule: Execute_cases)
    case (unresolved reg e)
    then show ?thesis using t by (simp add: resolves_def)
  next
    case (cached reg t l ex)
    then show ?thesis using bw [OF cached(2)] by auto
  next
    case (denied reg t l ex br obs)
    have "obIsError obs" using denied(5) by (auto simp: egressGate_def errResult_def Let_def split: option.splits prod.splits sum.splits if_splits)
    then show ?thesis using denied(6,7) bw [OF denied(2)] cw rec(1) [of l obs _ ExecFailed] rec(2) [of l obs ExecFailed] tn st
      by auto
  next
    case (run reg t l ex br)
    from run(5) show ?thesis
    proof (cases rule: execFresh_cases)
      case (crashed w obs)
      then show ?thesis
        using bw [OF run(2)] cw rec(1) [of l obs _ ExecFailed] rec(2) [of l obs ExecFailed] tn st by auto
    next
      case (recorded w ps obs sz)
      then show ?thesis
        using bw [OF run(2)] cw rec(1) [of l obs _ "if obIsError obs then ExecFailed else ExecCompleted"]
          rec(2) [of l obs "if obIsError obs then ExecFailed else ExecCompleted"] tn st
        by auto
    qed simp_all
  qed simp_all
qed

end

section \<open>The registry\<close>

lemma compileTool_Inr:
  "compileTool cs t = Inr (t', sch) \<longleftrightarrow> t' = t \<and> cs (tsJSONSchema (Spec t)) = Inr sch \<and> tsName (Spec t) \<noteq> '''' \<and>
     tsDescription (Spec t) \<noteq> '''' \<and> tsJSONSchema (Spec t) \<noteq> ''''"
  by (auto simp: compileTool_def Let_def split: sum.splits)

lemma set_update_alist: "x \<in> set (AList.update k v al) \<Longrightarrow> x = (k, v) \<or> x \<in> set al"
  by (induction al) (auto split: if_splits)

lemma regOk_update:
  "regOk cs al \<Longrightarrow> tsName (Spec t) = n \<Longrightarrow> cs (tsJSONSchema (Spec t)) = Inr sch \<Longrightarrow> regOk cs (AList.update n (t, sch) al)"
  by (auto simp: regOk_def dest!: set_update_alist)

lemma mergeMCP_ok: "regOk cs acc \<Longrightarrow> regOk cs (mergeMCP cs native ts acc)"
proof (induction cs native ts acc rule: mergeMCP.induct)
  case (2 cs native t ts acc)
  show ?case
  proof (cases "compileTool cs t")
    case (Inr ct)
    then obtain sch where "ct = (t, sch)" "cs (tsJSONSchema (Spec t)) = Inr sch"
      by (cases ct) (auto simp: compileTool_Inr)
    then show ?thesis using 2 Inr regOk_update [OF 2(4)] by auto
  qed (use 2 in simp)
qed simp

lemma RegisterTool_inv: "regInv cs reg \<Longrightarrow> RegisterTool cs t reg = (reg', r) \<Longrightarrow> regInv cs reg'"
  by (auto simp: RegisterTool_def regInv_def regOk_def compileTool_Inr split: sum.splits if_splits)

lemma ensureMCPLoaded_inv:
  "regInv cs reg \<Longrightarrow> ensureMCPLoaded cs src reg = (reg', r) \<Longrightarrow> regInv cs reg' \<and> regNative reg' = regNative reg"
  by (auto simp: ensureMCPLoaded_def regInv_def mergeMCP_ok split: if_splits option.splits sum.splits)

lemma regOk_map_of: "regOk cs es \<Longrightarrow> map_of es n = Some (t, sch) \<Longrightarrow> tsName (Spec t) = n \<and> cs (tsJSONSchema (Spec t)) = Inr sch"
  by (auto simp: regOk_def dest!: map_of_SomeD)

section \<open>The gate and the output\<close>

lemma egressGate_denies:
  assumes "\<forall>host. egressTarget ph t (rqArgs req) = Some host \<longrightarrow> \<not> brokerPermits br (rqSessionID req) host"
  obtains br' obs where "egressGate (AllowHost now) ph req t br = (br', Some obs)" "obIsError obs"
proof (cases "egressTarget ph t (rqArgs req)")
  case None
  then show ?thesis using that by (auto simp: egressGate_def errResult_def)
next
  case (Some host)
  with assms have "\<not> brokerPermits br (rqSessionID req) host" by simp
  then show ?thesis using that Some by (auto simp: egressGate_def errResult_def AllowHost_def brokerPermits_def Let_def)
qed

lemma pgCollaborators_simps [simp]:
  "coBegin (pgCollaborators oc fb fc now st mc ff) = BeginExec oc fb"
  "coComplete (pgCollaborators oc fb fc now st mc ff) = CompleteExec oc fc"
  "coAllow (pgCollaborators oc fb fc now st mc ff) = AllowHost now"
  "coPut (pgCollaborators oc fb fc now st mc ff) = Put st mc ff"
  by (simp_all add: pgCollaborators_def)

section \<open>Properties\<close>

text \<open>
  C24. A completed execution is never repeated. When the ledger holds a completed result for the key of
  the request, executing it again changes neither the world nor the blobs nor the egress audit trail nor
  the ledger, whatever faults strike; it returns the recorded result, or an infrastructure error, or the
  unknown-tool error if the tool is gone. The replayed result reports no blob size.
\<close>

theorem completed_call_not_repeated:
  assumes "Execute sv (pgCollaborators oc fb fc now st mc ff) su req rt = (rt', r)" and "wfLedger (rtLedger rt)"
    and "pgEntry oc (rtLedger rt) (requestKey req) = Some (ExecCompleted, ob)"
  shows "rtWorld rt' = rtWorld rt \<and> rtBlobs rt' = rtBlobs rt \<and> rtBroker rt' = rtBroker rt \<and>
    pgEntry oc (rtLedger rt') = pgEntry oc (rtLedger rt) \<and>
    (r = Inr \<lparr>xrObservation = ob, xrBlobSizeBytes = 0\<rparr> \<or> \<not> isOk r \<or> (\<nexists>t. resolves su req rt t) \<and> r = Inr (unknownTool req))"
  by (rule pgLedger.completed_no_effect [OF assms(1) pgCollaborators_simps(1) assms(2,3)])

lemmas demo_exec = Execute_def execFresh_def GetTool_def ensureMCPLoaded_def RegisterTool_def compileTool_def NewRegistry_def
  demoCo_def pgCollaborators_def demoAround_def demoRuntime_def demoTool_def demoSchema_def demoRequest_def demoService_def
  BeginExec_def dedupBeginTenantTx_def runD_def noDFaults_def readRecord_def findExec_def visibleRows_def insertStarted_def
  rowKey_def recKey_def execRecord_def decodeResult_def commitLedger_def recordTerminal_def CompleteExec_def setTerminal_def
  demoObsCodec_def zeroObs_def offload_def BlobThresholdBytes_def specIsExternal_def resolves_def requestKey_def isOk_def

theorem completed_call_not_repeated_witness:
  "(case Execute demoService (demoCo noDFaults) demoAround demoRequest
      (demoRuntime EgressClassNone [\<lparr>lrTenant = ''T'', lrSession = ''S'', lrKey = ''K'', lrStatus = ExecCompleted, lrResultRef = Some ''0done''\<rparr>]) of
     (rt', r) \<Rightarrow> rtWorld rt' = 0 \<and> r = Inr \<lparr>xrObservation = zeroObs\<lparr>obContent := ''done''\<rparr>, xrBlobSizeBytes = 0\<rparr>)"
proof -
  define rt where "rt = demoRuntime EgressClassNone [\<lparr>lrTenant = ''T'', lrSession = ''S'', lrKey = ''K'', lrStatus = ExecCompleted, lrResultRef = Some ''0done''\<rparr>]"
  obtain rt' r where x: "Execute demoService (demoCo noDFaults) demoAround demoRequest rt = (rt', r)" by fastforce
  have "wfLedger (rtLedger rt)" "rtWorld rt = 0"
    by (simp_all add: rt_def wfLedger_def demoRuntime_def)
  moreover have "pgEntry demoObsCodec (rtLedger rt) (requestKey demoRequest) = Some (ExecCompleted, zeroObs\<lparr>obContent := ''done''\<rparr>)"
    by (simp add: rt_def pgEntry_def demo_exec)
  moreover have "isOk r" "resolves demoAround demoRequest rt (ValidatingTool (demoTool EgressClassNone) (projr (demoSchema ''x'')))"
    using x by (auto simp: rt_def demo_exec)
  ultimately show ?thesis
    using completed_call_not_repeated [OF x [unfolded demoCo_def]] x by (auto simp: rt_def [symmetric])
qed

text \<open>
  C25. A retry returns what was recorded. When a call succeeds and its completion reaches the ledger, then
  every later call with the same key, by any request and under any faults, leaves the world, the blobs
  and the audit trail alone and returns the same observation, unless it fails or the tool is gone.
\<close>

theorem retry_returns_recorded_result:
  assumes x: "Execute sv (pgCollaborators oc fb noDFaults now st mc ff) su req rt = (rt1, Inr res)"
    and wf: "wfLedger (rtLedger rt)" and t: "resolves su req rt t" and tn: "rqTenantID req \<noteq> ''''"
    and enc: "roundTrips oc (xrObservation res)" and ok: "\<not> obIsError (xrObservation res)"
    and y: "Execute sv' (pgCollaborators oc fb' fc' now' st' mc' ff') su' req' rt1 = (rt2, r)"
    and k: "requestKey req' = requestKey req"
  shows "rtWorld rt2 = rtWorld rt1 \<and> rtBlobs rt2 = rtBlobs rt1 \<and> rtBroker rt2 = rtBroker rt1 \<and>
    (r = Inr \<lparr>xrObservation = xrObservation res, xrBlobSizeBytes = 0\<rparr> \<or> \<not> isOk r \<or>
     (\<nexists>t. resolves su' req' rt1 t) \<and> r = Inr (unknownTool req'))"
proof -
  have "wfLedger (rtLedger rt1)" "pgEntry oc (rtLedger rt1) (requestKey req) = Some (ExecCompleted, xrObservation res)"
    using pgLedger.outcome_recorded [OF x pgCollaborators_simps(1,2) wf t tn enc] ok by auto
  then show ?thesis using pgLedger.completed_no_effect [OF y pgCollaborators_simps(1)] k by auto
qed

theorem retry_returns_recorded_result_witness:
  "(case Execute demoService (demoCo noDFaults) demoAround demoRequest (demoRuntime EgressClassNone []) of
     (rt1, r1) \<Rightarrow> rtWorld rt1 = 1 \<and> isOk r1 \<and>
       (case Execute demoService (demoCo noDFaults) demoAround demoRequest rt1 of
          (rt2, r2) \<Rightarrow> rtWorld rt2 = 1 \<and> r2 = Inr \<lparr>xrObservation = zeroObs\<lparr>obContent := ''ok''\<rparr>, xrBlobSizeBytes = 0\<rparr>))"
proof -
  let ?rt = "demoRuntime EgressClassNone []"
  obtain rt1 where x: "Execute demoService (demoCo noDFaults) demoAround demoRequest ?rt =
      (rt1, Inr \<lparr>xrObservation = zeroObs\<lparr>obContent := ''ok''\<rparr>, xrBlobSizeBytes = 0\<rparr>)" and w1: "rtWorld rt1 = 1"
    by (auto simp: demo_exec)
  obtain rt2 r2 where y: "Execute demoService (demoCo noDFaults) demoAround demoRequest rt1 = (rt2, r2)" by fastforce
  have reg: "rtRegistry rt1 = (rtRegistry ?rt)\<lparr>regMCPLoaded := True\<rparr>" and ok2: "isOk r2"
    using x y by (auto simp: demo_exec)
  have "wfLedger (rtLedger ?rt)" by (simp add: wfLedger_def demoRuntime_def)
  moreover have "resolves demoAround demoRequest ?rt (ValidatingTool (demoTool EgressClassNone) (projr (demoSchema ''x'')))"
    "resolves demoAround demoRequest rt1 (ValidatingTool (demoTool EgressClassNone) (projr (demoSchema ''x'')))"
    using reg by (simp_all add: demo_exec)
  moreover have "roundTrips demoObsCodec (zeroObs\<lparr>obContent := ''ok''\<rparr>)"
    by (simp add: roundTrips_def demoObsCodec_def zeroObs_def)
  moreover have "rqTenantID demoRequest \<noteq> ''''" "\<not> obIsError (zeroObs\<lparr>obContent := ''ok''\<rparr>)"
    by (simp_all add: demoRequest_def zeroObs_def)
  ultimately show ?thesis
    using retry_returns_recorded_result [OF x [unfolded demoCo_def] _ _ _ _ _ y [unfolded demoCo_def]] x y w1 ok2 by auto
qed

text \<open>
  C26. Egress is denied by default and without effect. A call of an external tool whose target host cannot
  be named, or is not on the session's allowlist, leaves the world and the blobs alone; if the ledger is
  reachable the model is told so by an error observation.
\<close>

theorem denied_call_has_no_effect:
  assumes x: "Execute sv (pgCollaborators oc fb fc now st mc ff) su req rt = (rt', r)" and t: "resolves su req rt t"
    and ext: "specIsExternal (Spec t)" and wf: "wfLedger (rtLedger rt)"
    and fresh: "\<forall>ob. pgEntry oc (rtLedger rt) (requestKey req) \<noteq> Some (ExecCompleted, ob)"
    and host: "\<forall>host. egressTarget (suParseHost su) t (rqArgs req) = Some host \<longrightarrow>
      \<not> matchesPolicy host (governingHosts (rtBroker rt) (rqSessionID req))"
  shows "rtWorld rt' = rtWorld rt \<and> rtBlobs rt' = rtBlobs rt \<and>
    ((\<exists>e. r = Inl (DedupBegin e)) \<or> (\<exists>obs. r = Inr \<lparr>xrObservation = obs, xrBlobSizeBytes = 0\<rparr> \<and> obIsError obs))"
proof -
  obtain br obs where gate: "egressGate (AllowHost now) (suParseHost su) req t (rtBroker rt) = (br, Some obs)" "obIsError obs"
    by (rule egressGate_denies [of "suParseHost su" t req "rtBroker rt" now]) (use host in \<open>simp add: brokerPermits_def\<close>)
  have fresh': "erStatus ex \<noteq> ExecCompleted" if "BeginExec oc fb (execRecord req) (rtLedger rt) = (l, Inr ex)" for l ex
    using pgLedger.begin_new [OF wf _ that] pgLedger.begin_known [OF wf that] fresh
    by (cases "pgEntry oc (rtLedger rt) (requestKey req)") auto
  from x show ?thesis
  proof (cases rule: Execute_cases)
    case (cached reg t' l ex)
    then show ?thesis using fresh' by simp
  next
    case (denied reg t' l ex br' obs')
    then show ?thesis using t gate by (simp add: resolves_def)
  next
    case (run reg t' l ex br')
    then show ?thesis using t gate ext by (simp add: resolves_def)
  qed (use t in \<open>auto simp: resolves_def\<close>)
qed

theorem denied_call_has_no_effect_witness:
  "(case Execute demoService (demoCo noDFaults) demoAround demoRequest (demoRuntime EgressClassExternal []) of
     (rt', r) \<Rightarrow> rtWorld rt' = 0 \<and> isOk r)"
proof -
  let ?rt = "demoRuntime EgressClassExternal []" and ?t = "ValidatingTool (demoTool EgressClassExternal) (projr (demoSchema ''x''))"
  obtain rt' r where x: "Execute demoService (demoCo noDFaults) demoAround demoRequest ?rt = (rt', r)" by fastforce
  have "resolves demoAround demoRequest ?rt ?t" "specIsExternal (Spec ?t)" by (simp_all add: demo_exec)
  moreover have "wfLedger (rtLedger ?rt)" "pgEntry demoObsCodec (rtLedger ?rt) (requestKey demoRequest) = None" "rtWorld ?rt = 0"
    by (simp_all add: wfLedger_def demoRuntime_def pgEntry_def findExec_Nil)
  moreover have "governingHosts (rtBroker ?rt) (rqSessionID demoRequest) = []"
    by (simp add: demoRuntime_def NewBroker_def governingHosts_def)
  moreover have "isOk r" using x by (auto simp: demo_exec egressGate_def hostFromArgs_def stringField_def AllowHost_def
        matchesPolicy_def NewBroker_def governingHosts_def TrimSpace_def isSpace_def Let_def errResult_def)
  ultimately show ?thesis
    using denied_call_has_no_effect [OF x [unfolded demoCo_def]] x by (auto simp: matchesPolicy_def)
qed

text \<open>
  C27. Only the class external is gated. For a tool of any other class, the unset one included, the call
  has the same outcome under every egress policy, and the broker is not asked.
\<close>

theorem only_external_is_gated:
  assumes t: "resolves su req rt t" and ec: "tsEgressClass (Spec t) \<noteq> EgressClassExternal"
  shows "Execute sv (co\<lparr>coAllow := allow\<rparr>) su req rt = Execute sv co su req rt \<and>
    rtBroker (fst (Execute sv co su req rt)) = rtBroker rt"
proof -
  have eqs: "recordTerminal (co\<lparr>coAllow := allow\<rparr>) = recordTerminal co" "offload sv (co\<lparr>coAllow := allow\<rparr>) = offload sv co"
    by (simp_all add: recordTerminal_def offload_def fun_eq_iff)
  have "execFresh sv (co\<lparr>coAllow := allow\<rparr>) su req t = execFresh sv co su req t"
    unfolding execFresh_def [abs_def] eqs by (rule refl)
  moreover have "\<not> specIsExternal (Spec t)" using ec by (simp add: specIsExternal_def)
  ultimately have "Execute sv (co\<lparr>coAllow := allow\<rparr>) su req rt = Execute sv co su req rt"
    using t by (auto simp: Execute_def resolves_def Let_def split: prod.splits sum.splits)
  moreover obtain rt' r where x: "Execute sv co su req rt = (rt', r)" by fastforce
  moreover from x have "rtBroker rt' = rtBroker rt"
  proof (cases rule: Execute_cases)
    case (run reg t' l ex br)
    then have "br = rtBroker rt" using t \<open>\<not> specIsExternal (Spec t)\<close> by (simp add: resolves_def)
    with run(5) show ?thesis by (cases rule: execFresh_cases) auto
  qed (use t \<open>\<not> specIsExternal (Spec t)\<close> in \<open>auto simp: resolves_def\<close>)
  ultimately show ?thesis by simp
qed

theorem only_external_is_gated_witness:
  "Execute demoService ((demoCo noDFaults)\<lparr>coAllow := (\<lambda>b _ _. (b, Inr False))\<rparr>) demoAround demoRequest (demoRuntime EgressClassUnset []) =
     Execute demoService (demoCo noDFaults) demoAround demoRequest (demoRuntime EgressClassUnset []) \<and>
   rtWorld (fst (Execute demoService (demoCo noDFaults) demoAround demoRequest (demoRuntime EgressClassUnset []))) = 1"
proof -
  have "resolves demoAround demoRequest (demoRuntime EgressClassUnset []) (ValidatingTool (demoTool EgressClassUnset) (projr (demoSchema ''x'')))"
    "tsEgressClass (Spec (ValidatingTool (demoTool EgressClassUnset) (projr (demoSchema ''x'')))) \<noteq> EgressClassExternal"
    by (simp_all add: demo_exec)
  moreover have "rtWorld (fst (Execute demoService (demoCo noDFaults) demoAround demoRequest (demoRuntime EgressClassUnset []))) = 1"
    by (simp add: demo_exec)
  ultimately show ?thesis using only_external_is_gated by blast
qed

text \<open>
  C28. Large output is bounded and recoverable. Output up to the threshold passes unchanged. Longer output
  is replaced by its first \<open>threshold\<close> bytes and a fixed note of 74 bytes and the size in decimal; its full
  bytes can be read back from the tenant's blob store under the reference in the observation, and the
  reported size is the size of the full output.
\<close>

theorem offload_bounded_and_recoverable:
  assumes ok: "offload sv (pgCollaborators oc fb fc now st mc ff) sha req obs ps = (ps', Inr (obs', n))"
    and meta: "metaRoundTrips mc blobMediaType (int (length (obContent obs)))" and thr: "0 \<le> svThreshold sv"
  shows "if int (length (obContent obs)) \<le> svThreshold sv then obs' = obs \<and> n = 0 \<and> ps' = ps
    else obTruncated obs' \<and> obIsError obs' = obIsError obs \<and> n = int (length (obContent obs)) \<and>
      int (length (obContent obs')) = svThreshold sv + 74 + int (length (FormatInt n)) \<and>
      take (nat (svThreshold sv)) (obContent obs') = take (nat (svThreshold sv)) (obContent obs) \<and>
      (\<exists>obj. GetBlob st mc noIOFaults \<lparr>refTenantID = rqTenantID req, refKey = obBlobRef obs'\<rparr> ps' = Inr (obj, obContent obs))"
proof (cases "int (length (obContent obs)) \<le> svThreshold sv")
  case True
  with ok show ?thesis by (simp add: offload_def)
next
  case False
  let ?ref = "\<lparr>refTenantID = rqTenantID req, refKey = hexEncode (sha (obContent obs))\<rparr>"
  obtain ps1 p where p: "Put st mc ff ?ref blobMediaType (obContent obs) ps = (ps1, p)" by fastforce
  with ok False obtain obj where obj: "p = Inr obj"
    by (cases p) (auto simp: offload_def Let_def)
  note put = p [unfolded obj]
  have res: "ps' = ps1" "n = objSizeBytes obj"
    "obs' = obs\<lparr>obContent := descriptor (obContent obs) (svThreshold sv), obTruncated := True, obBlobRef := hexEncode (sha (obContent obs))\<rparr>"
    using ok False put by (simp_all add: offload_def Let_def)
  have "nat (svThreshold sv) \<le> length (obContent obs)" using False by simp
  then have "int (length (descriptor (obContent obs) (svThreshold sv))) = svThreshold sv + 74 + int (length (FormatInt (int (length (obContent obs)))))"
    "take (nat (svThreshold sv)) (descriptor (obContent obs) (svThreshold sv)) = take (nat (svThreshold sv)) (obContent obs)"
    using False thr by (simp_all add: descriptor_def ellipsis_def Let_def)
  then show ?thesis
    using False res fsBlobs.put_size [OF put] fsBlobs.put_get [OF put meta] by auto
qed

theorem offload_bounded_and_recoverable_witness:
  "(case offload (demoService\<lparr>svThreshold := 3\<rparr>) (demoCo noDFaults) (\<lambda>b. ''h'') demoRequest (zeroObs\<lparr>obContent := ''hello''\<rparr>) (\<lambda>_. None) of
     (ps', r) \<Rightarrow> isOk r \<and> length (obContent (fst (projr r))) = 78 \<and>
       (\<exists>obj. GetBlob demoStore demoMeta noIOFaults \<lparr>refTenantID = ''T'', refKey = ''68''\<rparr> ps' = Inr (obj, ''hello'')))"
proof -
  let ?sv = "demoService\<lparr>svThreshold := 3\<rparr>" and ?obs = "zeroObs\<lparr>obContent := ''hello''\<rparr>"
  have h: "hexEncode ''h'' = ''68''" by code_simp
  obtain ps' obs' where o: "offload ?sv (demoCo noDFaults) (\<lambda>b. ''h'') demoRequest ?obs (\<lambda>_. None) = (ps', Inr (obs', 5))" "obBlobRef obs' = ''68''"
    by (simp add: offload_def demoCo_def pgCollaborators_def Put_def readPayload_def demoStore_def ioStep_def noIOFaults_def
        writeFileAtomic_def demoMeta_def demoService_def zeroObs_def h Let_def)
  have m: "metaRoundTrips demoMeta blobMediaType (int (length (obContent ?obs)))"
    by (simp add: metaRoundTrips_def demoMeta_def FormatInt_def readDigits_FormatNat Let_def blobMediaType_def)
  have f: "length (FormatInt 5) = 1" "rqTenantID demoRequest = ''T''" by (simp_all add: FormatInt_def FormatNat.simps demoRequest_def)
  have c: "svThreshold ?sv = 3" "obContent ?obs = ''hello''" by simp_all
  have "int (length (obContent obs')) = 78" "\<exists>obj. GetBlob demoStore demoMeta noIOFaults \<lparr>refTenantID = ''T'', refKey = ''68''\<rparr> ps' = Inr (obj, ''hello'')"
    using offload_bounded_and_recoverable [OF o(1) [unfolded demoCo_def] m, unfolded c] f o(2) by simp_all
  then show ?thesis unfolding o(1) prod.case by simp
qed

text \<open>
  C29. An unfinished execution runs again. A ledger entry that is only started, or failed, does not stop a
  call with the same key: unless the ledger fails, the tool acts on the world once more. A call whose
  completion was lost is therefore repeated by its retry.
\<close>

theorem unfinished_call_runs_again:
  assumes x: "Execute sv (pgCollaborators oc fb fc now st mc ff) su req rt = (rt', r)" and t: "resolves su req rt t"
    and int: "\<not> specIsExternal (Spec t)" and em: "\<forall>msg. suProgress su msg = None" and wf: "wfLedger (rtLedger rt)"
    and entry: "pgEntry oc (rtLedger rt) (requestKey req) = Some (status, ob)" and unfinished: "status \<noteq> ExecCompleted"
  shows "rtWorld rt' = fst (runTool t (rqSessionID req) (rqArgs req) (rtWorld rt)) \<or> (\<exists>e. r = Inl (DedupBegin e))"
  using x
proof (cases rule: Execute_cases)
  case (cached reg t' l ex)
  then show ?thesis using pgLedger.begin_known [OF wf] entry unfinished by fastforce
next
  case (run reg t' l ex br)
  then show ?thesis using t em
    by (auto simp: resolves_def execFresh_def Let_def split: prod.splits sum.splits)
qed (use t int in \<open>auto simp: resolves_def\<close>)

theorem unfinished_call_runs_again_witness:
  "(case Execute demoService (demoCo completeFails) demoAround demoRequest (demoRuntime EgressClassNone []) of
     (rt1, r1) \<Rightarrow> isOk r1 \<and> rtWorld rt1 = 1 \<and>
       (case Execute demoService (demoCo noDFaults) demoAround demoRequest rt1 of (rt2, r2) \<Rightarrow> isOk r2 \<and> rtWorld rt2 = 2))"
proof -
  let ?rt = "demoRuntime EgressClassNone []" and ?t = "ValidatingTool (demoTool EgressClassNone) (projr (demoSchema ''x''))"
  obtain rt1 r1 where x: "Execute demoService (demoCo completeFails) demoAround demoRequest ?rt = (rt1, r1)" by fastforce
  obtain rt2 r2 where y: "Execute demoService (demoCo noDFaults) demoAround demoRequest rt1 = (rt2, r2)" by fastforce
  have l: "isOk r1" "rtWorld rt1 = 1" "rtLedger rt1 = [startedRow (''T'', ''S'', ''K'')]"
      "rtRegistry rt1 = (rtRegistry ?rt)\<lparr>regMCPLoaded := True\<rparr>"
    using x by (auto simp: demo_exec completeFails_def startedRow_def)
  have "isOk r2" using y l by (auto simp: demo_exec startedRow_def)
  moreover have "resolves demoAround demoRequest rt1 ?t" "\<not> specIsExternal (Spec ?t)" using l by (simp_all add: demo_exec)
  moreover have "\<forall>msg. suProgress demoAround msg = None" "wfLedger (rtLedger rt1)" using l by (simp_all add: demoAround_def wfLedger_def)
  moreover have "pgEntry demoObsCodec (rtLedger rt1) (requestKey demoRequest) = Some (ExecStarted, zeroObs)"
    using l by (simp add: pgEntry_def demo_exec startedRow_def)
  moreover have "fst (runTool ?t (rqSessionID demoRequest) (rqArgs demoRequest) (rtWorld rt1)) = 2"
    using l by (simp add: demo_exec)
  ultimately have "rtWorld rt2 = 2" using unfinished_call_runs_again [OF y [unfolded demoCo_def]] by fastforce
  with \<open>isOk r2\<close> x y l show ?thesis by simp
qed

text \<open>
  C30. Validate, then execute. The registry only hands out tools wrapped in the check of their own compiled
  schema, so a call whose arguments violate it has no effect; a tool registered natively is never shadowed
  by an MCP tool of the same name; and looking a tool up keeps the registry well formed.
\<close>

theorem registry_validates:
  assumes inv: "regInv cs reg" and get: "GetTool cs src name reg = (reg', Inr t)"
  shows "regInv cs reg' \<and> (\<exists>t0 sch. t = ValidatingTool t0 sch \<and> tsName (Spec t0) = name \<and>
    cs (tsJSONSchema (Spec t0)) = Inr sch \<and>
    (\<forall>ct. map_of (regNative reg) name = Some ct \<longrightarrow> ct = (t0, sch)) \<and>
    (\<forall>sess as w. sch as \<noteq> None \<longrightarrow> fst (runTool t sess as w) = w))"
proof -
  obtain r where e: "ensureMCPLoaded cs src reg = (reg', Inr r)"
    using get by (auto simp: GetTool_def split: prod.splits sum.splits option.splits)
  note inv' = ensureMCPLoaded_inv [OF inv e]
  obtain t0 sch where t0: "t = ValidatingTool t0 sch"
    "map_of (regNative reg') name = Some (t0, sch) \<or> map_of (regNative reg') name = None \<and> map_of (regMCPTools reg') name = Some (t0, sch)"
    using get e by (auto simp: GetTool_def split: prod.splits option.splits)
  then have "tsName (Spec t0) = name \<and> cs (tsJSONSchema (Spec t0)) = Inr sch"
    using inv' unfolding regInv_def by (metis regOk_map_of)
  then show ?thesis using inv' t0 by auto
qed

theorem registry_validates_witness:
  "(case GetTool demoSchema (Some (Inr [demoTool EgressClassExternal])) ''t'' (fst (RegisterTool demoSchema (demoTool EgressClassNone) NewRegistry)) of
     (reg', r) \<Rightarrow> isOk r \<and> tsEgressClass (Spec (projr r)) = EgressClassNone \<and>
       fst (runTool (projr r) ''s'' [(''bad'', JNull)] 7) = 7)"
proof -
  let ?reg = "fst (RegisterTool demoSchema (demoTool EgressClassNone) NewRegistry)"
  obtain reg' t where g: "GetTool demoSchema (Some (Inr [demoTool EgressClassExternal])) ''t'' ?reg = (reg', Inr t)"
    by (auto simp: demo_exec)
  have "regInv demoSchema NewRegistry" by (simp add: regInv_def regOk_def NewRegistry_def)
  then have inv: "regInv demoSchema ?reg" using RegisterTool_inv by (metis prod.collapse)
  have n: "map_of (regNative ?reg) ''t'' = Some (demoTool EgressClassNone, projr (demoSchema ''x''))"
    by (simp add: demo_exec)
  from registry_validates [OF inv g] n obtain t0 sch where
    t0: "t = ValidatingTool t0 sch" "t0 = demoTool EgressClassNone" "sch = projr (demoSchema ''x'')"
      "\<forall>sess as w. sch as \<noteq> None \<longrightarrow> fst (runTool t sess as w) = w"
    by auto
  then show ?thesis using g by (simp add: demoSchema_def demoTool_def)
qed

end
