(* ===== verification/ToolWire.thy ===== *)
theory ToolWire
  imports ToolExec AgentRun
begin

text \<open>
  The two ways the loop reaches the tool-runtime service: over gRPC, with the orchestrator's client
  \<^verbatim>\<open>adapter/outbound/toolrt/adapter.go\<close> and the tool-runtime's server \<^verbatim>\<open>adapter/inbound/grpc/server.go\<close>, and
  in process, with the bridge of \<^verbatim>\<open>cmd/boltrope-dev/localexec.go\<close>. Both implement the loop's tool port over
  the same use case, here an argument; the wire between client and server is an argument too. The last
  section follows two calls of one assistant message from the gate to the ledger.
\<close>

section \<open>Messages\<close>

datatype GenSideEffect = SIDE_EFFECT_UNSPECIFIED | SIDE_EFFECT_READ_ONLY | SIDE_EFFECT_MUTATING

datatype GenEgressClass = EGRESS_CLASS_UNSPECIFIED | EGRESS_CLASS_NONE | EGRESS_CLASS_INTERNAL | EGRESS_CLASS_EXTERNAL

record GenToolSpec =
  gsName :: string
  gsDescription :: string
  gsJsonSchema :: bytes
  gsSideEffect :: GenSideEffect
  gsEgressClass :: GenEgressClass

record GenToolCall =
  gcId :: string
  gcName :: string
  gcArgsJson :: string

record ExecuteToolRequest =
  xqTenantId :: string
  xqSessionId :: string
  xqIdempotencyKey :: string
  xqCall :: "GenToolCall option"
  xqTimeoutMs :: int

record Progress =
  pgMessage :: string
  pgStdoutChunk :: bytes

record GenToolResult =
  grCallId :: string
  grContent :: string
  grIsError :: bool

record GenBlobRef =
  gbRef :: string
  gbMediaType :: string
  gbSizeBytes :: int

record TerminalToolResult =
  ttResult :: "GenToolResult option"
  ttTruncated :: bool
  ttBlobRef :: "GenBlobRef option"

datatype ExecuteToolEvent =
    ExecuteToolEvent_Progress "Progress option"
  | ExecuteToolEvent_TerminalResult "TerminalToolResult option"
  | ExecuteToolEvent_Unset

text \<open>An error as the client sees it: a status with its code and message, or anything else.\<close>

datatype rpc_error = StatusErr string string | PlainErr string

datatype handler_error = CtxErr string | InternalErr string | SendErr string

record argsCodec =
  acMarshal :: "args \<Rightarrow> string + string"
  acUnmarshal :: "string \<Rightarrow> args option"

text \<open>
  The use case as both sides call it: with an emitter, which may refuse a progress note, it returns the
  notes emitted and the result or an infrastructure error.
\<close>

type_synonym 's executor =
  "(Progress \<Rightarrow> string option) \<Rightarrow> Request \<Rightarrow> 's \<Rightarrow> 's \<times> Progress list \<times> (string + ExecResult)"

section \<open>The server\<close>

definition millisToDuration :: "int \<Rightarrow> int" where
  "millisToDuration ms = (if ms \<le> 0 then 0 else ms * 1000000)"

definition parseArgsJSON :: "argsCodec \<Rightarrow> string \<Rightarrow> args" where
  "parseArgsJSON jc s = (if s = '''' then [] else case acUnmarshal jc s of None \<Rightarrow> [] | Some m \<Rightarrow> m)"

definition zeroRequest :: Request where
  "zeroRequest = \<lparr>rqTenantID = '''', rqSessionID = '''', rqCallID = '''', rqToolName = '''', rqArgs = [],
     rqIdempotencyKey = '''', rqTimeout = 0\<rparr>"

definition getCall :: "ExecuteToolRequest \<Rightarrow> GenToolCall" where
  "getCall req = (case xqCall req of None \<Rightarrow> \<lparr>gcId = '''', gcName = '''', gcArgsJson = ''''\<rparr> | Some c \<Rightarrow> c)"

definition toExecuteRequest :: "argsCodec \<Rightarrow> ExecuteToolRequest option \<Rightarrow> Request" where
  "toExecuteRequest jc req = (case req of
       None \<Rightarrow> zeroRequest
     | Some r \<Rightarrow> \<lparr>rqTenantID = xqTenantId r, rqSessionID = xqSessionId r, rqCallID = gcId (getCall r),
         rqToolName = gcName (getCall r), rqArgs = parseArgsJSON jc (gcArgsJson (getCall r)),
         rqIdempotencyKey = xqIdempotencyKey r, rqTimeout = millisToDuration (xqTimeoutMs r)\<rparr>)"

definition toTerminalResult :: "string \<Rightarrow> ExecResult \<Rightarrow> TerminalToolResult" where
  "toTerminalResult callID res =
     (let obs = xrObservation res in
      \<lparr>ttResult = Some \<lparr>grCallId = callID, grContent = obContent obs, grIsError = obIsError obs\<rparr>,
       ttTruncated = obTruncated obs,
       ttBlobRef = (if obBlobRef obs \<noteq> ''''
         then Some \<lparr>gbRef = obBlobRef obs, gbMediaType = ''text/plain; charset=utf-8'', gbSizeBytes = xrBlobSizeBytes res\<rparr>
         else None)\<rparr>)"

definition toGenSideEffect :: "SideEffect \<Rightarrow> GenSideEffect" where
  "toGenSideEffect se = (case se of SideEffectReadOnly \<Rightarrow> SIDE_EFFECT_READ_ONLY
     | SideEffectMutating \<Rightarrow> SIDE_EFFECT_MUTATING | _ \<Rightarrow> SIDE_EFFECT_MUTATING)"

definition toGenEgressClass :: "EgressClass \<Rightarrow> GenEgressClass" where
  "toGenEgressClass ec = (case ec of EgressClassNone \<Rightarrow> EGRESS_CLASS_NONE | EgressClassInternal \<Rightarrow> EGRESS_CLASS_INTERNAL
     | EgressClassExternal \<Rightarrow> EGRESS_CLASS_EXTERNAL | _ \<Rightarrow> EGRESS_CLASS_EXTERNAL)"

definition toGenToolSpec :: "ToolSpec \<Rightarrow> GenToolSpec" where
  "toGenToolSpec spec = \<lparr>gsName = tsName spec, gsDescription = tsDescription spec, gsJsonSchema = tsJSONSchema spec,
     gsSideEffect = toGenSideEffect (tsSideEffect spec), gsEgressClass = toGenEgressClass (tsEgressClass spec)\<rparr>"

text \<open>
  The handler: what it sends and the error it returns, given the stream's context error, if any, and the
  faults of sending.
\<close>

definition ServerExecuteTool ::
  "argsCodec \<Rightarrow> 's executor \<Rightarrow> string option \<Rightarrow> (ExecuteToolEvent \<Rightarrow> string option) \<Rightarrow> ExecuteToolRequest \<Rightarrow> 's
    \<Rightarrow> 's \<times> ExecuteToolEvent list \<times> handler_error option" where
  "ServerExecuteTool jc exec ctxErr sendErr req s =
     (case exec (\<lambda>p. sendErr (ExecuteToolEvent_Progress (Some p))) (toExecuteRequest jc (Some req)) s of
        (s', ps, Inl e) \<Rightarrow>
          (s', map (ExecuteToolEvent_Progress \<circ> Some) ps,
           Some (case ctxErr of Some c \<Rightarrow> CtxErr c | None \<Rightarrow> InternalErr e))
      | (s', ps, Inr res) \<Rightarrow>
          (let fin = ExecuteToolEvent_TerminalResult (Some (toTerminalResult (gcId (getCall req)) res)) in
           case sendErr fin of
             Some e \<Rightarrow> (s', map (ExecuteToolEvent_Progress \<circ> Some) ps, Some (SendErr e))
           | None \<Rightarrow> (s', map (ExecuteToolEvent_Progress \<circ> Some) ps @ [fin], None)))"

definition ServerListTools :: "string + ToolSpec list \<Rightarrow> handler_error + GenToolSpec list" where
  "ServerListTools specs = (case specs of Inl e \<Rightarrow> Inl (InternalErr e) | Inr ss \<Rightarrow> Inr (map toGenToolSpec ss))"

section \<open>The client\<close>

definition mapGRPCError :: "rpc_error \<Rightarrow> string" where
  "mapGRPCError err = (case err of
       PlainErr e \<Rightarrow> ''toolrt: '' @ e
     | StatusErr code msg \<Rightarrow>
         if code = ''Canceled'' \<or> code = ''DeadlineExceeded''
         then ''toolrt: rpc '' @ code @ '': '' @ msg @ '': '' @ ''rpc error: code = '' @ code @ '' desc = '' @ msg
         else ''toolrt: rpc '' @ code @ '': '' @ msg)"

definition mapToolProgress :: "Progress \<Rightarrow> string" where
  "mapToolProgress p =
     (let output = pgMessage p; chunk = pgStdoutChunk p in
      if chunk \<noteq> [] then (if output \<noteq> '''' then output @ [CHR 0x0A] else output) @ chunk else output)"

definition mapTerminalToolResult :: "TerminalToolResult \<Rightarrow> ToolOutput" where
  "mapTerminalToolResult r =
     \<lparr>toContent = (case ttResult r of None \<Rightarrow> '''' | Some x \<Rightarrow> grContent x),
      toIsError = (case ttResult r of None \<Rightarrow> False | Some x \<Rightarrow> grIsError x),
      toTruncated = ttTruncated r,
      toBlobRef = (case ttBlobRef r of None \<Rightarrow> '''' | Some b \<Rightarrow> gbRef b)\<rparr>"

text \<open>The event, and whether the stream is done after it.\<close>

definition mapExecuteToolEvent :: "ExecuteToolEvent option \<Rightarrow> ToolEvent \<times> bool" where
  "mapExecuteToolEvent ev = (case ev of
       Some (ExecuteToolEvent_Progress (Some p)) \<Rightarrow> (ToolProgress (mapToolProgress p), False)
     | Some (ExecuteToolEvent_TerminalResult (Some r)) \<Rightarrow> (ToolOutputEv (mapTerminalToolResult r), True)
     | _ \<Rightarrow> (EmptyToolEvent, False))"

text \<open>What a stream yields, call by call of \<^verbatim>\<open>Recv\<close> up to its end; the wire's events and how it ended.\<close>

type_synonym wireStream = "ExecuteToolEvent option list \<times> rpc_error option"

fun toolStreamRecvs :: "ExecuteToolEvent option list \<Rightarrow> rpc_error option \<Rightarrow> tool_recv list" where
  "toolStreamRecvs [] err = [case err of None \<Rightarrow> ToolEOF | Some e \<Rightarrow> ToolErr (mapGRPCError e)]"
| "toolStreamRecvs (ev # evs) err =
     (case mapExecuteToolEvent ev of (te, fin) \<Rightarrow> ToolRecv te # (if fin then [ToolEOF] else toolStreamRecvs evs err))"

definition AdapterExecuteTool ::
  "argsCodec \<Rightarrow> string + string \<Rightarrow> (ExecuteToolRequest \<Rightarrow> 's \<Rightarrow> 's \<times> (rpc_error + wireStream)) \<Rightarrow> ToolExecution \<Rightarrow> 's
    \<Rightarrow> 's \<times> (string + tool_recv list)" where
  "AdapterExecuteTool jc tenant rpc te s =
     (case tenant of
        Inl e \<Rightarrow> (s, Inl (''toolrt: execute '' @ goQuote (tcName (teCall te)) @ '': '' @ e))
      | Inr tn \<Rightarrow>
          (case acMarshal jc (tcArgs (teCall te)) of
             Inl e \<Rightarrow> (s, Inl (''toolrt: marshal args: '' @ e))
           | Inr argsJSON \<Rightarrow>
               (case rpc \<lparr>xqTenantId = tn, xqSessionId = teSessionID te, xqIdempotencyKey = teIdempotencyKey te,
                          xqCall = Some \<lparr>gcId = tcID (teCall te), gcName = tcName (teCall te), gcArgsJson = argsJSON\<rparr>,
                          xqTimeoutMs = 0\<rparr> s of
                  (s', Inl e) \<Rightarrow> (s', Inl (mapGRPCError e))
                | (s', Inr (evs, err)) \<Rightarrow> (s', Inr (toolStreamRecvs evs err)))))"

definition normalizeSideEffect :: "GenSideEffect \<Rightarrow> SideEffect" where
  "normalizeSideEffect se = (case se of SIDE_EFFECT_READ_ONLY \<Rightarrow> SideEffectReadOnly
     | SIDE_EFFECT_MUTATING \<Rightarrow> SideEffectMutating | _ \<Rightarrow> SideEffectMutating)"

definition normalizeEgressClass :: "GenEgressClass \<Rightarrow> EgressClass" where
  "normalizeEgressClass ec = (case ec of EGRESS_CLASS_NONE \<Rightarrow> EgressClassNone | EGRESS_CLASS_INTERNAL \<Rightarrow> EgressClassInternal
     | EGRESS_CLASS_EXTERNAL \<Rightarrow> EgressClassExternal | _ \<Rightarrow> EgressClassExternal)"

definition mapToolSpec :: "GenToolSpec \<Rightarrow> ToolDescriptor" where
  "mapToolSpec s = \<lparr>dsName = gsName s, dsDescription = gsDescription s, dsSchema = gsJsonSchema s,
     dsSideEffect = normalizeSideEffect (gsSideEffect s), dsEgressClass = normalizeEgressClass (gsEgressClass s)\<rparr>"

definition AdapterListTools :: "rpc_error + GenToolSpec list \<Rightarrow> string + ToolDescriptor list" where
  "AdapterListTools resp = (case resp of Inl e \<Rightarrow> Inl (mapGRPCError e) | Inr specs \<Rightarrow> Inr (map mapToolSpec specs))"

section \<open>The in-process bridge\<close>

definition DevTenantID :: string where "DevTenantID = ''0de0c0de-0000-4000-8000-000000000000''"

definition bridgeRequest :: "ToolExecution \<Rightarrow> Request" where
  "bridgeRequest te = \<lparr>rqTenantID = DevTenantID, rqSessionID = teSessionID te, rqCallID = tcID (teCall te),
     rqToolName = tcName (teCall te), rqArgs = tcArgs (teCall te), rqIdempotencyKey = teIdempotencyKey te, rqTimeout = 0\<rparr>"

definition bridgeOutput :: "ExecResult \<Rightarrow> ToolOutput" where
  "bridgeOutput res = \<lparr>toContent = obContent (xrObservation res), toIsError = obIsError (xrObservation res),
     toTruncated = obTruncated (xrObservation res), toBlobRef = obBlobRef (xrObservation res)\<rparr>"

definition bridgeStream :: "ToolOutput \<Rightarrow> tool_recv list" where
  "bridgeStream r = [ToolRecv (ToolOutputEv r), ToolEOF]"

definition BridgeExecuteTool :: "'s executor \<Rightarrow> ToolExecution \<Rightarrow> 's \<Rightarrow> 's \<times> (string + tool_recv list)" where
  "BridgeExecuteTool exec te s =
     (case exec (\<lambda>_. None) (bridgeRequest te) s of
        (s', _, Inl e) \<Rightarrow> (s', Inl e)
      | (s', _, Inr res) \<Rightarrow> (s', Inr (bridgeStream (bridgeOutput res))))"

definition toOrchSideEffect :: "SideEffect \<Rightarrow> SideEffect" where
  "toOrchSideEffect s = (case s of SideEffectReadOnly \<Rightarrow> SideEffectReadOnly | SideEffectMutating \<Rightarrow> SideEffectMutating
     | _ \<Rightarrow> SideEffectMutating)"

definition toOrchEgressClass :: "EgressClass \<Rightarrow> EgressClass" where
  "toOrchEgressClass e = (case e of EgressClassNone \<Rightarrow> EgressClassNone | EgressClassInternal \<Rightarrow> EgressClassInternal
     | EgressClassExternal \<Rightarrow> EgressClassExternal | _ \<Rightarrow> EgressClassExternal)"

definition BridgeListTools :: "string + ToolSpec list \<Rightarrow> string + ToolDescriptor list" where
  "BridgeListTools specs = (case specs of
       Inl e \<Rightarrow> Inl e
     | Inr ss \<Rightarrow> Inr (map (\<lambda>spec. \<lparr>dsName = tsName spec, dsDescription = tsDescription spec, dsSchema = tsJSONSchema spec,
         dsSideEffect = toOrchSideEffect (tsSideEffect spec), dsEgressClass = toOrchEgressClass (tsEgressClass spec)\<rparr>) ss))"

section \<open>The tool port\<close>

text \<open>What the loop makes of a port's answer: nothing if it fails, else the result the stream ends with.\<close>

definition observed :: "string + tool_recv list \<Rightarrow> ToolOutput option option" where
  "observed r = (case r of Inl _ \<Rightarrow> None
     | Inr recvs \<Rightarrow> (case drainTool recvs None of Inl _ \<Rightarrow> None | Inr res \<Rightarrow> Some res))"

text \<open>
  The contract of the loop's tool port over a use case: the port runs the use case once, on the request it
  makes of the execution, and the loop gets its observation, or no result if the use case failed.
\<close>

locale tool_port =
  fixes port :: "ToolExecution \<Rightarrow> 's \<Rightarrow> 's \<times> (string + tool_recv list)"
    and useCase :: "Request \<Rightarrow> 's \<Rightarrow> 's \<times> Progress list \<times> (string + ExecResult)"
    and request :: "ToolExecution \<Rightarrow> Request"
    and admits :: "ToolExecution \<Rightarrow> bool"
  assumes port_runs: "admits te \<Longrightarrow> fst (port te s) = fst (useCase (request te) s)"
    and port_observes: "admits te \<Longrightarrow> observed (snd (port te s)) =
      (case snd (snd (useCase (request te) s)) of Inl _ \<Rightarrow> None | Inr res \<Rightarrow> Some (Some (bridgeOutput res)))"
begin

lemma port_result:
  assumes "admits te" and "useCase (request te) s = (s', ps, Inr res)" and "port te s = (s'', r)"
  shows "s'' = s' \<and> observed r = Some (Some (bridgeOutput res))"
  using port_runs [OF assms(1), of s] port_observes [OF assms(1), of s] assms(2,3) by simp

lemma port_fails:
  assumes "admits te" and "useCase (request te) s = (s', ps, Inl e)" and "port te s = (s'', r)"
  shows "s'' = s' \<and> observed r = None"
  using port_runs [OF assms(1), of s] port_observes [OF assms(1), of s] assms(2,3) by simp

end

lemma drain_progress:
  "drainTool (toolStreamRecvs (map (Some \<circ> ExecuteToolEvent_Progress \<circ> Some) ps @ evs) err) res =
   drainTool (toolStreamRecvs evs err) res"
  by (induction ps) (simp_all add: mapExecuteToolEvent_def)

interpretation bridgePort: tool_port "BridgeExecuteTool exec" "exec (\<lambda>_. None)" bridgeRequest "\<lambda>_. True"
  by unfold_locales (auto simp: BridgeExecuteTool_def observed_def bridgeStream_def split: prod.splits sum.splits)

text \<open>
  The wire, as gRPC documents it: the client receives the messages in the order sent, then the end of the
  stream, or a status if the handler returned an error.
\<close>

definition faithfulWire :: "(ExecuteToolEvent list \<Rightarrow> handler_error option \<Rightarrow> wireStream) \<Rightarrow> bool" where
  "faithfulWire deliver \<longleftrightarrow> (\<forall>evs err. fst (deliver evs err) = map Some evs \<and> (snd (deliver evs err) = None) = (err = None))"

definition overWire ::
  "argsCodec \<Rightarrow> 's executor \<Rightarrow> string option \<Rightarrow> (ExecuteToolEvent list \<Rightarrow> handler_error option \<Rightarrow> wireStream)
    \<Rightarrow> ExecuteToolRequest \<Rightarrow> 's \<Rightarrow> 's \<times> (rpc_error + wireStream)" where
  "overWire jc exec ctxErr deliver req s =
     (case ServerExecuteTool jc exec ctxErr (\<lambda>_. None) req s of (s', evs, err) \<Rightarrow> (s', Inr (deliver evs err)))"

definition argsSurvive :: "argsCodec \<Rightarrow> args \<Rightarrow> bool" where
  "argsSurvive jc as \<longleftrightarrow> (case acMarshal jc as of Inl _ \<Rightarrow> False | Inr s \<Rightarrow> parseArgsJSON jc s = as)"

definition tenantRequest :: "string \<Rightarrow> ToolExecution \<Rightarrow> Request" where
  "tenantRequest tn te = (bridgeRequest te)\<lparr>rqTenantID := tn\<rparr>"

lemma wire_port:
  assumes "faithfulWire deliver" and "argsSurvive jc (tcArgs (teCall te))"
  shows "fst (AdapterExecuteTool jc (Inr tn) (overWire jc exec ctxErr deliver) te s) = fst (exec (\<lambda>_. None) (tenantRequest tn te) s)"
    and "observed (snd (AdapterExecuteTool jc (Inr tn) (overWire jc exec ctxErr deliver) te s)) =
      (case snd (snd (exec (\<lambda>_. None) (tenantRequest tn te) s)) of Inl _ \<Rightarrow> None | Inr res \<Rightarrow> Some (Some (bridgeOutput res)))"
proof -
  obtain j where j: "acMarshal jc (tcArgs (teCall te)) = Inr j" "parseArgsJSON jc j = tcArgs (teCall te)"
    using assms(2) by (auto simp: argsSurvive_def split: sum.splits)
  obtain s' ps r where x: "exec (\<lambda>_. None) (tenantRequest tn te) s = (s', ps, r)" by (cases "exec (\<lambda>_. None) (tenantRequest tn te) s") auto
  let ?q = "\<lparr>xqTenantId = tn, xqSessionId = teSessionID te, xqIdempotencyKey = teIdempotencyKey te,
      xqCall = Some \<lparr>gcId = tcID (teCall te), gcName = tcName (teCall te), gcArgsJson = j\<rparr>, xqTimeoutMs = 0\<rparr>"
  have q: "toExecuteRequest jc (Some ?q) = tenantRequest tn te"
    using j(2) by (simp add: toExecuteRequest_def getCall_def tenantRequest_def bridgeRequest_def millisToDuration_def)
  have out: "mapTerminalToolResult (toTerminalResult c res) = bridgeOutput res" for c res
    by (simp add: mapTerminalToolResult_def toTerminalResult_def bridgeOutput_def Let_def)
  have drain: "drainTool (toolStreamRecvs (fst (deliver (map (ExecuteToolEvent_Progress \<circ> Some) ps @ evs) err))
      (snd (deliver (map (ExecuteToolEvent_Progress \<circ> Some) ps @ evs) err))) None =
      drainTool (toolStreamRecvs (map Some evs) (snd (deliver (map (ExecuteToolEvent_Progress \<circ> Some) ps @ evs) err))) None" for evs err
    using assms(1) drain_progress [of ps "map Some evs" _ None] by (simp add: faithfulWire_def comp_assoc)
  have ends: "(snd (deliver evs err) = None) = (err = None)" for evs err using assms(1) by (simp add: faithfulWire_def)
  note unfolds = AdapterExecuteTool_def overWire_def ServerExecuteTool_def q x j(1) observed_def Let_def case_prod_unfold
  show "fst (AdapterExecuteTool jc (Inr tn) (overWire jc exec ctxErr deliver) te s) = fst (exec (\<lambda>_. None) (tenantRequest tn te) s)"
    by (cases r) (simp_all add: unfolds)
  show "observed (snd (AdapterExecuteTool jc (Inr tn) (overWire jc exec ctxErr deliver) te s)) =
      (case snd (snd (exec (\<lambda>_. None) (tenantRequest tn te) s)) of Inl _ \<Rightarrow> None | Inr res \<Rightarrow> Some (Some (bridgeOutput res)))"
    using drain [of "[]"] drain ends
    by (cases r) (auto simp: unfolds mapExecuteToolEvent_def out split: option.splits)
qed

interpretation wirePort: tool_port "AdapterExecuteTool jc (Inr tn) (overWire jc exec ctxErr deliver)" "exec (\<lambda>_. None)"
  "tenantRequest tn" "\<lambda>te. faithfulWire deliver \<and> argsSurvive jc (tcArgs (teCall te))"
  by unfold_locales (auto simp: wire_port)

lemma spec_over_wire:
  "normalizeSideEffect (toGenSideEffect se) = toOrchSideEffect se" "normalizeEgressClass (toGenEgressClass ec) = toOrchEgressClass ec"
  by (cases se; simp add: normalizeSideEffect_def toGenSideEffect_def toOrchSideEffect_def)
    (cases ec; simp add: normalizeEgressClass_def toGenEgressClass_def toOrchEgressClass_def)

section \<open>The use case behind the port\<close>

definition execProgress ::
  "('l, 'b, 'p) Collaborators \<Rightarrow> 'w surroundings \<Rightarrow> Request \<Rightarrow> ('l, 'b, 'p, 'w) runtime \<Rightarrow> Progress list" where
  "execProgress co su req rt =
     (case snd (GetTool (suCompile su) (suMCP su) (rqToolName req) (rtRegistry rt)) of
        Inl _ \<Rightarrow> []
      | Inr t \<Rightarrow>
          (case snd (coBegin co (execRecord req) (rtLedger rt)) of
             Inl _ \<Rightarrow> []
           | Inr existing \<Rightarrow>
               if erStatus existing = ExecCompleted \<or>
                  specIsExternal (Spec t) \<and> snd (egressGate (coAllow co) (suParseHost su) req t (rtBroker rt)) \<noteq> None \<or>
                  suProgress su (''executing '' @ tsName (Spec t)) \<noteq> None
               then [] else [\<lparr>pgMessage = ''executing '' @ tsName (Spec t), pgStdoutChunk = []\<rparr>]))"

definition serviceExecute ::
  "(exec_error \<Rightarrow> string) \<Rightarrow> ExecService \<Rightarrow> ('l, 'b, 'p) Collaborators \<Rightarrow> 'w surroundings \<Rightarrow> ('l, 'b, 'p, 'w) runtime executor" where
  "serviceExecute errText sv co su em req rt =
     (let su' = su\<lparr>suProgress := (\<lambda>msg. em \<lparr>pgMessage = msg, pgStdoutChunk = []\<rparr>)\<rparr> in
      case Execute sv co su' req rt of
        (rt', r) \<Rightarrow> (rt', execProgress co su' req rt, case r of Inl e \<Rightarrow> Inl (errText e) | Inr res \<Rightarrow> Inr res))"

section \<open>Two calls of one message\<close>

definition sameSeq :: "'e machine \<Rightarrow> 'e machine \<Rightarrow> bool" where
  "sameSeq m m' \<longleftrightarrow> rsSessionID (mcRun m') = rsSessionID (mcRun m) \<and> rsLastAssistantSeq (mcRun m') = rsLastAssistantSeq (mcRun m)"

lemma preorder_sameSeq [simp]: "preorder sameSeq"
  by (simp add: preorder_def sameSeq_def)

lemma sameSeq_append: "stays sameSeq (appendEv l actor ev)"
  unfolding appendEv_def by (intro staysI preorder_sameSeq) (simp_all add: sameSeq_def)

lemma sameSeq_gateCall: "stays sameSeq (gateCall l c cls)"
  unfolding gateCall_def askHuman_def decide_def
  by (intro staysI preorder_sameSeq sameSeq_append) (simp_all add: sameSeq_def)

abbreviation callKey :: "'e Loop \<Rightarrow> 'e machine \<Rightarrow> string" where
  "callKey l m \<equiv> deriveIdempotencyKey (dpSha (lpDeps l)) (rsSessionID (mcRun m)) (rsLastAssistantSeq (mcRun m))"

lemma gateCalls_key:
  assumes "gateCalls l classes calls todo results m = (m', Inr (todo', denied))"
    and "list_all (\<lambda>e. seIdemKey e = callKey l m) todo"
  shows "list_all (\<lambda>e. seIdemKey e = callKey l m) todo'"
  using assms
proof (induction calls arbitrary: todo results m)
  case Nil
  then show ?case by (simp add: retP_def)
next
  case (Cons c cs)
  let ?cls = "case classes (tcName c) of None \<Rightarrow> zeroDescriptor | Some x \<Rightarrow> x"
  from Cons.prems(1) obtain m1 d where g: "gateCall l c ?cls m = (m1, Inr d)"
    and rest: "(case d of Some obs \<Rightarrow> gateCalls l classes cs todo (results(tcID c \<mapsto> obs))
      | None \<Rightarrow> bindP getP (\<lambda>st.
          seqP (appendEv l ActorSystem (ToolExecutionStarted (tcID c) (tcName c)
            (deriveIdempotencyKey (dpSha (lpDeps l)) (rsSessionID st) (rsLastAssistantSeq st))))
          (gateCalls l classes cs (todo @ [\<lparr>seCall = c,
            seIdemKey = deriveIdempotencyKey (dpSha (lpDeps l)) (rsSessionID st) (rsLastAssistantSeq st),
            seParallel = runsParallel ?cls\<rparr>]) results))) m1
      = (m', Inr (todo', denied))"
    unfolding gateCalls.simps(2) Let_def by (subst (asm) bindP_Inr) blast
  have key: "callKey l m1 = callKey l m" using stays_use [OF sameSeq_gateCall g] by (simp add: sameSeq_def)
  show ?case
  proof (cases d)
    case (Some obs)
    with rest Cons.IH [of todo _ m1] Cons.prems(2) key show ?thesis by simp
  next
    case None
    with rest obtain m2 where a: "appendEv l ActorSystem (ToolExecutionStarted (tcID c) (tcName c) (callKey l m1)) m1 = (m2, Inr ())"
      and g2: "gateCalls l classes cs (todo @ [\<lparr>seCall = c, seIdemKey = callKey l m1, seParallel = runsParallel ?cls\<rparr>]) results m2
        = (m', Inr (todo', denied))"
      by (auto simp: bindP_Inr seqP_Inr getP_def Let_def)
    have "callKey l m2 = callKey l m1" using stays_use [OF sameSeq_append a] by (simp add: sameSeq_def)
    with g2 Cons.IH [OF g2] Cons.prems(2) key show ?thesis by simp
  qed
qed

text \<open>The execution the loop makes of a scheduled call.\<close>

definition executionOf :: "string \<Rightarrow> scheduledExec \<Rightarrow> ToolExecution" where
  "executionOf sid e = \<lparr>teSessionID = sid, teCall = seCall e, teIdempotencyKey = seIdemKey e\<rparr>"

lemma siblings_same_key:
  assumes "gateCalls l classes calls [] Map.empty m = (m', Inr (todo, denied))" and "e1 \<in> set todo" and "e2 \<in> set todo"
  shows "requestKey (tenantRequest tn (executionOf sid e2)) = requestKey (tenantRequest tn (executionOf sid e1))"
  using gateCalls_key [OF assms(1)] assms(2,3)
  by (simp add: list_all_iff requestKey_def tenantRequest_def bridgeRequest_def executionOf_def)

section \<open>Property\<close>


definition demoArgsCodec :: argsCodec where
  "demoArgsCodec = \<lparr>acMarshal = (\<lambda>_. Inr ''{}''), acUnmarshal = (\<lambda>_. Some [])\<rparr>"

definition demoDeliver :: "ExecuteToolEvent list \<Rightarrow> handler_error option \<Rightarrow> wireStream" where
  "demoDeliver evs err = (map Some evs, map_option (\<lambda>_. StatusErr ''Internal'' ''failed'') err)"

definition demoUseCase :: "(ledger, Broker, files, nat) runtime executor" where
  "demoUseCase = serviceExecute (\<lambda>_. ''failed'') demoService (demoCo noDFaults) demoAround"

definition demoCallOfT :: ToolExecution where
  "demoCallOfT = \<lparr>teSessionID = ''S'', teCall = \<lparr>tcID = ''c'', tcName = ''t'', tcArgs = []\<rparr>, teIdempotencyKey = ''K''\<rparr>"


end
