(* ===== verification/EventStore.thy ===== *)
theory EventStore
  imports HashChain
begin

text \<open>
  The durable event store, \<^verbatim>\<open>internal/orchestrator/adapter/outbound/eventstore\<close>: the tables of
  \<^verbatim>\<open>migrations/0001\<close>, \<^verbatim>\<open>0002\<close>, \<^verbatim>\<open>0004\<close> and \<^verbatim>\<open>0009\<close> as a record of row lists, row level security as a
  filter on the tenant column, and every operation of the store as a function from the database to an
  error or a result with the next database. A transaction that returns an error is rolled back, so the
  function that fails has no next database. Every SQL statement may fail: \<open>faults\<close> tells which of the
  statements of one operation the driver rejects. JSON encoding is the parameter \<open>codec\<close>, SHA-256 the
  parameter \<open>sha\<close> and the value of \<^verbatim>\<open>now()\<close> the parameter \<open>now\<close>.
\<close>

section \<open>Tables\<close>

record TenantRow =
  tr_id :: string
  tr_name :: string

record SessionRow =
  sr_id :: string
  sr_tenant :: string
  sr_parent :: "string option"
  sr_forked_from :: "int option"
  sr_status :: SessionStatus
  sr_head_seq :: int
  sr_lease_owner :: "string option"
  sr_lease_epoch :: int
  sr_lease_expires :: "int option"
  sr_last_event_at :: "int option"
  sr_created_at :: int
  sr_updated_at :: int
  sr_mode :: PermissionMode
  sr_chain_head :: "bytes option"

record EventRow =
  er_global_id :: int
  er_xid :: int
  er_tenant :: string
  er_session :: string
  er_seq :: int
  er_request :: string
  er_type :: EventType
  er_schema_version :: int
  er_payload :: bytes
  er_canonical :: "bytes option"
  er_blob_ref :: "string option"
  er_actor :: Actor
  er_created_at :: int
  er_content_hash :: "bytes option"
  er_chain_hash :: "bytes option"

record BlobRow =
  br_tenant :: string
  br_ref :: string
  br_media_type :: string
  br_size :: int
  br_uri :: string

record db =
  db_tenants :: "TenantRow list"
  db_sessions :: "SessionRow list"
  db_events :: "EventRow list"
  db_blobs :: "BlobRow list"
  db_next_global :: int
  db_next_xid :: int
  db_notified :: "string list"

definition emptyDb :: db where
  "emptyDb = \<lparr>db_tenants = [], db_sessions = [], db_events = [], db_blobs = [], db_next_global = 1,
     db_next_xid = 1, db_notified = []\<rparr>"

section \<open>Parameters, errors and faults\<close>

record codec =
  cMarshal :: "event \<Rightarrow> bytes option"
  cUnmarshal :: "EventType \<Rightarrow> bytes \<Rightarrow> event option"

type_synonym ctx = "string option"

datatype stmt = SAcquire | SBegin | SSetTenant | SQuery | SGate | SReread | SBlob | SChainHead
  | SInsert nat | SAdvance | SNotify | SSeed | SCommit

datatype fault = DriverFault | UniqueViolation

type_synonym faults = "stmt \<Rightarrow> fault option"

datatype store_error = ErrNoTenant | ErrEmptyAppend | SessionNotActiveError | FencedError
  | ConflictError | ErrDriver stmt | ErrConstraint stmt | ErrMarshal EventType | ErrDecode EventType
  | ErrUnknownEventType string | ErrBlobRefRequired | ErrBlobRefUnmatched string | ErrForkNegative
  | ErrStatusActive

definition noFaults :: faults where
  "noFaults s = None"

definition runStmt :: "faults \<Rightarrow> stmt \<Rightarrow> store_error + unit" where
  "runStmt flt s = require (flt s = None) (ErrDriver s)"

text \<open>Row level security: a tenant scoped transaction reads and updates the tenant's own rows.\<close>

definition visibleSessions :: "string \<Rightarrow> db \<Rightarrow> SessionRow list" where
  "visibleSessions t d = filter (\<lambda>r. sr_tenant r = t) (db_sessions d)"

definition visibleEvents :: "string \<Rightarrow> db \<Rightarrow> EventRow list" where
  "visibleEvents t d = filter (\<lambda>r. er_tenant r = t) (db_events d)"

definition findSession :: "string \<Rightarrow> string \<Rightarrow> db \<Rightarrow> SessionRow option" where
  "findSession t sid d = find (\<lambda>r. sr_id r = sid) (visibleSessions t d)"

definition updateSessions :: "string \<Rightarrow> (SessionRow \<Rightarrow> bool) \<Rightarrow> (SessionRow \<Rightarrow> SessionRow) \<Rightarrow> db \<Rightarrow> db" where
  "updateSessions t p f d =
     d\<lparr>db_sessions := map (\<lambda>r. if sr_tenant r = t \<and> p r then f r else r) (db_sessions d)\<rparr>"

definition selectEvents :: "string \<Rightarrow> string \<Rightarrow> (EventRow \<Rightarrow> bool) \<Rightarrow> db \<Rightarrow> EventRow list" where
  "selectEvents t sid p d =
     sort_key er_seq (filter (\<lambda>r. er_session r = sid \<and> p r) (visibleEvents t d))"

definition TenantFromContext :: "ctx \<Rightarrow> store_error + string" where
  "TenantFromContext c = (case c of None \<Rightarrow> Inl ErrNoTenant
     | Some t \<Rightarrow> if t = '''' then Inl ErrNoTenant else Inr t)"

definition beginTenantTx :: "faults \<Rightarrow> ctx \<Rightarrow> store_error + string" where
  "beginTenantTx flt c =
     andThen (TenantFromContext c) (\<lambda>t.
     andThen (runStmt flt SAcquire) (\<lambda>_.
     andThen (runStmt flt SBegin) (\<lambda>_.
     andThen (runStmt flt SSetTenant) (\<lambda>_. Inr t))))"

section \<open>Rows and envelopes\<close>

definition MarshalEventPayload :: "codec \<Rightarrow> event \<Rightarrow> store_error + bytes" where
  "MarshalEventPayload c e =
     (case cMarshal c e of None \<Rightarrow> Inl (ErrMarshal (eventType e)) | Some b \<Rightarrow> Inr b)"

fun decodePayload :: "codec \<Rightarrow> EventType \<Rightarrow> bytes \<Rightarrow> store_error + event" where
  "decodePayload c (EventOther s) p = Inl (ErrUnknownEventType s)"
| "decodePayload c t p = (case cUnmarshal c t p of None \<Rightarrow> Inl (ErrDecode t) | Some e \<Rightarrow> Inr e)"

definition scanEnvelope :: "codec \<Rightarrow> string \<Rightarrow> EventRow \<Rightarrow> store_error + EventEnvelope" where
  "scanEnvelope c t r =
     andThen (decodePayload c (er_type r)
        (case er_canonical r of Some b \<Rightarrow> b | None \<Rightarrow> er_payload r)) (\<lambda>e.
     Inr \<lparr>envType = er_type r, envSeq = er_seq r, envSessionID = er_session r, envTenantID = t,
          envRequestID = er_request r, envSchemaVersion = er_schema_version r, envActor = er_actor r,
          envCreatedAt = er_created_at r, envEvent = e, envPayloadCanonical = er_canonical r,
          envContentHash = er_content_hash r, envChainHash = er_chain_hash r\<rparr>)"

fun scanEnvelopes :: "codec \<Rightarrow> string \<Rightarrow> EventRow list \<Rightarrow> store_error + EventEnvelope list" where
  "scanEnvelopes c t [] = Inr []"
| "scanEnvelopes c t (r # rs) =
     andThen (scanEnvelope c t r) (\<lambda>e.
     andThen (scanEnvelopes c t rs) (\<lambda>es. Inr (e # es)))"

record BlobUpload =
  buRef :: string
  buMediaType :: string
  buSizeBytes :: int
  buStorageURI :: string

definition insertBlobRow :: "faults \<Rightarrow> string \<Rightarrow> BlobUpload \<Rightarrow> db \<Rightarrow> store_error + db" where
  "insertBlobRow flt t b d =
     andThen (require (buRef b \<noteq> '''') ErrBlobRefRequired) (\<lambda>_.
     andThen (runStmt flt SBlob) (\<lambda>_.
     Inr (if \<exists>r \<in> set (db_blobs d). br_tenant r = t \<and> br_ref r = buRef b then d
          else d\<lparr>db_blobs := db_blobs d @
            [\<lparr>br_tenant = t, br_ref = buRef b, br_media_type = buMediaType b,
              br_size = buSizeBytes b, br_uri = buStorageURI b\<rparr>]\<rparr>)))"

definition eventBlobRef :: "event \<Rightarrow> string" where
  "eventBlobRef e = (case e of ToolResult _ _ _ _ ref \<Rightarrow> ref | _ \<Rightarrow> '''')"

definition defaultSchemaVersion :: int where
  "defaultSchemaVersion = 1"

definition insertEvent ::
    "codec \<Rightarrow> hashfun \<Rightarrow> faults \<Rightarrow> int \<Rightarrow> string \<Rightarrow> string \<Rightarrow> int \<Rightarrow> string \<Rightarrow> AppendInput \<Rightarrow>
     BlobUpload option \<Rightarrow> bytes \<Rightarrow> nat \<Rightarrow> db \<Rightarrow> store_error + (EventEnvelope \<times> db)" where
  "insertEvent c sha flt now t sid seq req inp blob prevChain i d =
     andThen (MarshalEventPayload c (aiEvent inp)) (\<lambda>payload.
     let ver = (if aiSchemaVersion inp = 0 then defaultSchemaVersion else aiSchemaVersion inp);
         actor = (if aiActor inp = ActorUnset then ActorSystem else aiActor inp);
         ref = eventBlobRef (aiEvent inp)
     in
     andThen (require (ref = '''' \<or> (\<exists>b \<in> set_option blob. buRef b = ref)) (ErrBlobRefUnmatched ref)) (\<lambda>_.
     let contentHash = ContentHash sha payload;
         chainHash = ChainHash sha prevChain contentHash;
         row = \<lparr>er_global_id = db_next_global d, er_xid = db_next_xid d, er_tenant = t,
                er_session = sid, er_seq = seq, er_request = req, er_type = eventType (aiEvent inp),
                er_schema_version = ver, er_payload = payload, er_canonical = Some payload,
                er_blob_ref = (if ref = '''' then None else Some ref), er_actor = actor,
                er_created_at = now, er_content_hash = Some contentHash,
                er_chain_hash = Some chainHash\<rparr>
     in
     andThen (runStmt flt (SInsert i)) (\<lambda>_.
     andThen (require (seq \<ge> 1
         \<and> (\<forall>r \<in> set (db_events d). \<not> (er_session r = sid \<and> er_seq r = seq))
         \<and> (ref = '''' \<or> (\<exists>b \<in> set (db_blobs d). br_tenant b = t \<and> br_ref b = ref)))
         (ErrConstraint (SInsert i))) (\<lambda>_.
     Inr (\<lparr>envType = eventType (aiEvent inp), envSeq = seq, envSessionID = sid, envTenantID = t,
           envRequestID = req, envSchemaVersion = ver, envActor = actor, envCreatedAt = now,
           envEvent = aiEvent inp, envPayloadCanonical = Some payload,
           envContentHash = Some contentHash, envChainHash = Some chainHash\<rparr>,
          d\<lparr>db_events := db_events d @ [row], db_next_global := db_next_global d + 1\<rparr>)))))"

section \<open>The append transaction\<close>

definition loadByRequestID ::
    "codec \<Rightarrow> faults \<Rightarrow> string \<Rightarrow> string \<Rightarrow> string \<Rightarrow> db \<Rightarrow> store_error + (EventEnvelope list \<times> bool)" where
  "loadByRequestID c flt t sid req d =
     andThen (runStmt flt SQuery) (\<lambda>_.
     andThen (scanEnvelopes c t (selectEvents t sid (\<lambda>r. er_request r = req) d)) (\<lambda>envs.
     Inr (envs, envs \<noteq> [])))"

text \<open>The single \<^verbatim>\<open>UPDATE ... RETURNING head_seq\<close>: \<open>None\<close> when it matches no row.\<close>

definition gateMatches :: "string \<Rightarrow> int \<Rightarrow> int \<Rightarrow> SessionRow \<Rightarrow> bool" where
  "gateMatches sid expected epoch r \<longleftrightarrow> sr_id r = sid \<and> sr_head_seq r = expected \<and>
     sr_lease_epoch r = epoch \<and> sr_status r = StatusActive"

definition gateUpdate ::
    "faults \<Rightarrow> int \<Rightarrow> string \<Rightarrow> string \<Rightarrow> int \<Rightarrow> int \<Rightarrow> int \<Rightarrow> db \<Rightarrow> store_error + db option" where
  "gateUpdate flt now t sid expected epoch n d =
     andThen (runStmt flt SGate) (\<lambda>_.
     Inr (if \<exists>r \<in> set (visibleSessions t d). gateMatches sid expected epoch r
          then Some (updateSessions t (gateMatches sid expected epoch)
             (\<lambda>r. r\<lparr>sr_head_seq := sr_head_seq r + n, sr_updated_at := now,
                    sr_last_event_at := Some now\<rparr>) d)
          else None))"

definition classifyAppendFailure :: "faults \<Rightarrow> string \<Rightarrow> string \<Rightarrow> int \<Rightarrow> db \<Rightarrow> store_error" where
  "classifyAppendFailure flt t sid epoch d =
     (if flt SReread \<noteq> None then ErrDriver SReread
      else case findSession t sid d of
        None \<Rightarrow> SessionNotActiveError
      | Some r \<Rightarrow> if sr_status r \<noteq> StatusActive then SessionNotActiveError
                  else if sr_lease_epoch r \<noteq> epoch then FencedError
                  else ConflictError)"

definition loadChainHead :: "hashfun \<Rightarrow> faults \<Rightarrow> string \<Rightarrow> string \<Rightarrow> db \<Rightarrow> store_error + bytes" where
  "loadChainHead sha flt t sid d =
     andThen (runStmt flt SChainHead) (\<lambda>_.
     case findSession t sid d of
       None \<Rightarrow> Inl (ErrDriver SChainHead)
     | Some r \<Rightarrow> Inr (case sr_chain_head r of None \<Rightarrow> GenesisChainHash sha sid | Some h \<Rightarrow> h))"

text \<open>The loop over the batch: the running chain head and the contiguous sequence number.\<close>

fun insertEvents ::
    "codec \<Rightarrow> hashfun \<Rightarrow> faults \<Rightarrow> int \<Rightarrow> string \<Rightarrow> string \<Rightarrow> string \<Rightarrow> BlobUpload option \<Rightarrow> int \<Rightarrow> nat \<Rightarrow>
     bytes \<Rightarrow> AppendInput list \<Rightarrow> db \<Rightarrow> store_error + (EventEnvelope list \<times> bytes \<times> db)" where
  "insertEvents c sha flt now t sid req blob expected i prevChain [] d = Inr ([], prevChain, d)"
| "insertEvents c sha flt now t sid req blob expected i prevChain (inp # inps) d =
     andThen (insertEvent c sha flt now t sid (expected + 1 + int i) req inp blob prevChain i d)
       (\<lambda>(env, d').
     andThen (insertEvents c sha flt now t sid req blob expected (Suc i)
         (orNil (envChainHash env)) inps d')
       (\<lambda>(envs, prev', d''). Inr (env # envs, prev', d'')))"

definition advanceChainHead :: "faults \<Rightarrow> string \<Rightarrow> string \<Rightarrow> bytes \<Rightarrow> db \<Rightarrow> store_error + db" where
  "advanceChainHead flt t sid h d =
     andThen (runStmt flt SAdvance) (\<lambda>_.
     Inr (updateSessions t (\<lambda>r. sr_id r = sid) (\<lambda>r. r\<lparr>sr_chain_head := Some h\<rparr>) d))"

definition reclassifyCommitError :: "fault \<Rightarrow> store_error" where
  "reclassifyCommitError f = (case f of UniqueViolation \<Rightarrow> ConflictError | DriverFault \<Rightarrow> ErrDriver SCommit)"

definition commitTx :: "db \<Rightarrow> db" where
  "commitTx d = d\<lparr>db_next_xid := db_next_xid d + 1\<rparr>"

text \<open>Statements (b) to the commit, run once the idempotency lookup (a) has found nothing.\<close>

definition appendGated ::
    "codec \<Rightarrow> hashfun \<Rightarrow> faults \<Rightarrow> int \<Rightarrow> string \<Rightarrow> string \<Rightarrow> int \<Rightarrow> int \<Rightarrow> string \<Rightarrow> BlobUpload option \<Rightarrow>
     AppendInput list \<Rightarrow> db \<Rightarrow> store_error + (EventEnvelope list \<times> db)" where
  "appendGated c sha flt now t sid expected epoch req blob events d =
     andThen (gateUpdate flt now t sid expected epoch (int (length events)) d) (\<lambda>g.
     case g of None \<Rightarrow> Inl (classifyAppendFailure flt t sid epoch d)
     | Some d1 \<Rightarrow>
       andThen (case blob of None \<Rightarrow> Inr d1 | Some b \<Rightarrow> insertBlobRow flt t b d1) (\<lambda>d2.
       andThen (loadChainHead sha flt t sid d2) (\<lambda>prev.
       andThen (insertEvents c sha flt now t sid req blob expected 0 prev events d2)
         (\<lambda>(envs, prev', d3).
       andThen (advanceChainHead flt t sid prev' d3) (\<lambda>d4.
       andThen (runStmt flt SNotify) (\<lambda>_.
       case flt SCommit of
         Some f \<Rightarrow> Inl (reclassifyCommitError f)
       | None \<Rightarrow> Inr (envs, commitTx (d4\<lparr>db_notified := db_notified d4 @ [sid]\<rparr>))))))))"

definition appendTx ::
    "codec \<Rightarrow> hashfun \<Rightarrow> faults \<Rightarrow> int \<Rightarrow> ctx \<Rightarrow> string \<Rightarrow> int \<Rightarrow> int \<Rightarrow> string \<Rightarrow> BlobUpload option \<Rightarrow>
     AppendInput list \<Rightarrow> db \<Rightarrow> store_error + (EventEnvelope list \<times> db)" where
  "appendTx c sha flt now cx sid expected epoch req blob events d =
     (if events = [] then Inl ErrEmptyAppend
      else andThen (TenantFromContext cx) (\<lambda>t.
           andThen (beginTenantTx flt cx) (\<lambda>_.
           andThen (loadByRequestID c flt t sid req d) (\<lambda>(prior, found).
           if found then Inr (prior, d)
           else appendGated c sha flt now t sid expected epoch req blob events d))))"

definition Append ::
    "codec \<Rightarrow> hashfun \<Rightarrow> faults \<Rightarrow> int \<Rightarrow> ctx \<Rightarrow> string \<Rightarrow> int \<Rightarrow> int \<Rightarrow> string \<Rightarrow> AppendInput list \<Rightarrow> db \<Rightarrow>
     store_error + (EventEnvelope list \<times> db)" where
  "Append c sha flt now cx sid expected epoch req events d =
     appendTx c sha flt now cx sid expected epoch req None events d"

definition AppendWithBlob ::
    "codec \<Rightarrow> hashfun \<Rightarrow> faults \<Rightarrow> int \<Rightarrow> ctx \<Rightarrow> string \<Rightarrow> int \<Rightarrow> int \<Rightarrow> string \<Rightarrow> BlobUpload \<Rightarrow>
     AppendInput list \<Rightarrow> db \<Rightarrow> store_error + (EventEnvelope list \<times> db)" where
  "AppendWithBlob c sha flt now cx sid expected epoch req blob events d =
     appendTx c sha flt now cx sid expected epoch req (Some blob) events d"

section \<open>Tenants and sessions\<close>

definition CreateTenant :: "faults \<Rightarrow> ctx \<Rightarrow> string \<Rightarrow> string \<Rightarrow> db \<Rightarrow> store_error + (unit \<times> db)" where
  "CreateTenant flt cx tenantID name d =
     andThen (beginTenantTx flt cx) (\<lambda>t.
     andThen (runStmt flt SQuery) (\<lambda>_.
     andThen (require (tenantID = t) (ErrConstraint SQuery)) (\<lambda>_.
     let d' = (if \<exists>r \<in> set (db_tenants d). tr_id r = tenantID then d
               else d\<lparr>db_tenants := db_tenants d @ [\<lparr>tr_id = tenantID, tr_name = name\<rparr>]\<rparr>)
     in andThen (runStmt flt SCommit) (\<lambda>_. Inr ((), commitTx d')))))"

definition insertSession :: "SessionRow \<Rightarrow> db \<Rightarrow> store_error + db" where
  "insertSession r d =
     andThen (require (sr_id r \<notin> sr_id ` set (db_sessions d) \<and> sr_tenant r \<in> tr_id ` set (db_tenants d))
        (ErrConstraint SQuery)) (\<lambda>_.
     Inr (d\<lparr>db_sessions := db_sessions d @ [r]\<rparr>))"

definition CreateSession ::
    "faults \<Rightarrow> int \<Rightarrow> ctx \<Rightarrow> string \<Rightarrow> PermissionMode \<Rightarrow> db \<Rightarrow> store_error + (Session \<times> db)" where
  "CreateSession flt now cx sid mode d =
     andThen (TenantFromContext cx) (\<lambda>t.
     andThen (beginTenantTx flt cx) (\<lambda>_.
     andThen (runStmt flt SQuery) (\<lambda>_.
     let r = \<lparr>sr_id = sid, sr_tenant = t, sr_parent = None, sr_forked_from = None,
              sr_status = StatusActive, sr_head_seq = 0, sr_lease_owner = None, sr_lease_epoch = 0,
              sr_lease_expires = None, sr_last_event_at = None, sr_created_at = now,
              sr_updated_at = now, sr_mode = OrDefault mode, sr_chain_head = None\<rparr>
     in
     andThen (insertSession r d) (\<lambda>d'.
     andThen (runStmt flt SCommit) (\<lambda>_.
     Inr (zeroSession\<lparr>sID := sr_id r, sTenantID := sr_tenant r, sStatus := sr_status r,
            sHeadSeq := sr_head_seq r, sLeaseEpoch := sr_lease_epoch r, sMode := sr_mode r,
            sCreatedAt := sr_created_at r, sUpdatedAt := sr_updated_at r\<rparr>, commitTx d'))))))"

definition SetSessionStatus ::
    "faults \<Rightarrow> int \<Rightarrow> ctx \<Rightarrow> string \<Rightarrow> int \<Rightarrow> SessionStatus \<Rightarrow> db \<Rightarrow> store_error + (unit \<times> db)" where
  "SetSessionStatus flt now cx sid epoch status d =
     andThen (require (status \<noteq> StatusActive) ErrStatusActive) (\<lambda>_.
     andThen (beginTenantTx flt cx) (\<lambda>t.
     andThen (runStmt flt SGate) (\<lambda>_.
     let p = (\<lambda>r. sr_id r = sid \<and> sr_lease_epoch r = epoch) in
     if \<not> (\<exists>r \<in> set (visibleSessions t d). p r) then Inl (classifyAppendFailure flt t sid epoch d)
     else andThen (runStmt flt SCommit) (\<lambda>_.
       Inr ((), commitTx (updateSessions t p (\<lambda>r. r\<lparr>sr_status := status, sr_updated_at := now\<rparr>) d))))))"

definition sessionOfRow :: "SessionRow \<Rightarrow> Session" where
  "sessionOfRow r = \<lparr>sID = sr_id r, sTenantID = sr_tenant r,
     sParentID = (case sr_parent r of None \<Rightarrow> '''' | Some p \<Rightarrow> p),
     sForkedFromSeq = (case sr_forked_from r of None \<Rightarrow> 0 | Some n \<Rightarrow> n),
     sStatus = sr_status r, sMode = sr_mode r, sHeadSeq = sr_head_seq r,
     sLeaseOwner = (case sr_lease_owner r of None \<Rightarrow> '''' | Some w \<Rightarrow> w),
     sLeaseEpoch = sr_lease_epoch r,
     sLeaseExpiry = (case sr_lease_expires r of None \<Rightarrow> 0 | Some x \<Rightarrow> x),
     sLastEventAt = (case sr_last_event_at r of None \<Rightarrow> 0 | Some x \<Rightarrow> x),
     sCreatedAt = sr_created_at r, sUpdatedAt = sr_updated_at r\<rparr>"

definition loadSessionTx :: "faults \<Rightarrow> string \<Rightarrow> string \<Rightarrow> db \<Rightarrow> store_error + Session" where
  "loadSessionTx flt t sid d =
     andThen (runStmt flt SReread) (\<lambda>_.
     case findSession t sid d of
       None \<Rightarrow> Inl SessionNotActiveError
     | Some r \<Rightarrow> Inr (sessionOfRow r))"

definition LoadSession :: "faults \<Rightarrow> ctx \<Rightarrow> string \<Rightarrow> db \<Rightarrow> store_error + Session" where
  "LoadSession flt cx sid d =
     andThen (beginTenantTx flt cx) (\<lambda>t.
     andThen (loadSessionTx flt t sid d) (\<lambda>s.
     andThen (runStmt flt SCommit) (\<lambda>_. Inr s)))"

definition Fork ::
    "faults \<Rightarrow> int \<Rightarrow> ctx \<Rightarrow> string \<Rightarrow> int \<Rightarrow> string \<Rightarrow> db \<Rightarrow> store_error + (Session \<times> db)" where
  "Fork flt now cx parentID atSeq newID d =
     andThen (TenantFromContext cx) (\<lambda>t.
     andThen (beginTenantTx flt cx) (\<lambda>_.
     andThen (loadSessionTx flt t parentID d) (\<lambda>parent.
     andThen (require (0 \<le> atSeq) ErrForkNegative) (\<lambda>_.
     andThen (require (atSeq \<le> sHeadSeq parent) ConflictError) (\<lambda>_.
     andThen (runStmt flt SQuery) (\<lambda>_.
     let r = \<lparr>sr_id = newID, sr_tenant = t, sr_parent = Some parentID, sr_forked_from = Some atSeq,
              sr_status = StatusActive, sr_head_seq = atSeq, sr_lease_owner = None,
              sr_lease_epoch = 0, sr_lease_expires = None, sr_last_event_at = None,
              sr_created_at = now, sr_updated_at = now, sr_mode = OrDefault (sMode parent),
              sr_chain_head = None\<rparr>
     in
     andThen (insertSession r d) (\<lambda>d'.
     andThen (runStmt flt SCommit) (\<lambda>_.
     Inr (zeroSession\<lparr>sID := sr_id r, sTenantID := sr_tenant r, sParentID := parentID,
            sForkedFromSeq := atSeq, sStatus := sr_status r, sHeadSeq := sr_head_seq r,
            sLeaseEpoch := sr_lease_epoch r, sMode := sr_mode r,
            sCreatedAt := sr_created_at r, sUpdatedAt := sr_updated_at r\<rparr>, commitTx d')))))))))"

section \<open>Reading the log\<close>

definition readEvents ::
    "codec \<Rightarrow> faults \<Rightarrow> ctx \<Rightarrow> (string \<Rightarrow> EventRow list) \<Rightarrow> store_error + EventEnvelope list" where
  "readEvents c flt cx query =
     andThen (TenantFromContext cx) (\<lambda>t.
     andThen (beginTenantTx flt cx) (\<lambda>_.
     andThen (runStmt flt SQuery) (\<lambda>_.
     andThen (scanEnvelopes c t (query t)) (\<lambda>envs.
     andThen (runStmt flt SCommit) (\<lambda>_. Inr envs)))))"

definition Load :: "codec \<Rightarrow> faults \<Rightarrow> ctx \<Rightarrow> string \<Rightarrow> int \<Rightarrow> db \<Rightarrow> store_error + EventEnvelope list" where
  "Load c flt cx sid fromSeq d =
     readEvents c flt cx (\<lambda>t. selectEvents t sid (\<lambda>r. fromSeq \<le> er_seq r) d)"

definition LoadRange ::
    "codec \<Rightarrow> faults \<Rightarrow> ctx \<Rightarrow> string \<Rightarrow> int \<Rightarrow> nat \<Rightarrow> db \<Rightarrow> store_error + EventEnvelope list" where
  "LoadRange c flt cx sid afterSeq limit d =
     readEvents c flt cx (\<lambda>t. take limit (selectEvents t sid (\<lambda>r. afterSeq < er_seq r) d))"

definition LoadUpTo :: "codec \<Rightarrow> faults \<Rightarrow> ctx \<Rightarrow> string \<Rightarrow> int \<Rightarrow> db \<Rightarrow> store_error + EventEnvelope list" where
  "LoadUpTo c flt cx sid atSeq d =
     readEvents c flt cx (\<lambda>t. selectEvents t sid (\<lambda>r. er_seq r \<le> atSeq) d)"

section \<open>Verifying the chain\<close>

text \<open>
  \<^verbatim>\<open>verifySeedPrev\<close>: the scan leaves \<^verbatim>\<open>priorChain\<close> nil when there is no row, when the column is NULL
  and when the statement fails, and the first test of the code covers all three.
\<close>

definition priorChain :: "faults \<Rightarrow> string \<Rightarrow> string \<Rightarrow> int \<Rightarrow> db \<Rightarrow> bytes option" where
  "priorChain flt t sid seq d =
     (if flt SSeed \<noteq> None then None
      else case selectEvents t sid (\<lambda>r. er_seq r = seq) d of
        [] \<Rightarrow> None
      | r # _ \<Rightarrow> er_chain_hash r)"

definition verifySeedPrev :: "hashfun \<Rightarrow> faults \<Rightarrow> string \<Rightarrow> string \<Rightarrow> int \<Rightarrow> db \<Rightarrow> bytes" where
  "verifySeedPrev sha flt t sid firstSeq d =
     (if firstSeq \<le> 1 then GenesisChainHash sha sid
      else case priorChain flt t sid (firstSeq - 1) d of
        None \<Rightarrow> GenesisChainHash sha sid
      | Some h \<Rightarrow> h)"

fun verifyLoop :: "hashfun \<Rightarrow> bytes \<Rightarrow> nat \<Rightarrow> EventEnvelope list \<Rightarrow> ChainVerification" where
  "verifyLoop sha prev checked [] =
     \<lparr>cvValid = True, cvFirstBadSeq = 0, cvReason = '''', cvChecked = checked\<rparr>"
| "verifyLoop sha prev checked (e # es) =
     (case envPayloadCanonical e of
        None \<Rightarrow> \<lparr>cvValid = False, cvFirstBadSeq = envSeq e,
                cvReason = ''content-hash mismatch at seq '' @ FormatInt (envSeq e) @ '' (missing canonical payload)'',
                cvChecked = checked\<rparr>
      | Some payload \<Rightarrow>
          if ContentHash sha payload \<noteq> orNil (envContentHash e)
          then \<lparr>cvValid = False, cvFirstBadSeq = envSeq e,
                cvReason = ''content-hash mismatch at seq '' @ FormatInt (envSeq e) @ '' (payload tampered)'',
                cvChecked = checked\<rparr>
          else let chain = ChainHash sha prev (ContentHash sha payload) in
            if chain \<noteq> orNil (envChainHash e)
            then \<lparr>cvValid = False, cvFirstBadSeq = envSeq e,
                  cvReason = ''broken link: chain-hash mismatch at seq '' @ FormatInt (envSeq e),
                  cvChecked = checked\<rparr>
            else verifyLoop sha chain (checked + 1) es)"

definition vacuouslyValid :: ChainVerification where
  "vacuouslyValid = \<lparr>cvValid = True, cvFirstBadSeq = 0, cvReason = '''', cvChecked = 0\<rparr>"

definition VerifyChainIntegrity ::
    "codec \<Rightarrow> hashfun \<Rightarrow> faults \<Rightarrow> ctx \<Rightarrow> string \<Rightarrow> int \<Rightarrow> int \<Rightarrow> db \<Rightarrow> store_error + ChainVerification" where
  "VerifyChainIntegrity c sha flt cx sid fromSeq toSeq d =
     andThen (TenantFromContext cx) (\<lambda>t.
     andThen (beginTenantTx flt cx) (\<lambda>_.
     andThen (runStmt flt SReread) (\<lambda>_.
     case findSession t sid d of
       None \<Rightarrow> andThen (runStmt flt SCommit) (\<lambda>_. Inr vacuouslyValid)
     | Some r \<Rightarrow>
       let lo = (if fromSeq \<le> 0 then 1 else fromSeq);
           hi = (if toSeq \<le> 0 \<or> sr_head_seq r < toSeq then sr_head_seq r else toSeq)
       in
       if hi < lo then andThen (runStmt flt SCommit) (\<lambda>_. Inr vacuouslyValid)
       else
         andThen (runStmt flt SQuery) (\<lambda>_.
         andThen (scanEnvelopes c t (selectEvents t sid (\<lambda>r. lo \<le> er_seq r \<and> er_seq r \<le> hi) d)) (\<lambda>envs.
         case dropWhile (\<lambda>e. envContentHash e = None) envs of
           [] \<Rightarrow> andThen (runStmt flt SCommit) (\<lambda>_. Inr vacuouslyValid)
         | e # es \<Rightarrow>
             let v = verifyLoop sha (verifySeedPrev sha flt t sid (envSeq e) d) 0 (e # es)
             in andThen (runStmt flt SCommit) (\<lambda>_. Inr v))))))"

end
