(* ===== verification/EventLogPort.thy ===== *)
theory EventLogPort
  imports Domain
begin

text \<open>
  The contract of \<^verbatim>\<open>app.EventLogPort\<close> (\<^verbatim>\<open>internal/orchestrator/app/ports.go\<close>) that the durable store promises
  and the agent loop relies on, as a locale. An append of a batch either replays a request that is
  already in the history of the session, and then changes nothing, or extends the history with the
  batch, numbered from the expected head. The PostgreSQL store interprets the locale on its own
  definitions; what follows from the contract alone for any sequence of appends is proved here once.
\<close>

locale event_log =
  fixes inv :: "'s \<Rightarrow> bool"
    and history :: "string \<Rightarrow> 's \<Rightarrow> 'e list"
    and head :: "string \<Rightarrow> 's \<Rightarrow> int option"
    and append :: "'p \<Rightarrow> string \<Rightarrow> int \<Rightarrow> string \<Rightarrow> AppendInput list \<Rightarrow> 's \<Rightarrow> 's option"
    and seqOf :: "'e \<Rightarrow> int"
    and reqOf :: "'e \<Rightarrow> string"
    and bytesOf :: "'e \<Rightarrow> bytes"
    and encode :: "AppendInput \<Rightarrow> bytes"
  assumes keeps_inv: "inv s \<Longrightarrow> append p sid h req evs s = Some s' \<Longrightarrow> inv s'"
    and replays: "inv s \<Longrightarrow> append p sid h req evs s = Some s' \<Longrightarrow>
      \<exists>e \<in> set (history sid s). reqOf e = req \<Longrightarrow> s' = s"
    and extends: "inv s \<Longrightarrow> append p sid h req evs s = Some s' \<Longrightarrow>
      \<forall>e \<in> set (history sid s). reqOf e \<noteq> req \<Longrightarrow>
      head sid s = Some h \<and> head sid s' = Some (h + int (length evs)) \<and>
      (\<exists>new. history sid s' = history sid s @ new \<and> map bytesOf new = map encode evs \<and>
         map seqOf new = [h + 1 .. h + int (length evs)] \<and> (\<forall>e \<in> set new. reqOf e = req))"
    and frame: "inv s \<Longrightarrow> append p sid h req evs s = Some s' \<Longrightarrow> sid' \<noteq> sid \<Longrightarrow>
      history sid' s' = history sid' s \<and> head sid' s' = head sid' s"
begin

fun runAppends :: "('p \<times> string \<times> int \<times> string \<times> AppendInput list) list \<Rightarrow> 's \<Rightarrow> 's" where
  "runAppends [] s = s"
| "runAppends ((p, sid, h, req, evs) # calls) s =
     runAppends calls (case append p sid h req evs s of None \<Rightarrow> s | Some s' \<Rightarrow> s')"

definition ofRequest :: "string \<Rightarrow> string \<Rightarrow> 's \<Rightarrow> 'e list" where
  "ofRequest sid req s = filter (\<lambda>e. reqOf e = req) (history sid s)"

lemma append_ofRequest:
  assumes "inv s" "append p sid h req evs s = Some s'" "ofRequest sid' req' s \<noteq> []"
  shows "ofRequest sid' req' s' = ofRequest sid' req' s"
proof (cases "sid' = sid \<and> (\<forall>e \<in> set (history sid s). reqOf e \<noteq> req)")
  case True
  then have "req' \<noteq> req" using assms(3) by (auto simp: ofRequest_def filter_empty_conv)
  with True extends [OF assms(1,2)] show ?thesis
    by (auto simp: ofRequest_def filter_empty_conv)
next
  case False
  then show ?thesis
    using frame [OF assms(1,2)] replays [OF assms(1,2)] by (cases "sid' = sid") (auto simp: ofRequest_def)
qed

lemma append_history_prefix:
  assumes "inv s" "append p sid h req evs s = Some s'"
  shows "\<exists>new. history sid' s' = history sid' s @ new"
proof (cases "sid' = sid")
  case True
  then show ?thesis
    using extends [OF assms] replays [OF assms] by blast
qed (use frame [OF assms] in auto)

lemma append_head_mono:
  assumes "inv s" "append p sid h req evs s = Some s'" "head sid' s = Some k"
  shows "\<exists>k' \<ge> k. head sid' s' = Some k'"
proof (cases "sid' = sid \<and> (\<forall>e \<in> set (history sid s). reqOf e \<noteq> req)")
  case True
  then show ?thesis using extends [OF assms(1,2)] assms(3) by auto
next
  case False
  then show ?thesis
    using frame [OF assms(1,2)] replays [OF assms(1,2)] assms(3) by (cases "sid' = sid") auto
qed

lemma run_inv: "inv s \<Longrightarrow> inv (runAppends calls s)"
  by (induction calls s rule: runAppends.induct) (auto dest: keeps_inv split: option.splits)

lemma run_ofRequest:
  "inv s \<Longrightarrow> ofRequest sid req s \<noteq> [] \<Longrightarrow> ofRequest sid req (runAppends calls s) = ofRequest sid req s"
proof (induction calls s rule: runAppends.induct)
  case (2 p sid' h req' evs calls s)
  then show ?case
    using append_ofRequest [of s p sid' h req' evs] keeps_inv [of s p sid' h req' evs]
    by (auto split: option.splits)
qed simp

lemma run_prefix: "inv s \<Longrightarrow> \<exists>new. history sid (runAppends calls s) = history sid s @ new"
proof (induction calls s rule: runAppends.induct)
  case (2 p sid' h req evs calls s)
  show ?case
  proof (cases "append p sid' h req evs s")
    case (Some s')
    have i': "inv s'" using keeps_inv 2 Some by blast
    obtain n1 where "history sid s' = history sid s @ n1"
      using append_history_prefix [OF "2.prems" Some] by blast
    moreover obtain n2 where "history sid (runAppends calls s') = history sid s' @ n2"
      using "2.IH" i' Some by auto
    ultimately show ?thesis using Some by simp
  qed (use 2 in simp)
qed simp

lemma run_head_mono:
  "inv s \<Longrightarrow> head sid s = Some k \<Longrightarrow> \<exists>k' \<ge> k. head sid (runAppends calls s) = Some k'"
proof (induction calls s arbitrary: k rule: runAppends.induct)
  case (2 p sid' h req evs calls s)
  show ?case
  proof (cases "append p sid' h req evs s")
    case (Some s')
    obtain k1 where "k1 \<ge> k" "head sid s' = Some k1"
      using append_head_mono [OF "2.prems"(1) Some "2.prems"(2)] by blast
    moreover have "inv s'" using keeps_inv 2 Some by blast
    ultimately show ?thesis using "2.IH" [of k1] Some by (force intro: order_trans)
  qed (use 2 in auto)
qed simp

text \<open>
  The first append of a request that lands decides its content: whatever is appended afterwards, the
  session holds the events of that request exactly once.
\<close>

lemma exactly_once:
  assumes "inv s" "ofRequest sid req s = []" "append p sid h req evs s = Some s'" "evs \<noteq> []"
  shows "map bytesOf (ofRequest sid req (runAppends calls s')) = map encode evs"
proof -
  have "\<forall>e \<in> set (history sid s). reqOf e \<noteq> req"
    using assms(2) by (simp add: ofRequest_def filter_empty_conv)
  then obtain new where new: "history sid s' = history sid s @ new" "map bytesOf new = map encode evs"
      "\<forall>e \<in> set new. reqOf e = req"
    using extends [OF assms(1,3)] by blast
  then have now: "ofRequest sid req s' = new"
    using assms(2) by (simp add: ofRequest_def)
  moreover have "new \<noteq> []" using new(2) assms(4) by auto
  ultimately show ?thesis
    using run_ofRequest [of s' sid req calls] keeps_inv [OF assms(1,3)] new(2) by simp
qed

text \<open>A writer whose view of the head is stale appends nothing new, however long ago it read the head.\<close>

lemma stale_head_loses:
  assumes "inv s" "append p sid h req evs s = Some s'" "ofRequest sid req s = []" "evs \<noteq> []"
    and "h' < h + int (length evs)" "ofRequest sid req' (runAppends calls s') = []"
  shows "append p' sid h' req' evs' (runAppends calls s') = None"
proof (rule ccontr)
  let ?t = "runAppends calls s'"
  assume "append p' sid h' req' evs' ?t \<noteq> None"
  then obtain u where u: "append p' sid h' req' evs' ?t = Some u" by auto
  have i: "inv s'" using keeps_inv assms(1,2) by blast
  have "head sid s' = Some (h + int (length evs))"
    using extends [OF assms(1,2)] assms(3) by (simp add: ofRequest_def filter_empty_conv)
  then obtain k where "k \<ge> h + int (length evs)" "head sid ?t = Some k"
    using run_head_mono [OF i] by blast
  moreover have "head sid ?t = Some h'"
    using extends [OF run_inv [OF i] u] assms(6) by (simp add: ofRequest_def filter_empty_conv)
  ultimately show False using assms(5) by simp
qed

end

end
