(* ===== verification/EventLogInv.thy ===== *)
theory EventLogInv
  imports EventStore EventLogPort
begin

text \<open>
  The invariant of the event store and that every operation keeps it: sessions are unique, the events of
  a session are numbered without a gap from the fork point to the head, carry the tenant of the session,
  are linked into one hash chain whose last link is the stored chain head, and reference stored blobs
  only. The batch that an append inserts is described by the closed form \<open>batchRows\<close>, on which the
  properties of the append rest.
\<close>

section \<open>Definitions\<close>

definition payloadOf :: "codec \<Rightarrow> AppendInput \<Rightarrow> bytes" where
  "payloadOf c inp = orNil (cMarshal c (aiEvent inp))"

definition newEventRow ::
    "codec \<Rightarrow> hashfun \<Rightarrow> int \<Rightarrow> string \<Rightarrow> string \<Rightarrow> string \<Rightarrow> int \<Rightarrow> int \<Rightarrow> int \<Rightarrow> bytes \<Rightarrow> AppendInput \<Rightarrow> EventRow" where
  "newEventRow c sha now t sid req seq g x prev inp =
     \<lparr>er_global_id = g, er_xid = x, er_tenant = t, er_session = sid, er_seq = seq, er_request = req,
      er_type = eventType (aiEvent inp),
      er_schema_version = (if aiSchemaVersion inp = 0 then defaultSchemaVersion else aiSchemaVersion inp),
      er_payload = payloadOf c inp, er_canonical = Some (payloadOf c inp),
      er_blob_ref = (if eventBlobRef (aiEvent inp) = '''' then None else Some (eventBlobRef (aiEvent inp))),
      er_actor = (if aiActor inp = ActorUnset then ActorSystem else aiActor inp), er_created_at = now,
      er_content_hash = Some (ContentHash sha (payloadOf c inp)),
      er_chain_hash = Some (ChainHash sha prev (ContentHash sha (payloadOf c inp)))\<rparr>"

fun batchRows ::
    "codec \<Rightarrow> hashfun \<Rightarrow> int \<Rightarrow> string \<Rightarrow> string \<Rightarrow> string \<Rightarrow> int \<Rightarrow> int \<Rightarrow> int \<Rightarrow> bytes \<Rightarrow> AppendInput list \<Rightarrow> EventRow list" where
  "batchRows c sha now t sid req seq g x prev [] = []"
| "batchRows c sha now t sid req seq g x prev (inp # inps) =
     newEventRow c sha now t sid req seq g x prev inp #
     batchRows c sha now t sid req (seq + 1) (g + 1) x
       (ChainHash sha prev (ContentHash sha (payloadOf c inp))) inps"

definition rowEnvelope :: "string \<Rightarrow> EventRow \<Rightarrow> event \<Rightarrow> EventEnvelope" where
  "rowEnvelope t r e =
     \<lparr>envType = er_type r, envSeq = er_seq r, envSessionID = er_session r, envTenantID = t,
      envRequestID = er_request r, envSchemaVersion = er_schema_version r, envActor = er_actor r,
      envCreatedAt = er_created_at r, envEvent = e, envPayloadCanonical = er_canonical r,
      envContentHash = er_content_hash r, envChainHash = er_chain_hash r\<rparr>"

definition ownEvents :: "string \<Rightarrow> db \<Rightarrow> EventRow list" where
  "ownEvents sid d = filter (\<lambda>r. er_session r = sid) (db_events d)"

definition forkBase :: "SessionRow \<Rightarrow> int" where
  "forkBase r = (case sr_forked_from r of None \<Rightarrow> 0 | Some n \<Rightarrow> n)"

fun chained :: "hashfun \<Rightarrow> bytes \<Rightarrow> EventRow list \<Rightarrow> bool" where
  "chained sha prev [] \<longleftrightarrow> True"
| "chained sha prev (r # rs) \<longleftrightarrow>
     (case er_canonical r of None \<Rightarrow> False
      | Some p \<Rightarrow> er_content_hash r = Some (ContentHash sha p) \<and>
          er_chain_hash r = Some (ChainHash sha prev (ContentHash sha p)) \<and>
          chained sha (ChainHash sha prev (ContentHash sha p)) rs)"

definition sessionOk :: "hashfun \<Rightarrow> db \<Rightarrow> SessionRow \<Rightarrow> bool" where
  "sessionOk sha d r \<longleftrightarrow>
     0 \<le> forkBase r \<and> forkBase r \<le> sr_head_seq r \<and>
     map er_seq (ownEvents (sr_id r) d) = [forkBase r + 1 .. sr_head_seq r] \<and>
     (\<forall>e \<in> set (ownEvents (sr_id r) d). er_tenant e = sr_tenant r) \<and>
     chained sha (GenesisChainHash sha (sr_id r)) (ownEvents (sr_id r) d) \<and>
     sr_chain_head r = (if ownEvents (sr_id r) d = [] then None
                        else er_chain_hash (last (ownEvents (sr_id r) d)))"

definition blobOk :: "db \<Rightarrow> EventRow \<Rightarrow> bool" where
  "blobOk d e \<longleftrightarrow> (case er_blob_ref e of None \<Rightarrow> True
     | Some ref \<Rightarrow> \<exists>b \<in> set (db_blobs d). br_tenant b = er_tenant e \<and> br_ref b = ref)"

definition storeInv :: "hashfun \<Rightarrow> db \<Rightarrow> bool" where
  "storeInv sha d \<longleftrightarrow>
     distinct (map sr_id (db_sessions d)) \<and>
     (\<forall>r \<in> set (db_sessions d). sessionOk sha d r) \<and>
     (\<forall>e \<in> set (db_events d). er_session e \<in> sr_id ` set (db_sessions d)) \<and>
     (\<forall>e \<in> set (db_events d). blobOk d e) \<and>
     sorted_wrt (<) (map er_global_id (db_events d)) \<and>
     (\<forall>e \<in> set (db_events d). er_global_id e < db_next_global d)"

text \<open>
  A step of the store: any operation, for the tenant of any context, with any arguments; an operation
  that fails changes nothing and is no step.
\<close>

inductive storeStep :: "codec \<Rightarrow> hashfun \<Rightarrow> ctx \<Rightarrow> db \<Rightarrow> db \<Rightarrow> bool" for c sha cx where
  stAppend: "appendTx c sha flt now cx sid expected epoch req blob events d = Inr (envs, d') \<Longrightarrow>
     storeStep c sha cx d d'"
| stTenant: "CreateTenant flt cx tid name d = Inr (u, d') \<Longrightarrow> storeStep c sha cx d d'"
| stSession: "CreateSession flt now cx sid mode d = Inr (s, d') \<Longrightarrow> storeStep c sha cx d d'"
| stStatus: "SetSessionStatus flt now cx sid epoch status d = Inr (u, d') \<Longrightarrow> storeStep c sha cx d d'"
| stFork: "Fork flt now cx parent atSeq newID d = Inr (s, d') \<Longrightarrow> storeStep c sha cx d d'"

inductive storeSteps :: "codec \<Rightarrow> hashfun \<Rightarrow> db \<Rightarrow> db \<Rightarrow> bool" for c sha where
  stepsNone: "storeSteps c sha d d"
| stepsMore: "storeSteps c sha d d1 \<Longrightarrow> storeStep c sha cx d1 d2 \<Longrightarrow> storeSteps c sha d d2"

inductive_cases storeStepE: "storeStep c sha cx d d'"

section \<open>The shape of an append\<close>

lemma runStmt_Inr [simp]: "runStmt flt s = Inr u \<longleftrightarrow> flt s = None"
  by (simp add: runStmt_def)

lemma runStmt_Inl [simp]: "runStmt flt s = Inl e \<longleftrightarrow> flt s \<noteq> None \<and> e = ErrDriver s"
  by (auto simp: runStmt_def)

lemma runStmt_noFaults [simp]: "runStmt noFaults s = Inr ()"
  by (simp add: noFaults_def)

lemma insertEvent_Inr:
  assumes "insertEvent c sha flt now t sid seq req inp blob prev i d = Inr (env, d')"
  shows "env = rowEnvelope t (newEventRow c sha now t sid req seq (db_next_global d) (db_next_xid d) prev inp) (aiEvent inp)"
    and "d' = d\<lparr>db_events := db_events d @
             [newEventRow c sha now t sid req seq (db_next_global d) (db_next_xid d) prev inp],
             db_next_global := db_next_global d + 1\<rparr>"
    and "cMarshal c (aiEvent inp) = Some (payloadOf c inp)" and "1 \<le> seq"
    and "eventBlobRef (aiEvent inp) = '''' \<or>
         (\<exists>b \<in> set (db_blobs d). br_tenant b = t \<and> br_ref b = eventBlobRef (aiEvent inp))"
    and "\<forall>r \<in> set (db_events d). \<not> (er_session r = sid \<and> er_seq r = seq)"
  using assms
  by (auto simp: insertEvent_def MarshalEventPayload_def andThen_Inr_iff Let_def newEventRow_def
      rowEnvelope_def payloadOf_def split: option.splits)

lemma envChainHash_newEventRow [simp]:
  "orNil (envChainHash (rowEnvelope t (newEventRow c sha now t' sid req seq g x prev inp) e)) =
   ChainHash sha prev (ContentHash sha (payloadOf c inp))"
  by (simp add: rowEnvelope_def newEventRow_def)

lemma insertEvents_Inr:
  assumes "insertEvents c sha flt now t sid req blob expected i prev inps d = Inr (envs, prev', d')"
  shows "envs = map2 (rowEnvelope t) (batchRows c sha now t sid req (expected + 1 + int i)
           (db_next_global d) (db_next_xid d) prev inps) (map aiEvent inps) \<and>
         d' = d\<lparr>db_events := db_events d @ batchRows c sha now t sid req (expected + 1 + int i)
                  (db_next_global d) (db_next_xid d) prev inps,
                db_next_global := db_next_global d + int (length inps)\<rparr> \<and>
         prev' = chainFold sha prev (map (payloadOf c) inps) \<and>
         (\<forall>inp \<in> set inps. cMarshal c (aiEvent inp) = Some (payloadOf c inp)) \<and>
         (\<forall>inp \<in> set inps. eventBlobRef (aiEvent inp) = '''' \<or>
            (\<exists>b \<in> set (db_blobs d). br_tenant b = t \<and> br_ref b = eventBlobRef (aiEvent inp)))"
  using assms
proof (induction inps arbitrary: i prev d envs prev' d')
  case (Cons inp inps)
  then obtain env d1 envs1 where
      one: "insertEvent c sha flt now t sid (expected + 1 + int i) req inp blob prev i d = Inr (env, d1)"
      and rest: "insertEvents c sha flt now t sid req blob expected (Suc i)
         (orNil (envChainHash env)) inps d1 = Inr (envs1, prev', d')"
      and envs: "envs = env # envs1"
    by (auto simp: andThen_Inr_iff)
  note f = insertEvent_Inr [OF one]
  show ?case
    using Cons.IH [OF rest] f(3,5) by (simp add: f(1,2) envs algebra_simps)
qed simp

definition chainStart :: "hashfun \<Rightarrow> SessionRow \<Rightarrow> bytes" where
  "chainStart sha r = (case sr_chain_head r of None \<Rightarrow> GenesisChainHash sha (sr_id r) | Some h \<Rightarrow> h)"

definition advancedRow :: "int \<Rightarrow> int \<Rightarrow> bytes \<Rightarrow> SessionRow \<Rightarrow> SessionRow" where
  "advancedRow now n h s = s\<lparr>sr_head_seq := sr_head_seq s + n, sr_updated_at := now,
     sr_last_event_at := Some now, sr_chain_head := Some h\<rparr>"

lemma unique_session:
  assumes "distinct (map sr_id (db_sessions d))"
    and "r \<in> set (db_sessions d)" "s \<in> set (db_sessions d)" "sr_id r = sr_id s"
  shows "r = s"
  using assms by (auto simp: distinct_map dest: inj_onD)

lemma find_SomeD: "find P xs = Some x \<Longrightarrow> x \<in> set xs \<and> P x"
  by (auto simp: find_Some_iff)

lemma findSession_Some:
  "findSession t sid d = Some r \<Longrightarrow> r \<in> set (db_sessions d) \<and> sr_tenant r = t \<and> sr_id r = sid"
  by (auto simp: findSession_def visibleSessions_def dest!: find_SomeD)

lemma findSession_None:
  "findSession t sid d = None \<longleftrightarrow> (\<forall>r \<in> set (db_sessions d). \<not> (sr_tenant r = t \<and> sr_id r = sid))"
  by (auto simp: findSession_def visibleSessions_def find_None_iff)

lemma findSession_eq:
  assumes "distinct (map sr_id (db_sessions d))" "r \<in> set (db_sessions d)"
    and "sr_tenant r = t" "sr_id r = sid"
  shows "findSession t sid d = Some r"
proof (cases "findSession t sid d")
  case None
  with assms show ?thesis by (auto simp: findSession_None)
next
  case (Some s)
  with assms show ?thesis
    using findSession_Some [OF Some] unique_session [of d r s] by auto
qed

lemma findSession_cong: "db_sessions d' = db_sessions d \<Longrightarrow> findSession t sid d' = findSession t sid d"
  by (simp add: findSession_def visibleSessions_def)

lemma insertBlobRow_Inr:
  assumes "insertBlobRow flt t b d = Inr d'"
  obtains bs where "d' = d\<lparr>db_blobs := db_blobs d @ bs\<rparr>"
proof (rule that)
  show "d' = d\<lparr>db_blobs := db_blobs d @ drop (length (db_blobs d)) (db_blobs d')\<rparr>"
    using assms by (auto simp: insertBlobRow_def andThen_Inr_iff split: if_splits)
qed

lemma appendGated_Inr:
  assumes ok: "appendGated c sha flt now t sid expected epoch req blob events d = Inr (envs, d')"
    and dist: "distinct (map sr_id (db_sessions d))"
  obtains r rows bs where "r \<in> set (db_sessions d)" and "sr_tenant r = t"
    and "gateMatches sid expected epoch r"
    and "rows = batchRows c sha now t sid req (expected + 1) (db_next_global d) (db_next_xid d)
                  (chainStart sha r) events"
    and "envs = map2 (rowEnvelope t) rows (map aiEvent events)"
    and "d' = d\<lparr>db_sessions := map (\<lambda>s. if sr_id s = sid then advancedRow now (int (length events))
                    (chainFold sha (chainStart sha r) (map (payloadOf c) events)) s else s) (db_sessions d),
                db_events := db_events d @ rows, db_blobs := db_blobs d @ bs,
                db_next_global := db_next_global d + int (length events),
                db_next_xid := db_next_xid d + 1, db_notified := db_notified d @ [sid]\<rparr>"
    and "\<forall>inp \<in> set events. cMarshal c (aiEvent inp) = Some (payloadOf c inp)"
    and "\<forall>inp \<in> set events. eventBlobRef (aiEvent inp) = '''' \<or>
            (\<exists>b \<in> set (db_blobs d @ bs). br_tenant b = t \<and> br_ref b = eventBlobRef (aiEvent inp))"
proof -
  let ?n = "int (length events)"
  obtain r where r: "r \<in> set (db_sessions d)" "sr_tenant r = t" "gateMatches sid expected epoch r"
    using ok by (auto simp: appendGated_def gateUpdate_def andThen_Inr_iff visibleSessions_def split: if_splits)
  then have rid: "sr_id r = sid" by (simp add: gateMatches_def)
  have only: "sr_tenant s = t \<and> gateMatches sid expected epoch s" if "s \<in> set (db_sessions d)" "sr_id s = sid" for s
    using unique_session [OF dist that(1) r(1)] that rid r by auto
  define d1 where "d1 = updateSessions t (gateMatches sid expected epoch)
      (\<lambda>r. r\<lparr>sr_head_seq := sr_head_seq r + ?n, sr_updated_at := now, sr_last_event_at := Some now\<rparr>) d"
  have d1s: "db_sessions d1 = map (\<lambda>s. if sr_id s = sid then s\<lparr>sr_head_seq := sr_head_seq s + ?n,
      sr_updated_at := now, sr_last_event_at := Some now\<rparr> else s) (db_sessions d)"
    using only by (auto simp: d1_def updateSessions_def gateMatches_def)
  obtain d2 prev prev' d3 where
      d2: "(case blob of None \<Rightarrow> Inr d1 | Some b \<Rightarrow> insertBlobRow flt t b d1) = Inr d2"
      and prev: "loadChainHead sha flt t sid d2 = Inr prev"
      and ins: "insertEvents c sha flt now t sid req blob expected 0 prev events d2 = Inr (envs, prev', d3)"
      and fin: "d' = commitTx ((updateSessions t (\<lambda>r. sr_id r = sid) (\<lambda>r. r\<lparr>sr_chain_head := Some prev'\<rparr>) d3)
          \<lparr>db_notified := db_notified d3 @ [sid]\<rparr>)"
    using ok r by (auto simp: appendGated_def gateUpdate_def andThen_Inr_iff visibleSessions_def
        advanceChainHead_def updateSessions_def d1_def split: if_splits option.splits)
  obtain bs where d2': "d2 = d1\<lparr>db_blobs := db_blobs d1 @ bs\<rparr>"
  proof (cases blob)
    case None
    with d2 show ?thesis by (intro that [of "[]"]) simp
  next
    case (Some b)
    with d2 show ?thesis by (auto elim: insertBlobRow_Inr intro: that)
  qed
  have "r\<lparr>sr_head_seq := sr_head_seq r + ?n, sr_updated_at := now, sr_last_event_at := Some now\<rparr>
      \<in> set (db_sessions d2)" (is "?r \<in> _")
    using r rid by (auto simp: d2' d1s image_iff intro!: bexI [of _ r])
  moreover have "distinct (map sr_id (db_sessions d2))"
    using dist by (simp add: d2' d1s comp_def if_distrib cong: if_cong)
  ultimately have "findSession t sid d2 = Some ?r"
    using r rid by (intro findSession_eq) auto
  then have pv: "prev = chainStart sha r"
    using prev by (simp add: loadChainHead_def andThen_Inr_iff chainStart_def rid split: option.splits)
  note f = insertEvents_Inr [OF ins, unfolded pv]
  have sess: "map (\<lambda>s. if sr_tenant s = t \<and> sr_id s = sid then s\<lparr>sr_chain_head := Some h\<rparr> else s) (db_sessions d1)
      = map (\<lambda>s. if sr_id s = sid then advancedRow now ?n h s else s) (db_sessions d)" for h
    using only by (auto simp: d1s advancedRow_def)
  have d1e: "db_events d1 = db_events d" "db_blobs d1 = db_blobs d" "db_tenants d1 = db_tenants d"
      "db_next_global d1 = db_next_global d" "db_next_xid d1 = db_next_xid d" "db_notified d1 = db_notified d"
    by (simp_all add: d1_def updateSessions_def)
  show ?thesis
  proof (rule that [OF r refl])
    show "envs = map2 (rowEnvelope t) (batchRows c sha now t sid req (expected + 1) (db_next_global d)
        (db_next_xid d) (chainStart sha r) events) (map aiEvent events)"
      using f by (simp add: d2' d1e)
    show "d' = d\<lparr>db_sessions := map (\<lambda>s. if sr_id s = sid then advancedRow now ?n
                    (chainFold sha (chainStart sha r) (map (payloadOf c) events)) s else s) (db_sessions d),
                db_events := db_events d @ batchRows c sha now t sid req (expected + 1) (db_next_global d)
                   (db_next_xid d) (chainStart sha r) events, db_blobs := db_blobs d @ bs,
                db_next_global := db_next_global d + ?n,
                db_next_xid := db_next_xid d + 1, db_notified := db_notified d @ [sid]\<rparr>"
      using f by (intro db.equality) (simp_all add: fin updateSessions_def commitTx_def d2' d1e sess)
  qed (use f in \<open>auto simp: d2' d1e\<close>)
qed

section \<open>The inserted batch\<close>

lemma batchRows_fields:
  "map er_seq (batchRows c sha now t sid req seq g x prev inps) = [seq .. seq + int (length inps) - 1]"
  "map er_global_id (batchRows c sha now t sid req seq g x prev inps) = [g .. g + int (length inps) - 1]"
  "length (batchRows c sha now t sid req seq g x prev inps) = length inps"
  by (induction inps arbitrary: seq g prev) (auto simp: newEventRow_def upto_rec1)

lemma batchRows_all:
  "e \<in> set (batchRows c sha now t sid req seq g x prev inps) \<Longrightarrow>
     er_session e = sid \<and> er_tenant e = t \<and> er_request e = req \<and> er_xid e = x"
  by (induction inps arbitrary: seq g prev) (auto simp: newEventRow_def)

lemma batchRows_blob:
  "e \<in> set (batchRows c sha now t sid req seq g x prev inps) \<Longrightarrow> er_blob_ref e = Some ref \<Longrightarrow>
     ref \<noteq> '''' \<and> (\<exists>inp \<in> set inps. eventBlobRef (aiEvent inp) = ref)"
  by (induction inps arbitrary: seq g prev) (auto simp: newEventRow_def split: if_splits)

lemma batchRows_filter [simp]:
  "filter (\<lambda>r. er_session r = sid') (batchRows c sha now t sid req seq g x prev inps) =
     (if sid' = sid then batchRows c sha now t sid req seq g x prev inps else [])"
  by (auto simp: filter_empty_conv filter_id_conv dest: batchRows_all)

lemma batchRows_chained: "chained sha prev (batchRows c sha now t sid req seq g x prev inps)"
  by (induction inps arbitrary: seq g prev) (auto simp: newEventRow_def)

lemma batchRows_Nil [simp]: "batchRows c sha now t sid req seq g x prev inps = [] \<longleftrightarrow> inps = []"
  using batchRows_fields(3) by (metis length_0_conv)

lemma batchRows_last:
  "inps \<noteq> [] \<Longrightarrow> er_chain_hash (last (batchRows c sha now t sid req seq g x prev inps)) =
     Some (chainFold sha prev (map (payloadOf c) inps))"
proof (induction inps arbitrary: seq g prev)
  case (Cons inp inps)
  then show ?case by (cases "inps = []") (auto simp: newEventRow_def)
qed simp

lemma chained_append:
  "chained sha prev (rs @ ss) \<longleftrightarrow> chained sha prev rs \<and>
     chained sha (if rs = [] then prev else orNil (er_chain_hash (last rs))) ss"
  by (induction rs arbitrary: prev) (auto split: option.splits)

lemma chained_last_Some: "chained sha prev rs \<Longrightarrow> rs \<noteq> [] \<Longrightarrow> \<exists>h. er_chain_hash (last rs) = Some h"
  by (induction rs arbitrary: prev) (auto split: option.splits)

section \<open>Every operation keeps the invariant\<close>

lemma sessionOk_cong: "db_events d' = db_events d \<Longrightarrow> sessionOk sha d' = sessionOk sha d"
  by (intro ext) (simp add: sessionOk_def ownEvents_def)

lemma blobOk_cong: "db_blobs d' = db_blobs d \<Longrightarrow> blobOk d' = blobOk d"
  by (intro ext) (simp add: blobOk_def split: option.splits)

lemma storeInv_cong:
  assumes "db_sessions d' = db_sessions d" "db_events d' = db_events d" "db_blobs d' = db_blobs d"
    and "db_next_global d' = db_next_global d"
  shows "storeInv sha d' = storeInv sha d"
  unfolding storeInv_def assms sessionOk_cong [OF assms(2)] blobOk_cong [OF assms(3)] ..

lemma chainStart_own:
  assumes "sessionOk sha d r"
  shows "chainStart sha r = (if ownEvents (sr_id r) d = [] then GenesisChainHash sha (sr_id r)
           else orNil (er_chain_hash (last (ownEvents (sr_id r) d))))"
proof -
  have "\<exists>h. er_chain_hash (last (ownEvents (sr_id r) d)) = Some h" if "ownEvents (sr_id r) d \<noteq> []"
    using chained_last_Some that assms by (auto simp: sessionOk_def)
  with assms show ?thesis by (auto simp: chainStart_def sessionOk_def)
qed

lemma sessionOk_append:
  assumes ok: "sessionOk sha d r" and "events \<noteq> []"
    and rows: "rows = batchRows c sha now (sr_tenant r) (sr_id r) req (sr_head_seq r + 1) g x (chainStart sha r) events"
    and ev: "db_events d' = db_events d @ rows"
  shows "sessionOk sha d' (advancedRow now (int (length events))
           (chainFold sha (chainStart sha r) (map (payloadOf c) events)) r)"
proof -
  have own: "ownEvents (sr_id r) d' = ownEvents (sr_id r) d @ rows"
    by (simp add: ownEvents_def ev rows)
  have len: "[forkBase r + 1 .. sr_head_seq r] @ [sr_head_seq r + 1 .. sr_head_seq r + int (length events)]
      = [forkBase r + 1 .. sr_head_seq r + int (length events)]"
    using ok by (intro upto_append_consecutive) (auto simp: sessionOk_def)
  have "chained sha (GenesisChainHash sha (sr_id r)) (ownEvents (sr_id r) d @ rows)"
    using ok batchRows_chained chainStart_own [OF ok] by (auto simp: chained_append sessionOk_def rows)
  moreover have "\<forall>e \<in> set rows. er_tenant e = sr_tenant r"
    using batchRows_all by (auto simp: rows)
  moreover have "map er_seq (ownEvents (sr_id r) d @ rows) =
      [forkBase r + 1 .. sr_head_seq r + int (length events)]"
    using ok len by (simp add: rows batchRows_fields sessionOk_def)
  ultimately show ?thesis
    using ok \<open>events \<noteq> []\<close> batchRows_last [OF \<open>events \<noteq> []\<close>]
    by (auto simp: sessionOk_def advancedRow_def forkBase_def own rows)
qed

lemma sessionOk_other:
  assumes "sessionOk sha d s" "db_events d' = db_events d @ rows" "\<forall>e \<in> set rows. er_session e \<noteq> sr_id s"
  shows "sessionOk sha d' s"
proof -
  have "ownEvents (sr_id s) d' = ownEvents (sr_id s) d"
    using assms(2,3) by (auto simp: ownEvents_def filter_empty_conv)
  then show ?thesis using assms(1) by (simp add: sessionOk_def)
qed

lemma sorted_global_append:
  assumes "sorted_wrt (<) (map er_global_id es)" "\<forall>e \<in> set es. er_global_id e < g"
    and "map er_global_id rows = [g .. h]"
  shows "sorted_wrt (<) (map er_global_id (es @ rows))"
proof -
  have "er_global_id e \<ge> g" if "e \<in> set rows" for e
  proof -
    have "er_global_id e \<in> set (map er_global_id rows)" using that by simp
    then show ?thesis by (simp only: assms(3)) simp
  qed
  with assms show ?thesis by (fastforce simp: sorted_wrt_append)
qed

lemma appendGated_inv:
  assumes inv: "storeInv sha d" and "events \<noteq> []"
    and ok: "appendGated c sha flt now t sid expected epoch req blob events d = Inr (envs, d')"
  shows "storeInv sha d'"
proof -
  have dist: "distinct (map sr_id (db_sessions d))" using inv by (simp add: storeInv_def)
  show ?thesis using ok dist
  proof (rule appendGated_Inr)
    fix r rows bs
    assume r: "r \<in> set (db_sessions d)" "sr_tenant r = t" "gateMatches sid expected epoch r"
      and rows: "rows = batchRows c sha now t sid req (expected + 1) (db_next_global d) (db_next_xid d)
                  (chainStart sha r) events"
      and d': "d' = d\<lparr>db_sessions := map (\<lambda>s. if sr_id s = sid then advancedRow now (int (length events))
                    (chainFold sha (chainStart sha r) (map (payloadOf c) events)) s else s) (db_sessions d),
                db_events := db_events d @ rows, db_blobs := db_blobs d @ bs,
                db_next_global := db_next_global d + int (length events),
                db_next_xid := db_next_xid d + 1, db_notified := db_notified d @ [sid]\<rparr>"
      and blobs: "\<forall>inp \<in> set events. eventBlobRef (aiEvent inp) = '''' \<or>
            (\<exists>b \<in> set (db_blobs d @ bs). br_tenant b = t \<and> br_ref b = eventBlobRef (aiEvent inp))"
    have id: "sr_id r = sid" "sr_head_seq r = expected" using r by (auto simp: gateMatches_def)
    have rowsAll: "er_session e = sid" "er_tenant e = t" if "e \<in> set rows" for e
      using batchRows_all [OF that [unfolded rows]] by simp_all
    have sess: "sessionOk sha d' s" if mem: "s \<in> set (db_sessions d')" for s
    proof -
      obtain s0 where s0: "s0 \<in> set (db_sessions d)" and s: "s = (if sr_id s0 = sid then advancedRow now
          (int (length events)) (chainFold sha (chainStart sha r) (map (payloadOf c) events)) s0 else s0)"
        using mem by (auto simp: d')
      have ok0: "sessionOk sha d s0" using inv s0 by (simp add: storeInv_def)
      have ev: "db_events d' = db_events d @ rows" by (simp add: d')
      show ?thesis
      proof (cases "sr_id s0 = sid")
        case True
        then have "s0 = r" using unique_session [OF dist s0 r(1)] id by simp
        then show ?thesis
          using sessionOk_append [OF ok0 \<open>events \<noteq> []\<close> _ ev] True s r(2) id rows by simp
      next
        case False
        then show ?thesis using sessionOk_other [OF ok0 ev] rowsAll s by auto
      qed
    qed
    have "blobOk d' e" if "e \<in> set (db_events d')" for e
      using that inv blobs batchRows_blob [of e c sha now t sid req] rowsAll
      by (fastforce simp: d' storeInv_def blobOk_def rows split: option.splits)
    moreover have "sorted_wrt (<) (map er_global_id (db_events d'))"
      using inv sorted_global_append [of "db_events d" "db_next_global d" rows] batchRows_fields(2)
      by (simp add: d' rows storeInv_def)
    moreover have "er_global_id e < db_next_global d'" if "e \<in> set (db_events d')" for e
    proof -
      have "er_global_id e < db_next_global d + int (length events)" if "e \<in> set rows"
      proof -
        have "er_global_id e \<in> set (map er_global_id rows)" using that by simp
        then show ?thesis by (simp only: rows batchRows_fields) simp
      qed
      then show ?thesis using that inv by (fastforce simp: d' storeInv_def)
    qed
    moreover have "map sr_id (db_sessions d') = map sr_id (db_sessions d)"
      by (simp add: d' advancedRow_def)
    moreover from calculation(4) have ids: "sr_id ` set (db_sessions d') = sr_id ` set (db_sessions d)"
      by (metis list.set_map)
    moreover have "er_session e \<in> sr_id ` set (db_sessions d)" if "e \<in> set (db_events d')" for e
      using that inv rowsAll r(1) id by (auto simp: d' storeInv_def)
    ultimately show ?thesis
      using dist sess by (simp add: storeInv_def)
  qed
qed

lemma appendTx_cases:
  assumes "appendTx c sha flt now cx sid expected epoch req blob events d = Inr (envs, d')"
  obtains (replay) t where "cx = Some t" "d' = d" "envs \<noteq> []"
      "scanEnvelopes c t (selectEvents t sid (\<lambda>r. er_request r = req) d) = Inr envs"
  | (gated) t where "cx = Some t" "events \<noteq> []"
      "scanEnvelopes c t (selectEvents t sid (\<lambda>r. er_request r = req) d) = Inr []"
      "appendGated c sha flt now t sid expected epoch req blob events d = Inr (envs, d')"
  using assms
  by (auto simp: appendTx_def andThen_Inr_iff TenantFromContext_def beginTenantTx_def loadByRequestID_def
      split: if_splits option.splits)

lemma storeInv_commitTx [simp]: "storeInv sha (commitTx d) = storeInv sha d"
  by (rule storeInv_cong) (simp_all add: commitTx_def)

lemma storeInv_insertSession:
  assumes inv: "storeInv sha d" and ok: "insertSession r d = Inr d'"
    and new: "0 \<le> forkBase r" "sr_head_seq r = forkBase r" "sr_chain_head r = None"
  shows "storeInv sha d'"
proof -
  have d': "d' = d\<lparr>db_sessions := db_sessions d @ [r]\<rparr>" and fresh: "sr_id r \<notin> sr_id ` set (db_sessions d)"
    using ok by (auto simp: insertSession_def andThen_Inr_iff)
  have "er_session e \<noteq> sr_id r" if "e \<in> set (db_events d)" for e
    using inv fresh that by (metis storeInv_def)
  then have "ownEvents (sr_id r) d = []"
    by (simp add: ownEvents_def filter_empty_conv)
  then have new: "sessionOk sha d r" using new by (simp add: sessionOk_def)
  have "db_events d' = db_events d" "db_blobs d' = db_blobs d" by (simp_all add: d')
  note c = sessionOk_cong [OF this(1)] blobOk_cong [OF this(2)]
  show ?thesis
    unfolding storeInv_def c using inv fresh new by (simp add: storeInv_def d')
qed

lemma storeInv_updateSessions:
  assumes inv: "storeInv sha d"
    and keep: "\<And>r. sr_id (f r) = sr_id r \<and> sr_tenant (f r) = sr_tenant r \<and> sr_forked_from (f r) = sr_forked_from r
      \<and> sr_head_seq (f r) = sr_head_seq r \<and> sr_chain_head (f r) = sr_chain_head r"
  shows "storeInv sha (updateSessions t p f d)"
proof -
  define g where "g = (\<lambda>r. if sr_tenant r = t \<and> p r then f r else r)"
  have id: "sr_id (g r) = sr_id r" and ok: "sessionOk sha d (g r) = sessionOk sha d r" for r
    using keep by (auto simp: sessionOk_def forkBase_def g_def)
  have d': "updateSessions t p f d = d\<lparr>db_sessions := map g (db_sessions d)\<rparr>"
    by (simp add: updateSessions_def g_def)
  have "sr_id \<circ> g = sr_id"
    using id by auto
  moreover have "sr_id ` g ` set (db_sessions d) = sr_id ` set (db_sessions d)"
    using id by (auto simp: image_image)
  ultimately show ?thesis
    using inv ok sessionOk_cong [of "updateSessions t p f d" d sha] blobOk_cong [of "updateSessions t p f d" d]
    by (simp add: storeInv_def d')
qed

lemma CreateSession_Inr:
  assumes "CreateSession flt now cx sid mode d = Inr (s, d')"
  obtains t r d1 where "cx = Some t" "insertSession r d = Inr d1" "d' = commitTx d1" "sr_id r = sid" "sr_tenant r = t"
    "sr_forked_from r = None" "sr_head_seq r = 0" "sr_chain_head r = None" "sr_lease_epoch r = 0"
    "sr_status r = StatusActive" "sr_mode r = OrDefault mode"
  using assms
  by (auto simp: CreateSession_def andThen_Inr_iff Let_def TenantFromContext_def split: if_splits option.splits)

lemma SetSessionStatus_Inr:
  assumes "SetSessionStatus flt now cx sid epoch status d = Inr (u, d')"
  obtains t where "cx = Some t" "status \<noteq> StatusActive"
    "d' = commitTx (updateSessions t (\<lambda>r. sr_id r = sid \<and> sr_lease_epoch r = epoch)
            (\<lambda>r. r\<lparr>sr_status := status, sr_updated_at := now\<rparr>) d)"
  using assms
  by (auto simp: SetSessionStatus_def beginTenantTx_def TenantFromContext_def andThen_Inr_iff Let_def
      split: if_splits option.splits)

lemma Fork_Inr:
  assumes "Fork flt now cx parent atSeq newID d = Inr (s, d')"
  obtains t p r d1 where "cx = Some t" "findSession t parent d = Some p" "0 \<le> atSeq" "atSeq \<le> sr_head_seq p"
    "insertSession r d = Inr d1" "d' = commitTx d1" "sr_id r = newID" "sr_tenant r = t" "sr_parent r = Some parent"
    "sr_forked_from r = Some atSeq" "sr_head_seq r = atSeq" "sr_chain_head r = None" "sr_lease_epoch r = 0"
    "sr_status r = StatusActive" "sr_mode r = OrDefault (sr_mode p)"
  using assms
  by (auto simp: Fork_def andThen_Inr_iff Let_def TenantFromContext_def loadSessionTx_def sessionOfRow_def
      split: if_splits option.splits)

lemma appendTx_inv:
  assumes "appendTx c sha flt now cx sid expected epoch req blob events d = Inr (envs, d')" and inv: "storeInv sha d"
  shows "storeInv sha d'"
  using assms(1) by (rule appendTx_cases) (use inv appendGated_inv [OF inv] in \<open>blast+\<close>)

lemma CreateTenant_inv:
  assumes "CreateTenant flt cx tid name d = Inr (u, d')" "storeInv sha d"
  shows "storeInv sha d'"
proof -
  have "db_sessions d' = db_sessions d" "db_events d' = db_events d" "db_blobs d' = db_blobs d"
    "db_next_global d' = db_next_global d"
    using assms(1) by (auto simp: CreateTenant_def andThen_Inr_iff Let_def commitTx_def)
  then show ?thesis using assms(2) storeInv_cong [of d' d] by simp
qed

lemma CreateSession_inv:
  assumes "CreateSession flt now cx sid mode d = Inr (s, d')" and inv: "storeInv sha d"
  shows "storeInv sha d'"
  using assms(1)
  by (rule CreateSession_Inr) (use storeInv_insertSession [OF inv] in \<open>simp add: forkBase_def\<close>)

lemma SetSessionStatus_inv:
  assumes "SetSessionStatus flt now cx sid epoch status d = Inr (u, d')" and inv: "storeInv sha d"
  shows "storeInv sha d'"
  using assms(1) by (rule SetSessionStatus_Inr) (simp add: storeInv_updateSessions [OF inv])

lemma Fork_inv:
  assumes "Fork flt now cx parent atSeq newID d = Inr (s, d')" and inv: "storeInv sha d"
  shows "storeInv sha d'"
  using assms(1)
  by (rule Fork_Inr) (use storeInv_insertSession [OF inv] in \<open>simp add: forkBase_def\<close>)

lemma storeStep_inv: "storeStep c sha cx d d' \<Longrightarrow> storeInv sha d \<Longrightarrow> storeInv sha d'"
  by (erule storeStepE) (erule (1) appendTx_inv CreateTenant_inv CreateSession_inv SetSessionStatus_inv Fork_inv)+

lemma storeInv_empty: "storeInv sha emptyDb"
  by (simp add: storeInv_def emptyDb_def)

lemma storeSteps_inv: "storeSteps c sha d d' \<Longrightarrow> storeInv sha d \<Longrightarrow> storeInv sha d'"
  by (induction rule: storeSteps.induct) (blast intro: storeStep_inv)+

end
