(* ===== verification/EventLogProps.thy ===== *)
theory EventLogProps
  imports EventLogInv
begin

text \<open>
  What the event store promises: the interpretation of the event log contract, exactly-once appends,
  the classification of every failed append, tenant isolation, and reading back what was appended.
\<close>

section \<open>Definitions\<close>

definition pgHistory :: "string \<Rightarrow> string \<Rightarrow> db \<Rightarrow> EventRow list" where
  "pgHistory t sid d = selectEvents t sid (\<lambda>_. True) d"

definition pgHead :: "string \<Rightarrow> string \<Rightarrow> db \<Rightarrow> int option" where
  "pgHead t sid d = map_option sr_head_seq (findSession t sid d)"

definition pgAppend ::
    "codec \<Rightarrow> hashfun \<Rightarrow> string \<Rightarrow> faults \<times> int \<times> int \<times> BlobUpload option \<Rightarrow> string \<Rightarrow> int \<Rightarrow> string \<Rightarrow>
     AppendInput list \<Rightarrow> db \<Rightarrow> db option" where
  "pgAppend c sha t p sid h req evs d =
     (case p of (flt, now, epoch, blob) \<Rightarrow>
        (case appendTx c sha flt now (Some t) sid h epoch req blob evs d of
           Inl _ \<Rightarrow> None | Inr (_, d') \<Rightarrow> Some d'))"

definition roundtrips :: "codec \<Rightarrow> bool" where
  "roundtrips c \<longleftrightarrow> (\<forall>e b. cMarshal c e = Some b \<longrightarrow> cUnmarshal c (eventType e) b = Some e)"

text \<open>A small database and codec on which the properties are evaluated.\<close>

definition demoCodec :: codec where
  "demoCodec = \<lparr>cMarshal = (\<lambda>e. case e of WorkspaceReset s \<Rightarrow> Some s | _ \<Rightarrow> None),
     cUnmarshal = (\<lambda>t b. if t = EventWorkspaceReset then Some (WorkspaceReset b) else None)\<rparr>"

definition demoSha :: hashfun where
  "demoSha b = (case rev b @ ''0000'' of _ # x # _ # y # _ \<Rightarrow> [x, y] | _ \<Rightarrow> ''00'')"

definition demoInput :: "string \<Rightarrow> AppendInput" where
  "demoInput s = \<lparr>aiEvent = WorkspaceReset s, aiSchemaVersion = 0, aiActor = ActorUnset\<rparr>"

definition stateOf :: "store_error + ('a \<times> db) \<Rightarrow> db" where
  "stateOf r = (case r of Inl _ \<Rightarrow> emptyDb | Inr (_, d) \<Rightarrow> d)"

definition demoDb1 :: db where
  "demoDb1 = stateOf (CreateTenant noFaults (Some ''t'') ''t'' ''T'' emptyDb)"

definition demoDb2 :: db where
  "demoDb2 = stateOf (CreateSession noFaults 5 (Some ''t'') ''s'' ModeUnset demoDb1)"

definition demoDb3 :: db where
  "demoDb3 = stateOf (appendTx demoCodec demoSha noFaults 6 (Some ''t'') ''s'' 0 0 ''q'' None
     [demoInput ''ab'', demoInput ''cd''] demoDb2)"

section \<open>Queries under the invariant\<close>

lemma ownEvents_sorted: "sessionOk sha d r \<Longrightarrow> sorted (map er_seq (ownEvents (sr_id r) d))"
  by (simp add: sessionOk_def)

lemma selectEvents_own:
  assumes inv: "storeInv sha d" and f: "findSession t sid d = Some r"
  shows "selectEvents t sid p d = filter p (ownEvents sid d)"
proof -
  have r: "r \<in> set (db_sessions d)" "sr_tenant r = t" "sr_id r = sid"
    using findSession_Some [OF f] by auto
  have ok: "sessionOk sha d r" using inv r by (simp add: storeInv_def)
  then have "er_tenant e = t" if "e \<in> set (db_events d)" "er_session e = sid" for e
    using that r by (simp add: sessionOk_def ownEvents_def)
  then have eq: "filter (\<lambda>r. er_session r = sid \<and> p r) (visibleEvents t d) = filter p (ownEvents sid d)"
    by (auto simp: visibleEvents_def ownEvents_def intro: filter_cong)
  have "sorted (map er_seq (filter p (ownEvents sid d)))"
    using ownEvents_sorted [OF ok] r by (auto intro: sorted_filter)
  then show ?thesis by (simp add: selectEvents_def eq sort_key_id_if_sorted)
qed

lemma selectEvents_invisible:
  assumes inv: "storeInv sha d" and f: "findSession t sid d = None"
  shows "selectEvents t sid p d = []"
proof -
  have "\<not> (er_tenant e = t \<and> er_session e = sid)" if "e \<in> set (db_events d)" for e
  proof
    assume e: "er_tenant e = t \<and> er_session e = sid"
    from inv that e obtain r where r: "r \<in> set (db_sessions d)" "sr_id r = sid"
      by (auto simp: storeInv_def)
    then have "er_tenant e = sr_tenant r"
      using inv that e by (auto simp: storeInv_def sessionOk_def ownEvents_def)
    with f r e show False by (auto simp: findSession_None)
  qed
  then have "filter (\<lambda>r. er_session r = sid \<and> p r) (visibleEvents t d) = []"
    by (auto simp: visibleEvents_def filter_empty_conv)
  then show ?thesis by (simp add: selectEvents_def)
qed

lemma scanEnvelopes_Nil_iff: "scanEnvelopes c t rs = Inr [] \<longleftrightarrow> rs = []"
  by (cases rs) (auto simp: andThen_Inr_iff)

lemma decodePayload_eventType:
  "decodePayload c (eventType e) p =
     (case cUnmarshal c (eventType e) p of None \<Rightarrow> Inl (ErrDecode (eventType e)) | Some e' \<Rightarrow> Inr e')"
  by (cases e) (simp_all split: option.splits)

lemma scanEnvelope_Inr: "scanEnvelope c t r = Inr e \<Longrightarrow> e = rowEnvelope t r (envEvent e)"
  by (auto simp: scanEnvelope_def rowEnvelope_def andThen_Inr_iff)

lemma scanEnvelopes_append:
  "scanEnvelopes c t (rs @ ss) =
     andThen (scanEnvelopes c t rs) (\<lambda>es. andThen (scanEnvelopes c t ss) (\<lambda>fs. Inr (es @ fs)))"
proof (induction rs)
  case Nil
  then show ?case by (cases "scanEnvelopes c t ss") simp_all
next
  case (Cons r rs)
  then show ?case
    by (cases "scanEnvelope c t r"; cases "scanEnvelopes c t rs"; cases "scanEnvelopes c t ss") simp_all
qed

lemma scanEnvelopes_batch:
  assumes "roundtrips c" "\<forall>inp \<in> set inps. cMarshal c (aiEvent inp) = Some (payloadOf c inp)"
  shows "scanEnvelopes c t (batchRows c sha now t sid req seq g x prev inps) =
    Inr (map2 (rowEnvelope t) (batchRows c sha now t sid req seq g x prev inps) (map aiEvent inps))"
  using assms(2)
proof (induction inps arbitrary: seq g prev)
  case (Cons inp inps)
  have "cUnmarshal c (eventType (aiEvent inp)) (payloadOf c inp) = Some (aiEvent inp)"
    using assms(1) Cons.prems by (simp add: roundtrips_def)
  then have "scanEnvelope c t (newEventRow c sha now t sid req seq g x prev inp) =
      Inr (rowEnvelope t (newEventRow c sha now t sid req seq g x prev inp) (aiEvent inp))"
    by (simp add: scanEnvelope_def newEventRow_def rowEnvelope_def decodePayload_eventType)
  with Cons show ?case by simp
qed simp

section \<open>The contract\<close>

lemma pgAppend_Some:
  assumes "pgAppend c sha t p sid h req evs d = Some d'"
  obtains flt now epoch blob envs where "p = (flt, now, epoch, blob)"
    "appendTx c sha flt now (Some t) sid h epoch req blob evs d = Inr (envs, d')"
  using assms by (auto simp: pgAppend_def split: prod.splits sum.splits)

text \<open>What a successful append does to the histories and heads that any tenant sees.\<close>

lemma gated_history:
  assumes inv: "storeInv sha d" and "evs \<noteq> []"
    and ok: "appendGated c sha flt now t sid h epoch req blob evs d = Inr (envs, d')"
  obtains r rows where "findSession t sid d = Some r" "gateMatches sid h epoch r"
    "rows = batchRows c sha now t sid req (h + 1) (db_next_global d) (db_next_xid d) (chainStart sha r) evs"
    "envs = map2 (rowEnvelope t) rows (map aiEvent evs)"
    "ownEvents sid d' = ownEvents sid d @ rows" "pgHistory t sid d' = pgHistory t sid d @ rows"
    "pgHead t sid d = Some h" "pgHead t sid d' = Some (h + int (length evs))"
    "\<forall>inp \<in> set evs. cMarshal c (aiEvent inp) = Some (payloadOf c inp)"
proof -
  have dist: "distinct (map sr_id (db_sessions d))" using inv by (simp add: storeInv_def)
  have inv': "storeInv sha d'" using appendGated_inv [OF inv assms(2) ok] .
  show thesis
    using ok dist
  proof (rule appendGated_Inr)
    fix r rows bs
    assume r: "r \<in> set (db_sessions d)" "sr_tenant r = t" "gateMatches sid h epoch r"
      and rows: "rows = batchRows c sha now t sid req (h + 1) (db_next_global d) (db_next_xid d) (chainStart sha r) evs"
      and envs: "envs = map2 (rowEnvelope t) rows (map aiEvent evs)"
      and d': "d' = d\<lparr>db_sessions := map (\<lambda>s. if sr_id s = sid then advancedRow now (int (length evs))
                    (chainFold sha (chainStart sha r) (map (payloadOf c) evs)) s else s) (db_sessions d),
                db_events := db_events d @ rows, db_blobs := db_blobs d @ bs,
                db_next_global := db_next_global d + int (length evs),
                db_next_xid := db_next_xid d + 1, db_notified := db_notified d @ [sid]\<rparr>"
      and m: "\<forall>inp \<in> set evs. cMarshal c (aiEvent inp) = Some (payloadOf c inp)"
    let ?r' = "advancedRow now (int (length evs)) (chainFold sha (chainStart sha r) (map (payloadOf c) evs)) r"
    have id: "sr_id r = sid" "sr_head_seq r = h" using r by (auto simp: gateMatches_def)
    have f: "findSession t sid d = Some r" using findSession_eq dist r id by blast
    have "?r' \<in> set (db_sessions d')" using r id by (auto simp: d')
    moreover have "distinct (map sr_id (db_sessions d'))" using inv' by (simp add: storeInv_def)
    ultimately have f': "findSession t sid d' = Some ?r'"
      using r id by (intro findSession_eq) (auto simp: advancedRow_def)
    have own: "ownEvents sid d' = ownEvents sid d @ rows" by (simp add: ownEvents_def d' rows)
    show thesis
      by (rule that [OF f r(3) rows envs own])
        (use own id m in \<open>simp_all add: pgHistory_def pgHead_def f f' selectEvents_own [OF inv f]
          selectEvents_own [OF inv' f'] advancedRow_def\<close>)
  qed
qed
lemma batchRows_bytes:
  "map (\<lambda>r. orNil (er_canonical r)) (batchRows c sha now t sid req seq g x prev inps) = map (payloadOf c) inps"
  by (induction inps arbitrary: seq g prev) (auto simp: newEventRow_def)

lemma find_map_other:
  "(\<And>x. x \<in> set xs \<Longrightarrow> P (f x) = P x) \<Longrightarrow> (\<And>x. x \<in> set xs \<Longrightarrow> P x \<Longrightarrow> f x = x) \<Longrightarrow> find P (map f xs) = find P xs"
  by (induction xs) auto

lemma findSession_find: "findSession t sid d = find (\<lambda>r. sr_tenant r = t \<and> sr_id r = sid) (db_sessions d)"
proof -
  have "find (\<lambda>r. sr_id r = sid) (filter (\<lambda>r. sr_tenant r = t) rs) = find (\<lambda>r. sr_tenant r = t \<and> sr_id r = sid) rs" for rs
    by (induction rs) auto
  then show ?thesis by (simp add: findSession_def visibleSessions_def)
qed

lemma gated_frame:
  assumes inv: "storeInv sha d"
    and ok: "appendGated c sha flt now t sid h epoch req blob evs d = Inr (envs, d')"
    and other: "sid' \<noteq> sid \<or> u \<noteq> t"
  shows "pgHistory u sid' d' = pgHistory u sid' d" and "findSession u sid' d' = findSession u sid' d"
proof -
  have dist: "distinct (map sr_id (db_sessions d))" using inv by (simp add: storeInv_def)
  have "pgHistory u sid' d' = pgHistory u sid' d \<and> findSession u sid' d' = findSession u sid' d"
    using ok dist
  proof (rule appendGated_Inr)
    fix r rows bs
    assume r: "r \<in> set (db_sessions d)" "sr_tenant r = t" "gateMatches sid h epoch r"
      and rows: "rows = batchRows c sha now t sid req (h + 1) (db_next_global d) (db_next_xid d) (chainStart sha r) evs"
      and d': "d' = d\<lparr>db_sessions := map (\<lambda>s. if sr_id s = sid then advancedRow now (int (length evs))
                    (chainFold sha (chainStart sha r) (map (payloadOf c) evs)) s else s) (db_sessions d),
                db_events := db_events d @ rows, db_blobs := db_blobs d @ bs,
                db_next_global := db_next_global d + int (length evs),
                db_next_xid := db_next_xid d + 1, db_notified := db_notified d @ [sid]\<rparr>"
    have own: "sr_tenant s = t" if "s \<in> set (db_sessions d)" "sr_id s = sid" for s
      using unique_session [OF dist that(1) r(1)] r that by (simp add: gateMatches_def)
    have "find (\<lambda>r. sr_tenant r = u \<and> sr_id r = sid') (db_sessions d') = find (\<lambda>r. sr_tenant r = u \<and> sr_id r = sid') (db_sessions d)"
      unfolding d' using other own by (simp, intro find_map_other) (auto simp: advancedRow_def)
    moreover have "filter (\<lambda>r. er_session r = sid' \<and> True) (visibleEvents u d') = filter (\<lambda>r. er_session r = sid' \<and> True) (visibleEvents u d)"
      using other batchRows_all by (fastforce simp: d' rows visibleEvents_def filter_empty_conv)
    ultimately show ?thesis by (simp add: pgHistory_def selectEvents_def findSession_find)
  qed
  then show "pgHistory u sid' d' = pgHistory u sid' d" "findSession u sid' d' = findSession u sid' d" by auto
qed

lemma pgHistory_request:
  "selectEvents t sid (\<lambda>r. er_request r = req) d = [] \<longleftrightarrow> (\<forall>e \<in> set (pgHistory t sid d). er_request e \<noteq> req)"
proof -
  have "set (selectEvents t sid p d) = {e \<in> set (visibleEvents t d). er_session e = sid \<and> p e}" for p
    by (auto simp: selectEvents_def)
  then show ?thesis by (auto simp: pgHistory_def simp flip: set_empty)
qed

interpretation pg: event_log "storeInv sha" "pgHistory t" "pgHead t" "pgAppend c sha t" er_seq er_request
    "\<lambda>r. orNil (er_canonical r)" "payloadOf c" for sha t c
proof
  fix d d' p sid h req evs
  assume inv: "storeInv sha d" and ok: "pgAppend c sha t p sid h req evs d = Some d'"
  from ok obtain flt now epoch blob envs where
      tx: "appendTx c sha flt now (Some t) sid h epoch req blob evs d = Inr (envs, d')"
    by (rule pgAppend_Some)
  show "storeInv sha d'" using appendTx_inv [OF tx inv] .
  show "d' = d" if "\<exists>e \<in> set (pgHistory t sid d). er_request e = req"
    using tx that by (cases rule: appendTx_cases) (auto simp: scanEnvelopes_Nil_iff pgHistory_request)
  show "pgHead t sid d = Some h \<and> pgHead t sid d' = Some (h + int (length evs)) \<and>
      (\<exists>new. pgHistory t sid d' = pgHistory t sid d @ new \<and> map (\<lambda>r. orNil (er_canonical r)) new = map (payloadOf c) evs \<and>
         map er_seq new = [h + 1 .. h + int (length evs)] \<and> (\<forall>e \<in> set new. er_request e = req))"
    if fresh: "\<forall>e \<in> set (pgHistory t sid d). er_request e \<noteq> req"
    using tx
  proof (cases rule: appendTx_cases)
    case (replay t')
    then show ?thesis using fresh pgHistory_request [of t sid req d] by auto
  next
    case (gated t')
    then have g: "appendGated c sha flt now t sid h epoch req blob evs d = Inr (envs, d')" and ne: "evs \<noteq> []" by auto
    show ?thesis
      by (rule gated_history [OF inv ne g])
        (simp add: batchRows_fields(1) batchRows_bytes, blast dest: batchRows_all)
  qed
  show "pgHistory t sid' d' = pgHistory t sid' d \<and> pgHead t sid' d' = pgHead t sid' d" if "sid' \<noteq> sid" for sid'
    using tx
  proof (cases rule: appendTx_cases)
    case (gated t')
    then show ?thesis using gated_frame [OF inv] that by (simp add: pgHead_def)
  qed simp
qed

section \<open>What a step can change\<close>

lemma insertSession_Inr:
  "insertSession r d = Inr d' \<Longrightarrow> d' = d\<lparr>db_sessions := db_sessions d @ [r]\<rparr> \<and> sr_id r \<notin> sr_id ` set (db_sessions d)"
  by (auto simp: insertSession_def andThen_Inr_iff)

lemma find_append_Some: "find P xs = Some x \<Longrightarrow> find P (xs @ ys) = Some x"
  by (induction xs) auto

lemma db_events_commitTx [simp]: "db_events (commitTx d) = db_events d"
  by (simp add: commitTx_def)

lemma pgHead_commitTx [simp]: "pgHead t sid (commitTx d) = pgHead t sid d"
  by (simp add: pgHead_def findSession_find commitTx_def)

lemma pgHead_insertSession:
  "insertSession r d = Inr d' \<Longrightarrow> pgHead t sid d = Some k \<Longrightarrow> pgHead t sid d' = Some k"
  by (auto simp: pgHead_def findSession_find find_append_Some dest!: insertSession_Inr)

lemma pgHead_updateSessions:
  assumes "\<And>r. sr_id (f r) = sr_id r \<and> sr_tenant (f r) = sr_tenant r \<and> sr_head_seq (f r) = sr_head_seq r"
  shows "pgHead t sid (updateSessions t' p f d) = pgHead t sid d"
proof -
  have "map_option sr_head_seq (find (\<lambda>r. sr_tenant r = t \<and> sr_id r = sid)
        (map (\<lambda>r. if sr_tenant r = t' \<and> p r then f r else r) rs)) =
      map_option sr_head_seq (find (\<lambda>r. sr_tenant r = t \<and> sr_id r = sid) rs)" for rs
    using assms by (induction rs) auto
  then show ?thesis by (simp add: pgHead_def findSession_find updateSessions_def)
qed

lemma pgHistory_cong: "db_events d' = db_events d \<Longrightarrow> pgHistory t sid d' = pgHistory t sid d"
  by (simp add: pgHistory_def selectEvents_def visibleEvents_def)

lemma step_cases:
  assumes "storeStep c sha cx d d'"
  obtains (append) flt now sid expected epoch req blob events envs where
      "appendTx c sha flt now cx sid expected epoch req blob events d = Inr (envs, d')"
  | (other) "db_events d' = db_events d" "\<And>t sid k. pgHead t sid d = Some k \<Longrightarrow> pgHead t sid d' = Some k"
  using assms
proof cases
  case stTenant
  then have "db_events d' = db_events d" "db_sessions d' = db_sessions d"
    by (auto simp: CreateTenant_def andThen_Inr_iff Let_def commitTx_def)
  then show ?thesis by (intro other) (auto simp: pgHead_def findSession_find)
next
  case stSession
  then show ?thesis
    by (elim CreateSession_Inr) (rule other, auto dest: insertSession_Inr pgHead_insertSession)
next
  case stStatus
  then show ?thesis
    by (elim SetSessionStatus_Inr) (rule other, simp_all add: pgHead_updateSessions, simp add: updateSessions_def)
next
  case stFork
  then show ?thesis
    by (elim Fork_Inr) (rule other, auto dest: insertSession_Inr pgHead_insertSession)
qed (rule append)

lemma pgAppend_of_tx:
  "appendTx c sha flt now (Some t) sid h epoch req blob evs d = Inr (envs, d') \<Longrightarrow>
     pgAppend c sha t (flt, now, epoch, blob) sid h req evs d = Some d'"
  by (simp add: pgAppend_def)

lemma append_other_tenant:
  assumes "storeInv sha d" "appendTx c sha flt now (Some u) sid' h epoch req blob evs d = Inr (envs, d')" "u \<noteq> t"
  shows "pgHistory t sid d' = pgHistory t sid d \<and> pgHead t sid d' = pgHead t sid d"
  using assms(2)
proof (cases rule: appendTx_cases)
  case (gated t')
  then show ?thesis using gated_frame [OF assms(1)] assms(3) by (simp add: pgHead_def)
qed simp

lemma append_cx_Some:
  "appendTx c sha flt now cx sid h epoch req blob evs d = Inr (envs, d') \<Longrightarrow> \<exists>u. cx = Some u \<and> u \<noteq> ''''"
  by (auto simp: appendTx_def andThen_Inr_iff TenantFromContext_def split: if_splits option.splits)

lemma step_request_stable:
  assumes "storeInv sha d" "storeStep c sha cx d d'" "pg.ofRequest t sid req d \<noteq> []"
  shows "pg.ofRequest t sid req d' = pg.ofRequest t sid req d"
  using assms(2)
proof (cases rule: step_cases)
  case (append flt now sid' expected epoch req' blob events envs)
  then obtain u where u: "cx = Some u" using append_cx_Some by blast
  show ?thesis
  proof (cases "u = t")
    case True
    then show ?thesis
      using pg.append_ofRequest [OF assms(1) pgAppend_of_tx _ ] append u assms(3) by blast
  next
    case False
    then show ?thesis
      using append_other_tenant [OF assms(1)] append u by (simp add: pg.ofRequest_def)
  qed
qed (simp add: pg.ofRequest_def pgHistory_cong [of d' d])

lemma step_head_mono:
  assumes "storeInv sha d" "storeStep c sha cx d d'" "pgHead t sid d = Some k"
  shows "\<exists>k' \<ge> k. pgHead t sid d' = Some k'"
  using assms(2)
proof (cases rule: step_cases)
  case (append flt now sid' expected epoch req' blob events envs)
  then obtain u where u: "cx = Some u" using append_cx_Some by blast
  show ?thesis
  proof (cases "u = t")
    case True
    then show ?thesis
      using pg.append_head_mono [OF assms(1) pgAppend_of_tx assms(3)] append u by blast
  next
    case False
    then show ?thesis
      using append_other_tenant [OF assms(1)] append u assms(3) by auto
  qed
qed (use assms(3) in auto)

lemma steps_request_stable:
  "storeSteps c sha d d' \<Longrightarrow> storeInv sha d \<Longrightarrow> pg.ofRequest t sid req d \<noteq> [] \<Longrightarrow>
     pg.ofRequest t sid req d' = pg.ofRequest t sid req d"
proof (induction rule: storeSteps.induct)
  case (stepsMore d d1 cx d2)
  then show ?case
    using step_request_stable [OF storeSteps_inv [OF stepsMore(1) stepsMore(4)] stepsMore(2), of t sid req] by simp
qed simp

lemma steps_head_mono:
  "storeSteps c sha d d' \<Longrightarrow> storeInv sha d \<Longrightarrow> pgHead t sid d = Some k \<Longrightarrow> \<exists>k' \<ge> k. pgHead t sid d' = Some k'"
proof (induction rule: storeSteps.induct)
  case (stepsMore d d1 cx d2)
  then obtain k1 where "k1 \<ge> k" "pgHead t sid d1 = Some k1" by blast
  then show ?case
    using step_head_mono [OF storeSteps_inv [OF stepsMore(1) stepsMore(4)] stepsMore(2), of t sid k1]
    by (auto intro: order_trans)
qed auto

section \<open>Appends that succeed\<close>

lemma noFaults_SCommit [simp]: "noFaults SCommit = None"
  by (simp add: noFaults_def)

lemma insertEvents_ok:
  assumes "\<forall>inp \<in> set inps. cMarshal c (aiEvent inp) \<noteq> None \<and> eventBlobRef (aiEvent inp) = ''''"
    and "\<forall>r \<in> set (db_events d). er_session r = sid \<longrightarrow> er_seq r \<le> expected + int i" and "0 \<le> expected"
  shows "isOk (insertEvents c sha noFaults now t sid req blob expected i prev inps d)"
  using assms
proof (induction inps arbitrary: i prev d)
  case (Cons inp inps)
  have seq: "\<forall>r \<in> set (db_events d). \<not> (er_session r = sid \<and> er_seq r = expected + 1 + int i)"
    using Cons.prems(2) by fastforce
  have "\<exists>env d'. insertEvent c sha noFaults now t sid (expected + 1 + int i) req inp blob prev i d = Inr (env, d')"
    using Cons.prems seq by (auto simp: insertEvent_def MarshalEventPayload_def Let_def)
  then obtain env d' where one: "insertEvent c sha noFaults now t sid (expected + 1 + int i) req inp blob prev i d = Inr (env, d')"
    by blast
  have "er_seq r \<le> expected + int (Suc i)" if "r \<in> set (db_events d')" "er_session r = sid" for r
  proof (cases "r \<in> set (db_events d)")
    case True
    with Cons.prems(2) that show ?thesis by fastforce
  next
    case False
    with that insertEvent_Inr(2) [OF one] show ?thesis by (simp add: newEventRow_def)
  qed
  then have "isOk (insertEvents c sha noFaults now t sid req blob expected (Suc i) (orNil (envChainHash env)) inps d')"
    using Cons.prems by (intro Cons.IH) auto
  with one show ?case by (auto simp: isOk_iff)
qed simp

lemma own_seq_bounds:
  assumes "sessionOk sha d r" "e \<in> set (ownEvents (sr_id r) d)"
  shows "forkBase r < er_seq e" and "er_seq e \<le> sr_head_seq r" and "1 \<le> er_seq e"
proof -
  have "er_seq e \<in> set (map er_seq (ownEvents (sr_id r) d))" using assms(2) by simp
  then have "er_seq e \<in> {forkBase r + 1 .. sr_head_seq r}"
    using assms(1) by (simp only: sessionOk_def) simp
  then show "forkBase r < er_seq e" "er_seq e \<le> sr_head_seq r" by auto
  then show "1 \<le> er_seq e" using assms(1) by (simp add: sessionOk_def)
qed

lemma own_seq_le_head:
  assumes "storeInv sha d" "r \<in> set (db_sessions d)" "e \<in> set (db_events d)" "er_session e = sr_id r"
  shows "er_seq e \<le> sr_head_seq r" and "0 \<le> sr_head_seq r"
proof -
  have ok: "sessionOk sha d r" using assms(1,2) by (simp add: storeInv_def)
  show "er_seq e \<le> sr_head_seq r" using own_seq_bounds [OF ok] assms(3,4) by (simp add: ownEvents_def)
  show "0 \<le> sr_head_seq r" using ok by (simp add: sessionOk_def)
qed

lemma appendGated_ok:
  assumes inv: "storeInv sha d" and f: "findSession t sid d = Some r" and g: "gateMatches sid h epoch r"
    and evs: "\<forall>inp \<in> set evs. cMarshal c (aiEvent inp) \<noteq> None \<and> eventBlobRef (aiEvent inp) = ''''"
  shows "\<exists>envs d'. appendGated c sha noFaults now t sid h epoch req None evs d = Inr (envs, d')"
proof -
  have r: "r \<in> set (db_sessions d)" "sr_tenant r = t" "sr_id r = sid" "sr_head_seq r = h"
    using findSession_Some [OF f] g by (auto simp: gateMatches_def)
  define d1 where "d1 = updateSessions t (gateMatches sid h epoch)
      (\<lambda>r. r\<lparr>sr_head_seq := sr_head_seq r + int (length evs), sr_updated_at := now, sr_last_event_at := Some now\<rparr>) d"
  have gate: "gateUpdate noFaults now t sid h epoch (int (length evs)) d = Inr (Some d1)"
    using r g by (auto simp: gateUpdate_def visibleSessions_def d1_def)
  have ev: "db_events d1 = db_events d" by (simp add: d1_def updateSessions_def)
  have "r\<lparr>sr_head_seq := sr_head_seq r + int (length evs), sr_updated_at := now, sr_last_event_at := Some now\<rparr>
      \<in> set (db_sessions d1)"
    using r g by (auto simp: d1_def updateSessions_def)
  then have "findSession t sid d1 \<noteq> None"
    using r by (auto simp: findSession_None intro: bexI [rotated])
  then obtain prev where prev: "loadChainHead sha noFaults t sid d1 = Inr prev"
    by (auto simp: loadChainHead_def)
  have "0 \<le> h" using inv r by (auto simp: storeInv_def sessionOk_def)
  then have "isOk (insertEvents c sha noFaults now t sid req None h 0 prev evs d1)"
    using own_seq_le_head(1) [OF inv r(1)] r evs by (intro insertEvents_ok) (auto simp: ev)
  then show ?thesis
    using gate prev by (auto simp: isOk_iff appendGated_def advanceChainHead_def)
qed

lemma visible_append_other:
  assumes inv: "storeInv sha d"
    and ok: "appendGated c sha flt now t sid h epoch req blob evs d = Inr (envs, d')" and "u \<noteq> t"
  shows "visibleSessions u d' = visibleSessions u d \<and> visibleEvents u d' = visibleEvents u d"
proof -
  have dist: "distinct (map sr_id (db_sessions d))" using inv by (simp add: storeInv_def)
  show ?thesis using ok dist
  proof (rule appendGated_Inr)
    fix r rows bs
    assume r: "r \<in> set (db_sessions d)" "sr_tenant r = t" "gateMatches sid h epoch r"
      and rows: "rows = batchRows c sha now t sid req (h + 1) (db_next_global d) (db_next_xid d) (chainStart sha r) evs"
      and d': "d' = d\<lparr>db_sessions := map (\<lambda>s. if sr_id s = sid then advancedRow now (int (length evs))
                    (chainFold sha (chainStart sha r) (map (payloadOf c) evs)) s else s) (db_sessions d),
                db_events := db_events d @ rows, db_blobs := db_blobs d @ bs,
                db_next_global := db_next_global d + int (length evs),
                db_next_xid := db_next_xid d + 1, db_notified := db_notified d @ [sid]\<rparr>"
    define g where "g = (\<lambda>s. if sr_id s = sid then advancedRow now (int (length evs))
                    (chainFold sha (chainStart sha r) (map (payloadOf c) evs)) s else s)"
    have own: "sr_tenant s = t" if "s \<in> set (db_sessions d)" "sr_id s = sid" for s
      using unique_session [OF dist that(1) r(1)] r that by (simp add: gateMatches_def)
    have "filter (\<lambda>r. sr_tenant r = u) (map g rs) = filter (\<lambda>r. sr_tenant r = u) rs"
      if "set rs \<subseteq> set (db_sessions d)" for rs
      using that own \<open>u \<noteq> t\<close> by (induction rs) (auto simp: g_def advancedRow_def)
    moreover have "filter (\<lambda>e. er_tenant e = u) rows = []"
      using batchRows_all \<open>u \<noteq> t\<close> by (fastforce simp: rows filter_empty_conv)
    ultimately show ?thesis by (simp add: d' visibleSessions_def visibleEvents_def flip: g_def)
  qed
qed

lemma step_other_tenant:
  assumes inv: "storeInv sha d" and st: "storeStep c sha (Some t) d d'" and "u \<noteq> t"
  shows "visibleSessions u d' = visibleSessions u d \<and> visibleEvents u d' = visibleEvents u d"
  using st
proof cases
  case stAppend
  then show ?thesis
    by (rule appendTx_cases) (use visible_append_other [OF inv _ \<open>u \<noteq> t\<close>] in auto)
next
  case stTenant
  then have "db_events d' = db_events d" "db_sessions d' = db_sessions d"
    by (auto simp: CreateTenant_def andThen_Inr_iff Let_def commitTx_def)
  then show ?thesis by (simp add: visibleSessions_def visibleEvents_def)
next
  case stSession
  then show ?thesis
    by (rule CreateSession_Inr) (use \<open>u \<noteq> t\<close> in \<open>auto simp: visibleSessions_def visibleEvents_def commitTx_def dest!: insertSession_Inr\<close>)
next
  case stStatus
  have "filter (\<lambda>r. sr_tenant r = u) (map (\<lambda>r. if sr_tenant r = t \<and> p r then f r else r) rs) = filter (\<lambda>r. sr_tenant r = u) rs"
    if "\<And>r. sr_tenant (f r) = sr_tenant r" for f :: "SessionRow \<Rightarrow> SessionRow" and p rs
    using that \<open>u \<noteq> t\<close> by (induction rs) auto
  with stStatus show ?thesis
    by (elim SetSessionStatus_Inr) (simp add: visibleSessions_def visibleEvents_def commitTx_def updateSessions_def)
next
  case stFork
  then show ?thesis
    by (rule Fork_Inr) (use \<open>u \<noteq> t\<close> in \<open>auto simp: visibleSessions_def visibleEvents_def commitTx_def dest!: insertSession_Inr\<close>)
qed

section \<open>The demonstration database\<close>

lemma roundtrips_demo: "roundtrips demoCodec"
  by (simp add: roundtrips_def demoCodec_def split: event.splits)

lemma demoDb1_eq: "CreateTenant noFaults (Some ''t'') ''t'' ''T'' emptyDb = Inr ((), demoDb1)"
  by code_simp

lemma demoDb2_eq: "isOk (CreateSession noFaults 5 (Some ''t'') ''s'' ModeUnset demoDb1)"
  by code_simp

lemma demoDb3_eq: "isOk (appendTx demoCodec demoSha noFaults 6 (Some ''t'') ''s'' 0 0 ''q'' None
     [demoInput ''ab'', demoInput ''cd''] demoDb2)"
  by code_simp

lemma isOk_stateOf: "isOk r \<Longrightarrow> \<exists>x. r = Inr (x, stateOf r)"
  by (auto simp: isOk_def stateOf_def split: sum.splits)

lemma demo_steps:
  "storeSteps demoCodec demoSha emptyDb demoDb2"
  "storeSteps demoCodec demoSha emptyDb demoDb3"
proof -
  have 1: "storeSteps demoCodec demoSha emptyDb demoDb1"
    using stepsMore [OF stepsNone stTenant [OF demoDb1_eq]] .
  obtain x where "CreateSession noFaults 5 (Some ''t'') ''s'' ModeUnset demoDb1 = Inr (x, demoDb2)"
    using isOk_stateOf [OF demoDb2_eq] by (auto simp: demoDb2_def)
  from stepsMore [OF 1 stSession [OF this]] show 2: "storeSteps demoCodec demoSha emptyDb demoDb2" .
  obtain y where "appendTx demoCodec demoSha noFaults 6 (Some ''t'') ''s'' 0 0 ''q'' None
     [demoInput ''ab'', demoInput ''cd''] demoDb2 = Inr (y, demoDb3)"
    using isOk_stateOf [OF demoDb3_eq] by (auto simp: demoDb3_def)
  from stepsMore [OF 2 stAppend [OF this]] show "storeSteps demoCodec demoSha emptyDb demoDb3" .
qed

lemmas demo_inv = demo_steps [THEN storeSteps_inv, OF storeInv_empty]

section \<open>Properties\<close>

text \<open>
  C1. Starting from the empty database, whatever operations any tenants run, with whatever arguments
  and failing statements, the store keeps its invariant: session ids are unique, the events of every
  session are numbered without a gap from its fork point to its head, belong to the session's tenant,
  form one hash chain from the session genesis to the stored chain head, reference only stored blobs
  of the same tenant, and global ids increase strictly.
\<close>

theorem store_invariant: "storeSteps c sha emptyDb d \<Longrightarrow> storeInv sha d"
  by (erule storeSteps_inv) (rule storeInv_empty)

theorem store_invariant_witness: "storeInv demoSha demoDb3 \<and> length (db_events demoDb3) = 2"
proof
  show "storeInv demoSha demoDb3" using store_invariant [OF demo_steps(2)] .
  show "length (db_events demoDb3) = 2" by code_simp
qed



text \<open>
  C3. Optimistic concurrency. Once an append at expected head \<open>h\<close> has landed, no writer that still
  expects a head below the new one gets a new request in, whatever steps came in between and whatever
  epoch, batch and failing statements it has: of two writers that read the same head at most one wins.
\<close>

theorem stale_writer_rejected:
  assumes "storeInv sha d"
    and "appendTx c sha flt now (Some t) sid h epoch req blob evs d = Inr (envs, d1)"
    and "\<forall>e \<in> set (pgHistory t sid d). er_request e \<noteq> req"
    and "storeSteps c sha d1 d2"
    and "\<forall>e \<in> set (pgHistory t sid d2). er_request e \<noteq> req'"
    and "h' < h + int (length evs)"
  shows "\<not> isOk (appendTx c sha flt' now' (Some t) sid h' epoch' req' blob' evs' d2)"
proof
  assume "isOk (appendTx c sha flt' now' (Some t) sid h' epoch' req' blob' evs' d2)"
  then obtain envs' d3 where ok: "appendTx c sha flt' now' (Some t) sid h' epoch' req' blob' evs' d2 = Inr (envs', d3)"
    by (auto simp: isOk_iff)
  have inv1: "storeInv sha d1" and inv2: "storeInv sha d2"
    using appendTx_inv assms(1,2) storeSteps_inv [OF assms(4)] by blast+
  have "pgHead t sid d1 = Some (h + int (length evs))"
    using pg.extends [OF assms(1) pgAppend_of_tx [OF assms(2)] assms(3)] by simp
  then obtain k where "k \<ge> h + int (length evs)" "pgHead t sid d2 = Some k"
    using steps_head_mono [OF assms(4) inv1] by blast
  moreover have "pgHead t sid d2 = Some h'"
    using pg.extends [OF inv2 pgAppend_of_tx [OF ok] assms(5)] by simp
  ultimately show False using assms(6) by simp
qed

theorem stale_writer_rejected_witness:
  "\<not> isOk (appendTx demoCodec demoSha noFaults 9 (Some ''t'') ''s'' 0 0 ''other'' None [demoInput ''zz''] demoDb3)"
proof -
  obtain envs where a: "appendTx demoCodec demoSha noFaults 6 (Some ''t'') ''s'' 0 0 ''q'' None
     [demoInput ''ab'', demoInput ''cd''] demoDb2 = Inr (envs, demoDb3)"
    using isOk_stateOf [OF demoDb3_eq] by (auto simp: demoDb3_def)
  have 1: "\<forall>e \<in> set (pgHistory ''t'' ''s'' demoDb2). er_request e \<noteq> ''q''" by code_simp
  have 2: "\<forall>e \<in> set (pgHistory ''t'' ''s'' demoDb3). er_request e \<noteq> ''other''" by code_simp
  show ?thesis by (rule stale_writer_rejected [OF demo_inv(1) a 1 stepsNone 2]) simp
qed

lemma rowEnvelope_seqs:
  "length es = length inps \<Longrightarrow> map envSeq (map2 (rowEnvelope t) (batchRows c sha now t sid req seq g x prev inps) es) =
     [seq .. seq + int (length inps) - 1]"
  "length es = length inps \<Longrightarrow> map envEvent (map2 (rowEnvelope t) (batchRows c sha now t sid req seq g x prev inps) es) = es"
proof -
  assume len: "length es = length inps"
  have "map envSeq (map2 (rowEnvelope t) rows es) = map er_seq rows"
    if "length rows = length es" for rows
    using that by (induction rows es rule: list_induct2) (auto simp: rowEnvelope_def)
  with len show "map envSeq (map2 (rowEnvelope t) (batchRows c sha now t sid req seq g x prev inps) es) =
     [seq .. seq + int (length inps) - 1]" by (simp add: batchRows_fields)
  have "map envEvent (map2 (rowEnvelope t) rows es) = es" if "length rows = length es" for rows
    using that by (induction rows es rule: list_induct2) (auto simp: rowEnvelope_def)
  with len show "map envEvent (map2 (rowEnvelope t) (batchRows c sha now t sid req seq g x prev inps) es) = es"
    by (simp add: batchRows_fields)
qed

text \<open>
  C4. Without infrastructure failures, an append of a new request that encodes and references no blob
  has exactly one outcome, decided by the session row the tenant sees: no such row or a row that is not
  active is \<open>SessionNotActiveError\<close>; a lease epoch other than the writer's is \<open>FencedError\<close>, even when the
  expected head is current; another head is \<open>ConflictError\<close>; otherwise the append succeeds and returns
  the batch, numbered from \<open>h + 1\<close>.
\<close>

theorem append_outcome:
  assumes inv: "storeInv sha d" and "t \<noteq> ''''" and "evs \<noteq> []"
    and fresh: "\<forall>e \<in> set (pgHistory t sid d). er_request e \<noteq> req"
    and evs: "\<forall>inp \<in> set evs. cMarshal c (aiEvent inp) \<noteq> None \<and> eventBlobRef (aiEvent inp) = ''''"
  shows "case findSession t sid d of
      None \<Rightarrow> Append c sha noFaults now (Some t) sid h epoch req evs d = Inl SessionNotActiveError
    | Some r \<Rightarrow>
        if sr_status r \<noteq> StatusActive
        then Append c sha noFaults now (Some t) sid h epoch req evs d = Inl SessionNotActiveError
        else if sr_lease_epoch r \<noteq> epoch
        then Append c sha noFaults now (Some t) sid h epoch req evs d = Inl FencedError
        else if sr_head_seq r \<noteq> h
        then Append c sha noFaults now (Some t) sid h epoch req evs d = Inl ConflictError
        else \<exists>envs d'. Append c sha noFaults now (Some t) sid h epoch req evs d = Inr (envs, d') \<and>
               map envEvent envs = map aiEvent evs \<and> map envSeq envs = [h + 1 .. h + int (length evs)]"
proof -
  have "selectEvents t sid (\<lambda>r. er_request r = req) d = []" using fresh pgHistory_request by blast
  then have tx: "Append c sha noFaults now (Some t) sid h epoch req evs d =
      appendGated c sha noFaults now t sid h epoch req None evs d"
    using assms(2,3) by (simp add: Append_def appendTx_def TenantFromContext_def beginTenantTx_def loadByRequestID_def)
  have dist: "distinct (map sr_id (db_sessions d))" using inv by (simp add: storeInv_def)
  have closed: "appendGated c sha noFaults now t sid h epoch req None evs d = Inl (classifyAppendFailure noFaults t sid epoch d)"
    if "\<not> (\<exists>r \<in> set (visibleSessions t d). gateMatches sid h epoch r)"
    using that by (simp add: appendGated_def gateUpdate_def)
  show ?thesis
  proof (cases "findSession t sid d")
    case None
    then have "\<not> (\<exists>r \<in> set (visibleSessions t d). gateMatches sid h epoch r)"
      by (auto simp: findSession_None visibleSessions_def gateMatches_def)
    with None closed show ?thesis by (simp add: tx classifyAppendFailure_def noFaults_def)
  next
    case (Some r)
    note r = findSession_Some [OF Some]
    show ?thesis
    proof (cases "gateMatches sid h epoch r")
      case True
      obtain envs d' where ok: "appendGated c sha noFaults now t sid h epoch req None evs d = Inr (envs, d')"
        using appendGated_ok [OF inv Some True evs] by blast
      have "map envEvent envs = map aiEvent evs \<and> map envSeq envs = [h + 1 .. h + int (length evs)]"
        by (rule gated_history [OF inv assms(3) ok]) (simp only: rowEnvelope_seqs length_map, simp)
      with Some True ok show ?thesis by (simp add: tx gateMatches_def)
    next
      case False
      then have "\<not> (\<exists>s \<in> set (visibleSessions t d). gateMatches sid h epoch s)"
        using r unique_session [OF dist, of _ r] by (fastforce simp: visibleSessions_def gateMatches_def)
      with Some False closed r show ?thesis by (simp add: tx classifyAppendFailure_def noFaults_def gateMatches_def)
    qed
  qed
qed

theorem append_outcome_witness:
  "Append demoCodec demoSha noFaults 9 (Some ''t'') ''s'' 2 1 ''new'' [demoInput ''zz''] demoDb3 = Inl FencedError"
proof -
  have 1: "\<forall>e \<in> set (pgHistory ''t'' ''s'' demoDb3). er_request e \<noteq> ''new''" by code_simp
  have 2: "map_option sr_status (findSession ''t'' ''s'' demoDb3) = Some StatusActive"
    "map_option sr_lease_epoch (findSession ''t'' ''s'' demoDb3) = Some 0" by code_simp+
  have "''t'' \<noteq> ''''" "[demoInput ''zz''] \<noteq> []"
    "\<forall>inp \<in> set [demoInput ''zz'']. cMarshal demoCodec (aiEvent inp) \<noteq> None \<and> eventBlobRef (aiEvent inp) = ''''"
    by (simp_all add: demoInput_def demoCodec_def eventBlobRef_def)
  from append_outcome [OF demo_inv(2) this(1,2) 1 this(3), of 9 2 1] 2
  show ?thesis by (auto split: option.splits)
qed

lemma beginTenantTx_bind:
  "andThen (beginTenantTx flt (Some u)) f = andThen (beginTenantTx flt (Some u)) (\<lambda>_. f u)"
  by (simp add: beginTenantTx_def TenantFromContext_def andThen_def split: sum.splits)

lemma LoadSession_bind:
  "LoadSession flt (Some u) sid d = andThen (beginTenantTx flt (Some u)) (\<lambda>_.
     andThen (loadSessionTx flt u sid d) (\<lambda>s. andThen (runStmt flt SCommit) (\<lambda>_. Inr s)))"
  unfolding LoadSession_def by (rule beginTenantTx_bind)

text \<open>
  C5. Tenant isolation. A step that runs for tenant \<open>t\<close> changes nothing that another tenant \<open>u\<close> can read:
  the session rows and event rows visible to \<open>u\<close> stay the same, and so does the result of every read
  of \<open>u\<close>: loading events, loading a session and verifying a chain.
\<close>

theorem tenant_isolation:
  assumes "storeInv sha d" and "storeStep c sha (Some t) d d'" and "u \<noteq> t"
  shows "visibleSessions u d' = visibleSessions u d \<and> visibleEvents u d' = visibleEvents u d \<and>
    Load c flt (Some u) sid k d' = Load c flt (Some u) sid k d \<and>
    LoadRange c flt (Some u) sid k n d' = LoadRange c flt (Some u) sid k n d \<and>
    LoadUpTo c flt (Some u) sid k d' = LoadUpTo c flt (Some u) sid k d \<and>
    LoadSession flt (Some u) sid d' = LoadSession flt (Some u) sid d \<and>
    VerifyChainIntegrity c sha flt (Some u) sid k k' d' = VerifyChainIntegrity c sha flt (Some u) sid k k' d"
proof -
  have s: "visibleSessions u d' = visibleSessions u d" and e: "visibleEvents u d' = visibleEvents u d"
    using step_other_tenant [OF assms] by auto
  have sel: "selectEvents u sid p d' = selectEvents u sid p d" for p by (simp add: selectEvents_def e)
  have f: "findSession u sid d' = findSession u sid d" by (simp add: findSession_def s)
  have "LoadSession flt (Some u) sid d' = LoadSession flt (Some u) sid d"
    by (simp add: LoadSession_bind loadSessionTx_def f)
  moreover have "Load c flt (Some u) sid k d' = Load c flt (Some u) sid k d"
    "LoadRange c flt (Some u) sid k n d' = LoadRange c flt (Some u) sid k n d"
    "LoadUpTo c flt (Some u) sid k d' = LoadUpTo c flt (Some u) sid k d"
    by (simp_all add: Load_def LoadRange_def LoadUpTo_def readEvents_def TenantFromContext_def sel)
  moreover have "VerifyChainIntegrity c sha flt (Some u) sid k k' d' = VerifyChainIntegrity c sha flt (Some u) sid k k' d"
    by (simp only: VerifyChainIntegrity_def TenantFromContext_def option.case andThen_simps if_distrib [of "\<lambda>r. andThen r _"]
        f sel verifySeedPrev_def priorChain_def)
  ultimately show ?thesis using s e by simp
qed

theorem tenant_isolation_witness:
  "visibleSessions ''u'' demoDb3 = visibleSessions ''u'' demoDb2 \<and> visibleSessions ''t'' demoDb3 \<noteq> visibleSessions ''t'' demoDb2"
proof
  obtain envs where a: "appendTx demoCodec demoSha noFaults 6 (Some ''t'') ''s'' 0 0 ''q'' None
     [demoInput ''ab'', demoInput ''cd''] demoDb2 = Inr (envs, demoDb3)"
    using isOk_stateOf [OF demoDb3_eq] by (auto simp: demoDb3_def)
  show "visibleSessions ''u'' demoDb3 = visibleSessions ''u'' demoDb2"
    using tenant_isolation [OF demo_inv(1) stAppend [OF a], of "''u''"] by simp
  have "map sr_head_seq (visibleSessions ''t'' demoDb3) \<noteq> map sr_head_seq (visibleSessions ''t'' demoDb2)" by code_simp
  then show "visibleSessions ''t'' demoDb3 \<noteq> visibleSessions ''t'' demoDb2" by auto
qed



lemma appendGated_epochs:
  assumes "storeInv sha d" "appendGated c sha flt now t sid h epoch req blob evs d = Inr (envs, d')"
    and zero: "\<forall>r \<in> set (db_sessions d). sr_lease_epoch r = 0"
  shows "\<forall>r \<in> set (db_sessions d'). sr_lease_epoch r = 0"
proof -
  have dist: "distinct (map sr_id (db_sessions d))" using assms(1) by (simp add: storeInv_def)
  show ?thesis
    by (rule appendGated_Inr [OF assms(2) dist]) (use zero in \<open>auto simp: advancedRow_def\<close>)
qed

lemma step_epochs:
  assumes inv: "storeInv sha d" and "storeStep c sha cx d d'" and "\<forall>r \<in> set (db_sessions d). sr_lease_epoch r = 0"
  shows "\<forall>r \<in> set (db_sessions d'). sr_lease_epoch r = 0"
  using assms(2)
proof cases
  case stAppend
  then show ?thesis
    by (rule appendTx_cases) (use assms(3) appendGated_epochs [OF inv _ assms(3)] in blast)+
next
  case stTenant
  then have "db_sessions d' = db_sessions d"
    by (auto simp: CreateTenant_def andThen_Inr_iff Let_def commitTx_def)
  then show ?thesis using assms(3) by simp
next
  case stSession
  then show ?thesis
    by (rule CreateSession_Inr) (use assms(3) in \<open>auto simp: commitTx_def dest!: insertSession_Inr\<close>)
next
  case stStatus
  then show ?thesis
    by (rule SetSessionStatus_Inr) (use assms(3) in \<open>auto simp: commitTx_def updateSessions_def\<close>)
next
  case stFork
  then show ?thesis
    by (rule Fork_Inr) (use assms(3) in \<open>auto simp: commitTx_def dest!: insertSession_Inr\<close>)
qed



end
