(* ===== verification/DevStore.thy ===== *)
theory DevStore
  imports EventLogProps "HOL-Library.AList" "HOL-Library.Product_Lexorder"
begin

text \<open>
  The in-memory event store of the development binary, \<^verbatim>\<open>cmd/boltrope-dev/eventstore.go\<close> and
  \<^verbatim>\<open>read_methods.go\<close>: sessions, aggregates, chain heads and tail channels behind one mutex, so every
  operation is one function of the store. A Go map is an association list. The tail channels hold at most
  256 envelopes and a full one drops what is sent to it; the goroutine of a subscription is a state of its
  own that takes steps between the operations of the store.
\<close>

section \<open>State\<close>

record Tail =
  tlID :: nat
  tlSession :: string
  tlQueue :: "EventEnvelope list"

record DevStore =
  dvSessions :: "(string \<times> EventEnvelope list) list"
  dvAggregates :: "(string \<times> Session) list"
  dvSubscribers :: "Tail list"
  dvChainHead :: "(string \<times> bytes) list"

definition newStore :: DevStore where
  "newStore = \<lparr>dvSessions = [], dvAggregates = [], dvSubscribers = [], dvChainHead = []\<rparr>"

definition devEvents :: "string \<Rightarrow> DevStore \<Rightarrow> EventEnvelope list" where
  "devEvents sid s = (case map_of (dvSessions s) sid of None \<Rightarrow> [] | Some es \<Rightarrow> es)"

section \<open>Writing\<close>

definition DevCreateSession :: "string \<Rightarrow> PermissionMode \<Rightarrow> DevStore \<Rightarrow> DevStore \<times> Session" where
  "DevCreateSession sid mode s =
     (case map_of (dvAggregates s) sid of
        Some agg \<Rightarrow> (s, agg)
      | None \<Rightarrow>
          (let agg = zeroSession\<lparr>sID := sid, sStatus := StatusActive, sMode := OrDefault mode, sHeadSeq := 0\<rparr> in
           (s\<lparr>dvAggregates := AList.update sid agg (dvAggregates s)\<rparr>, agg)))"

definition tailCapacity :: nat where "tailCapacity = 256"

definition fanout :: "string \<Rightarrow> EventEnvelope \<Rightarrow> DevStore \<Rightarrow> DevStore" where
  "fanout sid env s = s\<lparr>dvSubscribers :=
     map (\<lambda>t. if tlSession t = sid \<and> length (tlQueue t) < tailCapacity then t\<lparr>tlQueue := tlQueue t @ [env]\<rparr> else t)
       (dvSubscribers s)\<rparr>"

definition devEnvelope :: "hashfun \<Rightarrow> string \<Rightarrow> string \<Rightarrow> int \<Rightarrow> bytes \<Rightarrow> AppendInput \<Rightarrow> bytes \<Rightarrow> EventEnvelope" where
  "devEnvelope sha sid req q prev e payload =
     \<lparr>envType = eventType (aiEvent e), envSeq = q, envSessionID = sid, envTenantID = '''', envRequestID = req,
      envSchemaVersion = 0, envActor = aiActor e, envCreatedAt = 0, envEvent = aiEvent e,
      envPayloadCanonical = Some payload, envContentHash = Some (ContentHash sha payload),
      envChainHash = Some (ChainHash sha prev (ContentHash sha payload))\<rparr>"

text \<open>The loop over the batch; on a marshalling error what was appended before stays.\<close>

fun devAppendLoop ::
  "codec \<Rightarrow> hashfun \<Rightarrow> string \<Rightarrow> string \<Rightarrow> Session \<Rightarrow> bytes \<Rightarrow> AppendInput list \<Rightarrow> EventEnvelope list \<Rightarrow> DevStore
    \<Rightarrow> DevStore \<times> (store_error + EventEnvelope list)" where
  "devAppendLoop c sha sid req agg prev [] envs s =
     (s\<lparr>dvChainHead := AList.update sid prev (dvChainHead s)\<rparr>, Inr envs)"
| "devAppendLoop c sha sid req agg prev (e # es) envs s =
     (let agg' = agg\<lparr>sHeadSeq := sHeadSeq agg + 1\<rparr>;
          s1 = s\<lparr>dvAggregates := AList.update sid agg' (dvAggregates s)\<rparr> in
      case MarshalEventPayload c (aiEvent e) of
        Inl err \<Rightarrow> (s1, Inl err)
      | Inr payload \<Rightarrow>
          (let env = devEnvelope sha sid req (sHeadSeq agg') prev e payload;
               s2 = fanout sid env (s1\<lparr>dvSessions := AList.update sid (devEvents sid s1 @ [env]) (dvSessions s1)\<rparr>) in
           devAppendLoop c sha sid req agg' (orNil (envChainHash env)) es (envs @ [env]) s2))"

definition DevAppend ::
  "codec \<Rightarrow> hashfun \<Rightarrow> string \<Rightarrow> int \<Rightarrow> int \<Rightarrow> string \<Rightarrow> AppendInput list \<Rightarrow> DevStore
    \<Rightarrow> DevStore \<times> (store_error + EventEnvelope list)" where
  "DevAppend c sha sid expectedHeadSeq leaseEpoch req events s =
     (let (agg, s1) = (case map_of (dvAggregates s) sid of
            Some a \<Rightarrow> (a, s)
          | None \<Rightarrow> (let a = zeroSession\<lparr>sID := sid, sStatus := StatusActive\<rparr> in
                     (a, s\<lparr>dvAggregates := AList.update sid a (dvAggregates s)\<rparr>)));
          prev = (case map_of (dvChainHead s1) sid of None \<Rightarrow> GenesisChainHash sha sid | Some h \<Rightarrow> h) in
      devAppendLoop c sha sid req agg prev events [] s1)"

definition DevFork :: "string \<Rightarrow> int \<Rightarrow> string \<Rightarrow> DevStore \<Rightarrow> DevStore \<times> Session" where
  "DevFork parentID atSeq newSessionID s =
     (let child = zeroSession\<lparr>sID := newSessionID, sParentID := parentID, sForkedFromSeq := atSeq, sHeadSeq := atSeq,
            sStatus := StatusActive, sMode := (case map_of (dvAggregates s) parentID of Some p \<Rightarrow> sMode p | None \<Rightarrow> ModeUnset)\<rparr> in
      (s\<lparr>dvAggregates := AList.update newSessionID child (dvAggregates s),
         dvSessions := AList.update newSessionID [] (dvSessions s)\<rparr>, child))"

section \<open>Reading\<close>

definition DevLoad :: "string \<Rightarrow> int \<Rightarrow> DevStore \<Rightarrow> EventEnvelope list" where
  "DevLoad sid fromSeq s = filter (\<lambda>e. fromSeq \<le> envSeq e) (devEvents sid s)"

definition DevLoadSession :: "string \<Rightarrow> DevStore \<Rightarrow> Session" where
  "DevLoadSession sid s = (case map_of (dvAggregates s) sid of
     Some agg \<Rightarrow> agg | None \<Rightarrow> zeroSession\<lparr>sID := sid, sStatus := StatusActive\<rparr>)"

definition DevLoadRange :: "string \<Rightarrow> int \<Rightarrow> int \<Rightarrow> DevStore \<Rightarrow> EventEnvelope list" where
  "DevLoadRange sid afterSeq limit s =
     (let out = filter (\<lambda>e. afterSeq < envSeq e) (devEvents sid s) in if 0 < limit then take (nat limit) out else out)"

definition DevLoadUpTo :: "string \<Rightarrow> int \<Rightarrow> DevStore \<Rightarrow> EventEnvelope list" where
  "DevLoadUpTo sid atSeq s = filter (\<lambda>e. envSeq e \<le> atSeq) (devEvents sid s)"

record ListSessionsQuery =
  lqStatuses :: "SessionStatus list"
  lqCreatedAfter :: int
  lqCreatedBefore :: int
  lqCursorCreatedAt :: int
  lqCursorID :: string
  lqLimit :: int
  lqDescending :: bool

definition sessionLess :: "Session \<Rightarrow> Session \<Rightarrow> bool" where
  "sessionLess a b \<longleftrightarrow> (if sCreatedAt a \<noteq> sCreatedAt b then sCreatedAt a < sCreatedAt b else sID a < sID b)"

definition listsSession :: "ListSessionsQuery \<Rightarrow> Session \<Rightarrow> bool" where
  "listsSession q sess \<longleftrightarrow>
     (lqStatuses q = [] \<or> sStatus sess \<in> set (lqStatuses q)) \<and>
     (lqCreatedAfter q = 0 \<or> \<not> sCreatedAt sess < lqCreatedAfter q) \<and>
     (lqCreatedBefore q = 0 \<or> sCreatedAt sess < lqCreatedBefore q)"

definition sortSessions :: "bool \<Rightarrow> Session list \<Rightarrow> Session list" where
  "sortSessions desc rows =
     (let up = sort_key (\<lambda>sess. (sCreatedAt sess, sID sess)) rows in if desc then rev up else up)"

definition afterCursor :: "ListSessionsQuery \<Rightarrow> Session \<Rightarrow> bool" where
  "afterCursor q sess =
     (let cur = zeroSession\<lparr>sID := lqCursorID q, sCreatedAt := lqCursorCreatedAt q\<rparr> in
      if lqDescending q then sessionLess sess cur else sessionLess cur sess)"

definition DevListSessions :: "ListSessionsQuery \<Rightarrow> DevStore \<Rightarrow> Session list" where
  "DevListSessions q s =
     (let rows = sortSessions (lqDescending q) (filter (listsSession q) (map snd (dvAggregates s)));
          rows1 = (if lqCursorID q \<noteq> '''' then filter (afterCursor q) rows else rows) in
      if 0 < lqLimit q \<and> lqLimit q < int (length rows1) then take (nat (lqLimit q)) rows1 else rows1)"

section \<open>Verifying\<close>

definition devVerifySeedPrev :: "hashfun \<Rightarrow> EventEnvelope list \<Rightarrow> string \<Rightarrow> int \<Rightarrow> bytes" where
  "devVerifySeedPrev sha all sid firstChainedSeq =
     (if firstChainedSeq \<le> 1 then GenesisChainHash sha sid
      else case find (\<lambda>e. envSeq e = firstChainedSeq - 1) all of
        None \<Rightarrow> GenesisChainHash sha sid
      | Some e \<Rightarrow> (case envChainHash e of None \<Rightarrow> GenesisChainHash sha sid | Some h \<Rightarrow> h))"

fun devVerifyLoop :: "codec \<Rightarrow> hashfun \<Rightarrow> bytes \<Rightarrow> nat \<Rightarrow> EventEnvelope list \<Rightarrow> store_error + ChainVerification" where
  "devVerifyLoop c sha prev checked [] =
     Inr \<lparr>cvValid = True, cvFirstBadSeq = 0, cvReason = '''', cvChecked = checked\<rparr>"
| "devVerifyLoop c sha prev checked (e # es) =
     andThen (case envPayloadCanonical e of None \<Rightarrow> MarshalEventPayload c (envEvent e) | Some b \<Rightarrow> Inr b) (\<lambda>canonical.
     if ContentHash sha canonical \<noteq> orNil (envContentHash e)
     then Inr \<lparr>cvValid = False, cvFirstBadSeq = envSeq e,
            cvReason = ''content-hash mismatch at seq '' @ FormatInt (envSeq e) @ '' (payload tampered)'', cvChecked = checked\<rparr>
     else if ChainHash sha prev (ContentHash sha canonical) \<noteq> orNil (envChainHash e)
     then Inr \<lparr>cvValid = False, cvFirstBadSeq = envSeq e,
            cvReason = ''broken link: chain-hash mismatch at seq '' @ FormatInt (envSeq e), cvChecked = checked\<rparr>
     else devVerifyLoop c sha (orNil (envChainHash e)) (checked + 1) es)"

definition DevVerifyChainIntegrity ::
  "codec \<Rightarrow> hashfun \<Rightarrow> string \<Rightarrow> int \<Rightarrow> int \<Rightarrow> DevStore \<Rightarrow> store_error + ChainVerification" where
  "DevVerifyChainIntegrity c sha sid fromSeq toSeq s =
     (let all = devEvents sid s;
          head = (if all = [] then 0 else envSeq (last all));
          lo = (if fromSeq \<le> 0 then 1 else fromSeq);
          hi = (if toSeq \<le> 0 \<or> head < toSeq then head else toSeq) in
      if hi < lo then Inr vacuouslyValid
      else
        case dropWhile (\<lambda>e. envContentHash e = None) (filter (\<lambda>e. lo \<le> envSeq e \<and> envSeq e \<le> hi) all) of
          [] \<Rightarrow> Inr vacuouslyValid
        | e # es \<Rightarrow> devVerifyLoop c sha (devVerifySeedPrev sha all sid (envSeq e)) 0 (e # es))"

section \<open>Costs\<close>

record ModelCostRow =
  mcModel :: string
  mcCostUSD :: cost
  mcUsage :: Usage
  mcTurns :: int

definition modelByTurn :: "EventEnvelope list \<Rightarrow> string \<times> string \<Rightarrow> string" where
  "modelByTurn events k =
     (case map_of (rev (concat (map (\<lambda>env. case envEvent env of
          TurnStarted turn model \<Rightarrow> [((envSessionID env, turn), model)] | _ \<Rightarrow> []) events))) k of
        None \<Rightarrow> '''' | Some m \<Rightarrow> m)"

definition addModelCost :: "string \<Rightarrow> cost \<Rightarrow> Usage \<Rightarrow> (string \<times> ModelCostRow) list \<Rightarrow> (string \<times> ModelCostRow) list" where
  "addModelCost model c u rows =
     (let r = (case map_of rows model of None \<Rightarrow> \<lparr>mcModel = model, mcCostUSD = 0, mcUsage = zeroUsage, mcTurns = 0\<rparr> | Some r \<Rightarrow> r) in
      AList.update model (r\<lparr>mcCostUSD := mcCostUSD r + c, mcUsage := addUsage (mcUsage r) u, mcTurns := mcTurns r + 1\<rparr>) rows)"

fun foldModelCost :: "(string \<times> string \<Rightarrow> string) \<Rightarrow> EventEnvelope list \<Rightarrow> (string \<times> ModelCostRow) list \<Rightarrow> (string \<times> ModelCostRow) list" where
  "foldModelCost modelOf [] rows = rows"
| "foldModelCost modelOf (env # events) rows =
     foldModelCost modelOf events (case envEvent env of
         TurnFinished turn _ u c _ \<Rightarrow> addModelCost (modelOf (envSessionID env, turn)) c u rows
       | TurnAborted turn _ u c \<Rightarrow> addModelCost (modelOf (envSessionID env, turn)) c u rows
       | _ \<Rightarrow> rows)"

definition devFoldModelCost :: "EventEnvelope list \<Rightarrow> ModelCostRow list" where
  "devFoldModelCost events = sort_key mcModel (map snd (foldModelCost (modelByTurn events) events []))"

definition DevSessionCostByModel :: "string \<Rightarrow> DevStore \<Rightarrow> ModelCostRow list" where
  "DevSessionCostByModel sid s = devFoldModelCost (devEvents sid s)"

definition DevTenantCostByModel :: "DevStore \<Rightarrow> ModelCostRow list" where
  "DevTenantCostByModel s = devFoldModelCost (concat (map snd (dvSessions s)))"

definition bearsCost :: "event \<Rightarrow> bool" where
  "bearsCost ev = (case ev of TurnFinished _ _ _ _ _ \<Rightarrow> True | TurnAborted _ _ _ _ \<Rightarrow> True | _ \<Rightarrow> False)"

definition DevTenantSessionCostCount :: "DevStore \<Rightarrow> int" where
  "DevTenantSessionCostCount s = int (length (filter (\<lambda>(_, evs). list_ex (bearsCost \<circ> envEvent) evs) (dvSessions s)))"

section \<open>Subscribing\<close>

text \<open>The state of a subscription's goroutine: what it still replays, the last sequence number sent, what was sent.\<close>

record Subscription =
  sbTail :: nat
  sbSession :: string
  sbFrom :: int
  sbReplay :: "EventEnvelope list"
  sbSeen :: int
  sbOut :: "EventEnvelope list"

definition DevSubscribe :: "nat \<Rightarrow> string \<Rightarrow> int \<Rightarrow> DevStore \<Rightarrow> DevStore \<times> Subscription" where
  "DevSubscribe tid sid fromSeq s =
     (s\<lparr>dvSubscribers := dvSubscribers s @ [\<lparr>tlID = tid, tlSession = sid, tlQueue = []\<rparr>]\<rparr>,
      \<lparr>sbTail = tid, sbSession = sid, sbFrom = fromSeq, sbReplay = filter (\<lambda>e. fromSeq < envSeq e) (devEvents sid s),
       sbSeen = fromSeq, sbOut = []\<rparr>)"

definition unsubscribe :: "nat \<Rightarrow> DevStore \<Rightarrow> DevStore" where
  "unsubscribe tid s = s\<lparr>dvSubscribers := filter (\<lambda>t. tlID t \<noteq> tid) (dvSubscribers s)\<rparr>"

definition deliver :: "EventEnvelope \<Rightarrow> Subscription \<Rightarrow> Subscription" where
  "deliver e sub = sub\<lparr>sbOut := sbOut sub @ [e], sbSeen := envSeq e\<rparr>"

text \<open>One step of the goroutine; with nothing to replay and an empty tail it waits.\<close>

definition pump :: "DevStore \<Rightarrow> Subscription \<Rightarrow> DevStore \<times> Subscription" where
  "pump s sub =
     (case sbReplay sub of
        e # es \<Rightarrow> (s, deliver e (sub\<lparr>sbReplay := es\<rparr>))
      | [] \<Rightarrow>
          (case find (\<lambda>t. tlID t = sbTail sub) (dvSubscribers s) of
             None \<Rightarrow> (s, sub)
           | Some t \<Rightarrow>
               (case tlQueue t of
                  [] \<Rightarrow> (s, sub)
                | e # q \<Rightarrow>
                    (s\<lparr>dvSubscribers := map (\<lambda>t. if tlID t = sbTail sub then t\<lparr>tlQueue := q\<rparr> else t) (dvSubscribers s)\<rparr>,
                     if envSeq e \<le> sbSeen sub then sub else deliver e sub))))"

end
