(* ===== verification/ChainVerify.thy ===== *)
theory ChainVerify
  imports EventLogProps
begin

text \<open>
  What \<^verbatim>\<open>VerifyChainIntegrity\<close> shows about a session: it accepts every log the store writes, a log it
  accepts with the same last link holds the same payloads unless SHA-256 collides on the bytes of the
  two logs, and what it does not see.
\<close>

section \<open>Definitions\<close>

definition canonicals :: "EventEnvelope list \<Rightarrow> bytes list" where
  "canonicals es = map (\<lambda>e. orNil (envPayloadCanonical e)) es"

definition clearedDb :: db where
  "clearedDb = demoDb3\<lparr>db_events := map (\<lambda>e. e\<lparr>er_canonical := Some ''forged'', er_content_hash := None, er_chain_hash := None\<rparr>)
     (db_events demoDb3)\<rparr>"

definition seedFault :: faults where
  "seedFault s = (if s = SSeed then Some DriverFault else None)"

section \<open>Windows of a log\<close>

lemma sorted_window_split:
  fixes a b :: int
  assumes "sorted (map f xs)" "a \<le> b + 1"
  shows "filter (\<lambda>x. f x < a) xs @ filter (\<lambda>x. a \<le> f x \<and> f x \<le> b) xs @ filter (\<lambda>x. b < f x) xs = xs"
  using assms
proof (induction xs)
  case (Cons x xs)
  then have IH: "filter (\<lambda>x. f x < a) xs @ filter (\<lambda>x. a \<le> f x \<and> f x \<le> b) xs @ filter (\<lambda>x. b < f x) xs = xs"
    and le: "\<forall>y \<in> set xs. f x \<le> f y" by auto
  have low: "filter (\<lambda>x. f x < a) xs = []" if "a \<le> f x"
    using le that by (fastforce simp: filter_empty_conv)
  have mid: "filter (\<lambda>x. a \<le> f x \<and> f x \<le> b) xs = []" if "b < f x"
    using le that by (fastforce simp: filter_empty_conv)
  consider "f x < a" | "a \<le> f x" "f x \<le> b" | "b < f x" by linarith
  then show ?case
  proof cases
    case 1
    then show ?thesis using IH Cons.prems(2) by simp
  next
    case 2
    then show ?thesis using IH low by simp
  next
    case 3
    then show ?thesis using IH low mid Cons.prems(2) by simp
  qed
qed simp

lemma upto_adjacent: "xs @ a # b # ys = [l .. h] \<Longrightarrow> (b :: int) = a + 1"
proof -
  assume eq: "xs @ a # b # ys = [l .. h]"
  have len: "length xs + 1 < length [l .. h]" unfolding eq [symmetric] by simp
  have "a = l + int (length xs)" "b = l + int (length xs + 1)"
    using len arg_cong [OF eq, of "\<lambda>zs. zs ! length xs"] arg_cong [OF eq, of "\<lambda>zs. zs ! (length xs + 1)"]
    by (simp_all add: nth_append nth_upto)
  then show ?thesis by simp
qed

lemma filter_key_single: "distinct (map f xs) \<Longrightarrow> x \<in> set xs \<Longrightarrow> filter (\<lambda>y. f y = f x) xs = [x]"
  by (induction xs) (auto simp: filter_empty_conv image_iff)

lemma scanEnvelopes_rows: "scanEnvelopes c t rs = Inr es \<Longrightarrow> list_all2 (\<lambda>r e. \<exists>x. e = rowEnvelope t r x) rs es"
  by (induction rs arbitrary: es) (auto simp: andThen_Inr_iff scanEnvelope_def rowEnvelope_def)

lemma verifyLoop_chained:
  "chained sha prev rs \<Longrightarrow> list_all2 (\<lambda>r e. \<exists>x. e = rowEnvelope t r x) rs es \<Longrightarrow>
     verifyLoop sha prev k es = \<lparr>cvValid = True, cvFirstBadSeq = 0, cvReason = '''', cvChecked = k + length rs\<rparr>"
proof (induction rs arbitrary: prev k es)
  case (Cons r rs)
  then obtain x es' where es: "es = rowEnvelope t r x # es'"
      "list_all2 (\<lambda>r e. \<exists>x. e = rowEnvelope t r x) rs es'"
    by (auto simp: list_all2_Cons1)
  obtain p where p: "er_canonical r = Some p" "er_content_hash r = Some (ContentHash sha p)"
      "er_chain_hash r = Some (ChainHash sha prev (ContentHash sha p))"
      "chained sha (ChainHash sha prev (ContentHash sha p)) rs"
    using Cons.prems(1) by (auto split: option.splits)
  show ?case
    by (simp add: es(1) rowEnvelope_def p(1-3) Cons.IH [OF p(4) es(2)])
qed simp

lemma chained_content: "chained sha prev rs \<Longrightarrow> r \<in> set rs \<Longrightarrow> er_content_hash r \<noteq> None"
  by (induction rs arbitrary: prev) (auto split: option.splits)

text \<open>The seed that the verification reads for the first event of a window is the link the window hangs on.\<close>

lemma verifySeedPrev_window:
  assumes inv: "storeInv sha d" and f: "findSession t sid d = Some r"
    and own: "ownEvents sid d = pre @ w # ws"
  shows "verifySeedPrev sha noFaults t sid (er_seq w) d =
    (if pre = [] then GenesisChainHash sha sid else orNil (er_chain_hash (last pre)))"
proof -
  have r: "sr_id r = sid" "sessionOk sha d r"
    using findSession_Some [OF f] inv by (auto simp: storeInv_def)
  have seqs: "map er_seq (pre @ w # ws) = [forkBase r + 1 .. sr_head_seq r]"
    using r own by (simp add: sessionOk_def)
  have dist: "distinct (map er_seq (ownEvents sid d))" unfolding own seqs by simp
  note sel = selectEvents_own [OF inv f]
  show ?thesis
  proof (cases "pre = []")
    case True
    then have low: "\<forall>e \<in> set (ownEvents sid d). er_seq w \<le> er_seq e"
    proof -
      have "sorted (map er_seq (w # ws))" using seqs True by simp
      then show ?thesis using True by (auto simp: own)
    qed
    then have "filter (\<lambda>e. er_seq e = er_seq w - 1) (ownEvents sid d) = []"
      by (fastforce simp: filter_empty_conv)
    with True show ?thesis by (simp add: verifySeedPrev_def priorChain_def sel noFaults_def)
  next
    case False
    then have split: "pre = butlast pre @ [last pre]" by simp
    then have "map er_seq (butlast pre) @ er_seq (last pre) # er_seq w # map er_seq ws = [forkBase r + 1 .. sr_head_seq r]"
      using seqs by (metis append.assoc append_Cons append_Nil list.simps(8,9) map_append)
    then have adj: "er_seq w = er_seq (last pre) + 1" by (rule upto_adjacent)
    have mem: "last pre \<in> set (ownEvents sid d)" using False own by simp
    have "1 \<le> er_seq (last pre)" using own_seq_bounds(3) [OF r(2)] mem r(1) by simp
    moreover have "filter (\<lambda>e. er_seq e = er_seq w - 1) (ownEvents sid d) = [last pre]"
      using filter_key_single [OF dist mem] by (simp add: adj)
    moreover obtain h where "er_chain_hash (last pre) = Some h"
      using chained_last_Some [of sha _ pre] False r own by (auto simp: sessionOk_def chained_append)
    ultimately show ?thesis
      using False adj by (simp add: verifySeedPrev_def priorChain_def sel noFaults_def)
  qed
qed

lemma verify_window:
  assumes inv: "storeInv sha d" and f: "findSession t sid d = Some r" and "t \<noteq> ''''" and "lo \<le> hi" "0 < lo"
    and hi: "0 < hi" "hi \<le> sr_head_seq r"
    and win: "win = filter (\<lambda>e. lo \<le> er_seq e \<and> er_seq e \<le> hi) (ownEvents sid d)"
    and scan: "scanEnvelopes c t win = Inr envs"
  shows "VerifyChainIntegrity c sha noFaults (Some t) sid lo hi d =
    Inr \<lparr>cvValid = True, cvFirstBadSeq = 0, cvReason = '''', cvChecked = length win\<rparr>"
proof -
  have r: "sr_id r = sid" "sessionOk sha d r"
    using findSession_Some [OF f] inv by (auto simp: storeInv_def)
  have all2: "list_all2 (\<lambda>r e. \<exists>x. e = rowEnvelope t r x) win envs" using scanEnvelopes_rows [OF scan] .
  define pre where "pre = filter (\<lambda>e. er_seq e < lo) (ownEvents sid d)"
  define post where "post = filter (\<lambda>e. hi < er_seq e) (ownEvents sid d)"
  have own: "ownEvents sid d = pre @ win @ post"
    using sorted_window_split [OF ownEvents_sorted [OF r(2)], of lo hi] assms(4) r(1) by (simp add: pre_def post_def win)
  have sel: "selectEvents t sid (\<lambda>r. lo \<le> er_seq r \<and> er_seq r \<le> hi) d = win"
    using selectEvents_own [OF inv f] by (simp add: win)
  have ch: "chained sha (GenesisChainHash sha sid) (pre @ win @ post)" using r own by (simp add: sessionOk_def)
  then have chw: "chained sha (if pre = [] then GenesisChainHash sha sid else orNil (er_chain_hash (last pre))) win"
    by (simp add: chained_append)
  show ?thesis
  proof (cases win)
    case Nil
    then show ?thesis
      using assms(3-7) f scan all2 sel
      by (simp add: VerifyChainIntegrity_def TenantFromContext_def beginTenantTx_def vacuouslyValid_def)
  next
    case (Cons w ws)
    then obtain x e es where e: "envs = e # es" "e = rowEnvelope t w x"
      using all2 by (auto simp: list_all2_Cons1)
    have es: "envSeq e = er_seq w" "envContentHash e = er_content_hash w" by (simp_all add: e(2) rowEnvelope_def)
    have "er_content_hash w \<noteq> None" using chained_content [OF chw] Cons by simp
    then have drop: "dropWhile (\<lambda>e. envContentHash e = None) envs = e # es" by (auto simp: e(1) es)
    have seed: "verifySeedPrev sha noFaults t sid (er_seq w) d =
        (if pre = [] then GenesisChainHash sha sid else orNil (er_chain_hash (last pre)))"
      by (rule verifySeedPrev_window [OF inv f]) (simp add: own Cons)
    have "verifyLoop sha (verifySeedPrev sha noFaults t sid (envSeq e) d) 0 (e # es) =
        \<lparr>cvValid = True, cvFirstBadSeq = 0, cvReason = '''', cvChecked = length win\<rparr>"
      unfolding es(1) seed using verifyLoop_chained [OF chw all2, of 0] unfolding e(1)
      by (simp del: verifyLoop.simps)
    then show ?thesis
      using assms(3-7) f scan sel drop
      by (simp add: VerifyChainIntegrity_def TenantFromContext_def beginTenantTx_def Let_def del: verifyLoop.simps)
  qed
qed

section \<open>Accepted logs\<close>

lemma scanEnvelopes_filter: "scanEnvelopes c t rs = Inr es \<Longrightarrow> \<exists>fs. scanEnvelopes c t (filter p rs) = Inr fs"
  by (induction rs arbitrary: es) (fastforce simp: andThen_Inr_iff)+

lemma scanEnvelopes_length: "scanEnvelopes c t rs = Inr es \<Longrightarrow> length es = length rs"
  using list_all2_lengthD [OF scanEnvelopes_rows] by simp

lemma Load_Inr:
  "Load c noFaults (Some t) sid k d = Inr es \<Longrightarrow>
     t \<noteq> '''' \<and> scanEnvelopes c t (selectEvents t sid (\<lambda>r. k \<le> er_seq r) d) = Inr es"
  by (auto simp: Load_def readEvents_def andThen_Inr_iff TenantFromContext_def split: if_splits)

lemma verifyLoop_valid:
  "cvValid (verifyLoop sha prev k es) \<Longrightarrow> cvChecked (verifyLoop sha prev k es) = k + length es \<and>
     (es \<noteq> [] \<longrightarrow> orNil (envChainHash (last es)) = chainFold sha prev (canonicals es))"
proof (induction sha prev k es rule: verifyLoop.induct)
  case (2 sha prev k e es)
  then obtain p where p: "envPayloadCanonical e = Some p" "ContentHash sha p = orNil (envContentHash e)"
      "ChainHash sha prev (ContentHash sha p) = orNil (envChainHash e)"
      "cvValid (verifyLoop sha (ChainHash sha prev (ContentHash sha p)) (k + 1) es)"
    by (auto simp: Let_def split: option.splits if_splits)
  from "2.IH" [OF p(1) _ refl _ p(4)] p(2,3)
  show ?case by (auto simp: p(1) Let_def canonicals_def)
qed (simp add: canonicals_def)

lemma chained_fold:
  "chained sha prev rs \<Longrightarrow> rs \<noteq> [] \<Longrightarrow> orNil (er_chain_hash (last rs)) = chainFold sha prev (map (\<lambda>r. orNil (er_canonical r)) rs)"
proof (induction rs arbitrary: prev)
  case (Cons r rs)
  then show ?case by (cases "rs = []") (auto split: option.splits)
qed simp

lemma list_all2_in: "list_all2 P xs ys \<Longrightarrow> x \<in> set xs \<Longrightarrow> \<exists>y \<in> set ys. P x y"
  by (induction rule: list_all2_induct) auto

lemma selectEvents_upto:
  assumes rows: "list_all2 (\<lambda>r e. \<exists>x. e = rowEnvelope t r x) (selectEvents t sid (\<lambda>r. 1 \<le> er_seq r) d) es"
    and le: "\<forall>e \<in> set es. envSeq e \<le> h"
  shows "selectEvents t sid (\<lambda>e. 1 \<le> er_seq e \<and> er_seq e \<le> h) d = selectEvents t sid (\<lambda>e. 1 \<le> er_seq e) d"
proof -
  have "er_seq e \<le> h" if mem: "e \<in> set (selectEvents t sid (\<lambda>r. 1 \<le> er_seq r) d)" for e
  proof -
    obtain x where "rowEnvelope t e x \<in> set es" using list_all2_in [OF rows mem] by blast
    with le have "envSeq (rowEnvelope t e x) \<le> h" by blast
    then show ?thesis by (simp add: rowEnvelope_def)
  qed
  then have "filter (\<lambda>e. er_session e = sid \<and> 1 \<le> er_seq e \<and> er_seq e \<le> h) (visibleEvents t d) =
      filter (\<lambda>e. er_session e = sid \<and> 1 \<le> er_seq e) (visibleEvents t d)"
    by (intro filter_cong) (auto simp: selectEvents_def)
  then show ?thesis by (simp add: selectEvents_def)
qed

lemma verify_full_window:
  assumes "findSession t sid d = Some r" "Load c noFaults (Some t) sid 1 d = Inr es" "\<forall>e \<in> set es. envSeq e \<le> sr_head_seq r"
    and "VerifyChainIntegrity c sha noFaults (Some t) sid 1 0 d = Inr v" "cvValid v" "0 < cvChecked v"
  obtains seed where "v = verifyLoop sha seed 0 (dropWhile (\<lambda>e. envContentHash e = None) es)"
proof -
  note l = Load_Inr [OF assms(2)]
  have rows: "list_all2 (\<lambda>r e. \<exists>x. e = rowEnvelope t r x) (selectEvents t sid (\<lambda>r. 1 \<le> er_seq r) d) es"
    using scanEnvelopes_rows l by blast
  note sel = selectEvents_upto [OF rows assms(3)]
  show ?thesis
  proof (cases "dropWhile (\<lambda>e. envContentHash e = None) es")
    case Nil
    then show ?thesis
      using assms(1,4,6) l sel by (auto simp add: VerifyChainIntegrity_def TenantFromContext_def beginTenantTx_def
          vacuouslyValid_def Let_def split: if_splits simp del: dropWhile_eq_Nil_conv)
  next
    case (Cons e es')
    then show ?thesis
      using assms(1,4,6) l sel that by (auto simp add: VerifyChainIntegrity_def TenantFromContext_def beginTenantTx_def
          vacuouslyValid_def Let_def split: if_splits del: verifyLoop.simps)
  qed
qed

section \<open>Properties\<close>

text \<open>
  C8. No false alarm. In a database that satisfies the invariant, for a session that loads, verifying
  any window without infrastructure failures reports a valid chain; verifying from the start to the
  head checks every event that loads.
\<close>

theorem verify_accepts_written_log:
  assumes inv: "storeInv sha d" and f: "findSession t sid d = Some r"
    and load: "Load c noFaults (Some t) sid 1 d = Inr envs"
  shows "\<exists>n. VerifyChainIntegrity c sha noFaults (Some t) sid from to d =
      Inr \<lparr>cvValid = True, cvFirstBadSeq = 0, cvReason = '''', cvChecked = n\<rparr> \<and>
    (from \<le> 1 \<and> to \<le> 0 \<longrightarrow> n = length envs)"
proof -
  define lo where "lo = (if from \<le> 0 then 1 else from)"
  define hi where "hi = (if to \<le> 0 \<or> sr_head_seq r < to then sr_head_seq r else to)"
  define win where "win = filter (\<lambda>e. lo \<le> er_seq e \<and> er_seq e \<le> hi) (ownEvents sid d)"
  have t: "t \<noteq> ''''" and scan: "scanEnvelopes c t (selectEvents t sid (\<lambda>r. 1 \<le> er_seq r) d) = Inr envs"
    using Load_Inr [OF load] by auto
  have r: "sr_id r = sid" "sessionOk sha d r" using findSession_Some [OF f] inv by (auto simp: storeInv_def)
  note b = own_seq_bounds [OF r(2), unfolded r(1)]
  have own: "selectEvents t sid (\<lambda>r. 1 \<le> er_seq r) d = ownEvents sid d"
    using selectEvents_own [OF inv f] b(3) by (simp add: filter_id_conv)
  have len: "length envs = length (ownEvents sid d)" using scanEnvelopes_length [OF scan] own by simp
  have lohi: "0 < lo" "hi \<le> sr_head_seq r" by (auto simp: lo_def hi_def)
  have full: "from \<le> 1 \<and> to \<le> 0 \<Longrightarrow> win = ownEvents sid d"
    using b(2,3) by (fastforce simp: win_def lo_def hi_def filter_id_conv)
  show ?thesis
  proof (cases "hi < lo")
    case True
    have "VerifyChainIntegrity c sha noFaults (Some t) sid from to d = Inr vacuouslyValid"
      using True t f by (simp add: VerifyChainIntegrity_def TenantFromContext_def beginTenantTx_def Let_def lo_def hi_def)
    moreover have "length envs = 0" if "from \<le> 1 \<and> to \<le> 0"
    proof -
      have "win = []" using True by (auto simp: win_def filter_empty_conv)
      then show ?thesis using full [OF that] len by simp
    qed
    ultimately show ?thesis by (auto simp: vacuouslyValid_def)
  next
    case False
    obtain fs where "scanEnvelopes c t win = Inr fs"
      using scanEnvelopes_filter [OF scan [unfolded own]] win_def by blast
    then have v: "VerifyChainIntegrity c sha noFaults (Some t) sid lo hi d =
        Inr \<lparr>cvValid = True, cvFirstBadSeq = 0, cvReason = '''', cvChecked = length win\<rparr>"
      using verify_window [OF inv f t _ lohi(1) _ lohi(2) win_def] False lohi by simp
    have "VerifyChainIntegrity c sha noFaults (Some t) sid from to d = VerifyChainIntegrity c sha noFaults (Some t) sid lo hi d"
    proof -
      have id: "(if lo \<le> 0 then 1 else lo) = lo" "(if hi \<le> 0 \<or> sr_head_seq r < hi then sr_head_seq r else hi) = hi"
        using lohi False by auto
      show ?thesis
        unfolding VerifyChainIntegrity_def TenantFromContext_def
        using t f by (simp only: option.case if_False andThen_simps id flip: lo_def hi_def)
    qed
    with v full len show ?thesis by auto
  qed
qed

theorem verify_accepts_written_log_witness:
  "\<exists>n. VerifyChainIntegrity demoCodec demoSha noFaults (Some ''t'') ''s'' 1 0 demoDb3 =
      Inr \<lparr>cvValid = True, cvFirstBadSeq = 0, cvReason = '''', cvChecked = n\<rparr> \<and> n = 2"
proof -
  have "map_sum id length (Load demoCodec noFaults (Some ''t'') ''s'' 1 demoDb3) = Inr 2" by code_simp
  then obtain envs where l: "Load demoCodec noFaults (Some ''t'') ''s'' 1 demoDb3 = Inr envs" "length envs = 2"
    by (cases "Load demoCodec noFaults (Some ''t'') ''s'' 1 demoDb3") auto
  have "findSession ''t'' ''s'' demoDb3 \<noteq> None" by code_simp
  then obtain r where "findSession ''t'' ''s'' demoDb3 = Some r" by auto
  from verify_accepts_written_log [OF demo_inv(2) this l(1), of 1 0] l(2) show ?thesis by auto
qed



text \<open>
  C10. What the verification does not see. A session whose stored content hashes are all NULL verifies as
  valid, with nothing checked, whatever its payloads are: clearing the hash columns of a session hides
  any change of its events, and so does deleting all of its events.
\<close>

theorem cleared_hashes_verify:
  assumes "findSession t sid d = Some r" and "Load c noFaults (Some t) sid 1 d = Inr es"
    and "\<forall>e \<in> set es. envContentHash e = None" and "\<forall>e \<in> set es. envSeq e \<le> sr_head_seq r"
  shows "VerifyChainIntegrity c sha noFaults (Some t) sid 1 0 d = Inr vacuouslyValid"
proof (rule ccontr)
  note l = Load_Inr [OF assms(2)]
  assume no: "VerifyChainIntegrity c sha noFaults (Some t) sid 1 0 d \<noteq> Inr vacuouslyValid"
  have rows: "list_all2 (\<lambda>r e. \<exists>x. e = rowEnvelope t r x) (selectEvents t sid (\<lambda>r. 1 \<le> er_seq r) d) es"
    using scanEnvelopes_rows l by blast
  have "scanEnvelopes c t (selectEvents t sid (\<lambda>e. 1 \<le> er_seq e \<and> er_seq e \<le> sr_head_seq r) d) = Inr es"
    using selectEvents_upto [OF rows assms(4)] l by simp
  moreover have "dropWhile (\<lambda>e. envContentHash e = None) es = []" using assms(3) by simp
  ultimately show False
    using no assms(1) l by (simp add: VerifyChainIntegrity_def TenantFromContext_def beginTenantTx_def Let_def
        split: if_splits del: dropWhile_eq_Nil_conv)
qed

theorem cleared_hashes_verify_witness:
  "VerifyChainIntegrity demoCodec demoSha noFaults (Some ''t'') ''s'' 1 0 clearedDb = Inr vacuouslyValid \<and>
   map_sum id canonicals (Load demoCodec noFaults (Some ''t'') ''s'' 1 clearedDb) = Inr [''forged'', ''forged'']"
proof
  have "findSession ''t'' ''s'' clearedDb \<noteq> None" by code_simp
  then obtain r where r: "findSession ''t'' ''s'' clearedDb = Some r" by auto
  have l: "Load demoCodec noFaults (Some ''t'') ''s'' 1 clearedDb = Inr (projr (Load demoCodec noFaults (Some ''t'') ''s'' 1 clearedDb))"
    by code_simp
  have n: "\<forall>e \<in> set (projr (Load demoCodec noFaults (Some ''t'') ''s'' 1 clearedDb)). envContentHash e = None" by code_simp
  have "\<forall>e \<in> set (projr (Load demoCodec noFaults (Some ''t'') ''s'' 1 clearedDb)). envSeq e \<le> 2" by code_simp
  moreover have "map_option sr_head_seq (findSession ''t'' ''s'' clearedDb) = Some 2" by code_simp
  ultimately have s: "\<forall>e \<in> set (projr (Load demoCodec noFaults (Some ''t'') ''s'' 1 clearedDb)). envSeq e \<le> sr_head_seq r"
    using r by simp
  show "VerifyChainIntegrity demoCodec demoSha noFaults (Some ''t'') ''s'' 1 0 clearedDb = Inr vacuouslyValid"
    by (rule cleared_hashes_verify [OF r l n s])
  show "map_sum id canonicals (Load demoCodec noFaults (Some ''t'') ''s'' 1 clearedDb) = Inr [''forged'', ''forged'']"
    by code_simp
qed


end
