(* ===== verification/DevRefine.thy ===== *)
theory DevRefine
  imports DevStore ChainVerify
begin

text \<open>
  The in-memory store of the development binary stands in for the PostgreSQL store. Both are driven by the
  same operations of one tenant; as long as the PostgreSQL store accepts them and no request is sent
  twice, the in-memory store gives the same envelopes, reads and verification results, up to the tenant
  id, the time stamps and the schema version that it does not keep.
\<close>

section \<open>Operations and views\<close>

datatype store_op =
    CreateOp string PermissionMode
  | ForkOp string int string
  | AppendOp string int int string "AppendInput list"

definition pgStep :: "codec \<Rightarrow> hashfun \<Rightarrow> string \<Rightarrow> faults \<Rightarrow> int \<Rightarrow> store_op \<Rightarrow> db \<Rightarrow> store_error + EventEnvelope list \<times> db" where
  "pgStep c sha t flt now op d = (case op of
       CreateOp sid mode \<Rightarrow> andThen (CreateSession flt now (Some t) sid mode d) (\<lambda>(_, d'). Inr ([], d'))
     | ForkOp parent atSeq sid \<Rightarrow> andThen (Fork flt now (Some t) parent atSeq sid d) (\<lambda>(_, d'). Inr ([], d'))
     | AppendOp sid expected epoch req evs \<Rightarrow> Append c sha flt now (Some t) sid expected epoch req evs d)"

definition devStep :: "codec \<Rightarrow> hashfun \<Rightarrow> store_op \<Rightarrow> DevStore \<Rightarrow> DevStore \<times> (store_error + EventEnvelope list)" where
  "devStep c sha op s = (case op of
       CreateOp sid mode \<Rightarrow> (fst (DevCreateSession sid mode s), Inr [])
     | ForkOp parent atSeq sid \<Rightarrow> (fst (DevFork parent atSeq sid s), Inr [])
     | AppendOp sid expected epoch req evs \<Rightarrow> DevAppend c sha sid expected epoch req evs s)"

text \<open>A request id that the session has not seen.\<close>

definition freshOp :: "string \<Rightarrow> store_op \<Rightarrow> db \<Rightarrow> bool" where
  "freshOp t op d = (case op of
     AppendOp sid _ _ req _ \<Rightarrow> list_all (\<lambda>r. er_request r \<noteq> req) (pgHistory t sid d) | _ \<Rightarrow> True)"

text \<open>A run that the PostgreSQL store accepts, with the faults and the time of each operation.\<close>

fun pgRun :: "codec \<Rightarrow> hashfun \<Rightarrow> string \<Rightarrow> (faults \<times> int \<times> store_op) list \<Rightarrow> db \<Rightarrow> (EventEnvelope list list \<times> db) option" where
  "pgRun c sha t [] d = Some ([], d)"
| "pgRun c sha t ((flt, now, op) # ops) d =
     (case pgStep c sha t flt now op d of
        Inl _ \<Rightarrow> None
      | Inr (envs, d1) \<Rightarrow>
          if freshOp t op d then map_option (\<lambda>(outs, d'). (envs # outs, d')) (pgRun c sha t ops d1) else None)"

fun devRun :: "codec \<Rightarrow> hashfun \<Rightarrow> store_op list \<Rightarrow> DevStore \<Rightarrow> (EventEnvelope list list \<times> DevStore) option" where
  "devRun c sha [] s = Some ([], s)"
| "devRun c sha (op # ops) s =
     (case devStep c sha op s of
        (_, Inl _) \<Rightarrow> None
      | (s1, Inr envs) \<Rightarrow> map_option (\<lambda>(outs, s'). (envs # outs, s')) (devRun c sha ops s1))"

type_synonym view = "EventType \<times> int \<times> string \<times> string \<times> Actor \<times> event \<times> bytes option \<times> bytes option \<times> bytes option"

definition envView :: "EventEnvelope \<Rightarrow> view" where
  "envView e = (envType e, envSeq e, envSessionID e, envRequestID e,
     if envActor e = ActorUnset then ActorSystem else envActor e,
     envEvent e, envPayloadCanonical e, envContentHash e, envChainHash e)"

definition devChainStart :: "hashfun \<Rightarrow> string \<Rightarrow> DevStore \<Rightarrow> bytes" where
  "devChainStart sha sid s = (case map_of (dvChainHead s) sid of None \<Rightarrow> GenesisChainHash sha sid | Some h \<Rightarrow> h)"

text \<open>The simulation relation, session by session.\<close>

definition mirrors :: "codec \<Rightarrow> hashfun \<Rightarrow> string \<Rightarrow> string \<Rightarrow> db \<Rightarrow> DevStore \<Rightarrow> bool" where
  "mirrors c sha t sid d s \<longleftrightarrow>
     map_option sHeadSeq (map_of (dvAggregates s) sid) = pgHead t sid d \<and>
     (\<exists>envs. scanEnvelopes c t (pgHistory t sid d) = Inr envs \<and> map envView envs = map envView (devEvents sid s)) \<and>
     devChainStart sha sid s = (if devEvents sid s = [] then GenesisChainHash sha sid
                                else orNil (envChainHash (last (devEvents sid s))))"

text \<open>The envelopes of a batch, in closed form.\<close>

fun devBatch :: "codec \<Rightarrow> hashfun \<Rightarrow> string \<Rightarrow> string \<Rightarrow> int \<Rightarrow> bytes \<Rightarrow> AppendInput list \<Rightarrow> EventEnvelope list" where
  "devBatch c sha sid req q prev [] = []"
| "devBatch c sha sid req q prev (e # es) =
     devEnvelope sha sid req q prev e (payloadOf c e) #
     devBatch c sha sid req (q + 1) (ChainHash sha prev (ContentHash sha (payloadOf c e))) es"

definition demoOps :: "(faults \<times> int \<times> store_op) list" where
  "demoOps = [(noFaults, 5, CreateOp ''s'' ModeUnset),
     (noFaults, 6, AppendOp ''s'' 0 0 ''q1'' [demoInput ''ab'', demoInput ''cd'']),
     (noFaults, 7, ForkOp ''s'' 1 ''f''),
     (noFaults, 8, AppendOp ''f'' 1 0 ''q2'' [demoInput ''ef''])]"

section \<open>An append to the in-memory store\<close>

lemma map_of_update [simp]: "map_of (AList.update k v xs) k' = (if k' = k then Some v else map_of xs k')"
  by (simp add: update_conv')

lemma devEvents_simps [simp]:
  "devEvents sid (s\<lparr>dvSessions := AList.update sid' es (dvSessions s')\<rparr>) =
     (if sid = sid' then es else devEvents sid (s\<lparr>dvSessions := dvSessions s'\<rparr>))"
  "devEvents sid (s\<lparr>dvAggregates := a\<rparr>) = devEvents sid s" "devEvents sid (s\<lparr>dvSubscribers := b\<rparr>) = devEvents sid s"
  "devEvents sid (s\<lparr>dvChainHead := h\<rparr>) = devEvents sid s"
  by (simp_all add: devEvents_def)

lemma fanout_simps [simp]:
  "devEvents sid (fanout sid' env s) = devEvents sid s" "dvAggregates (fanout sid' env s) = dvAggregates s"
  "dvChainHead (fanout sid' env s) = dvChainHead s" "dvSessions (fanout sid' env s) = dvSessions s"
  by (simp_all add: fanout_def)

lemma devAppendLoop_ok:
  assumes "\<forall>e \<in> set evs. cMarshal c (aiEvent e) = Some (payloadOf c e)" "map_of (dvAggregates s) sid = Some agg"
  shows "\<exists>s'. devAppendLoop c sha sid req agg prev evs acc s = (s', Inr (acc @ devBatch c sha sid req (sHeadSeq agg + 1) prev evs)) \<and>
    devEvents sid s' = devEvents sid s @ devBatch c sha sid req (sHeadSeq agg + 1) prev evs \<and>
    map_option sHeadSeq (map_of (dvAggregates s') sid) = Some (sHeadSeq agg + int (length evs)) \<and>
    map_of (dvChainHead s') sid = Some (chainFold sha prev (map (payloadOf c) evs)) \<and>
    (\<forall>sid'. sid' \<noteq> sid \<longrightarrow> devEvents sid' s' = devEvents sid' s \<and> map_of (dvAggregates s') sid' = map_of (dvAggregates s) sid' \<and>
       map_of (dvChainHead s') sid' = map_of (dvChainHead s) sid')"
  using assms
proof (induction evs arbitrary: agg prev acc s)
  case (Cons e evs)
  let ?agg = "agg\<lparr>sHeadSeq := sHeadSeq agg + 1\<rparr>"
  let ?s1 = "s\<lparr>dvAggregates := AList.update sid ?agg (dvAggregates s)\<rparr>"
  let ?env = "devEnvelope sha sid req (sHeadSeq agg + 1) prev e (payloadOf c e)"
  let ?s2 = "fanout sid ?env (?s1\<lparr>dvSessions := AList.update sid (devEvents sid ?s1 @ [?env]) (dvSessions ?s1)\<rparr>)"
  have "map_of (dvAggregates ?s2) sid = Some ?agg" by simp
  from Cons.IH [OF _ this, of "orNil (envChainHash ?env)" "acc @ [?env]"] Cons.prems
  show ?case
    by (simp add: MarshalEventPayload_def devEnvelope_def Let_def algebra_simps)
qed auto

lemma devBatch_Nil [simp]: "devBatch c sha sid req q prev evs = [] \<longleftrightarrow> evs = []"
  by (cases evs) simp_all

lemma devBatch_last:
  "evs \<noteq> [] \<Longrightarrow> orNil (envChainHash (last (devBatch c sha sid req q prev evs))) = chainFold sha prev (map (payloadOf c) evs)"
  by (induction evs arbitrary: q prev) (auto simp: devEnvelope_def)

lemma batch_views:
  "map envView (map2 (rowEnvelope t) (batchRows c sha now t sid req q g x prev evs) (map aiEvent evs)) =
     map envView (devBatch c sha sid req q prev evs)"
  by (induction evs arbitrary: q g prev) (simp_all add: envView_def rowEnvelope_def newEventRow_def devEnvelope_def)

section \<open>The simulation\<close>

lemma view_fields:
  assumes "map envView xs = map envView ys"
  shows "map envSeq xs = map envSeq ys" "map envChainHash xs = map envChainHash ys"
    "map envPayloadCanonical xs = map envPayloadCanonical ys"
  using assms map_eq_imp_length_eq [OF assms]
  by (auto simp: list_eq_iff_nth_eq envView_def)

lemma scan_fields:
  "scanEnvelopes c t rs = Inr es \<Longrightarrow> map envSeq es = map er_seq rs \<and> map envChainHash es = map er_chain_hash rs \<and>
     map envPayloadCanonical es = map er_canonical rs"
  by (induction rs arbitrary: es) (auto simp: andThen_Inr_iff scanEnvelope_def)

lemma last_cong_map: "map f xs = map g ys \<Longrightarrow> xs \<noteq> [] \<Longrightarrow> f (last xs) = g (last ys)"
  by (metis last_map map_is_Nil_conv)

lemma mirrors_start:
  assumes "storeInv sha d" "mirrors c sha t sid d s" "findSession t sid d = Some r"
  shows "devChainStart sha sid s = chainStart sha r"
proof -
  have r: "sr_id r = sid" "sessionOk sha d r"
    using assms(1) findSession_Some [OF assms(3)] by (auto simp: storeInv_def)
  obtain envs where "scanEnvelopes c t (pgHistory t sid d) = Inr envs" "map envView envs = map envView (devEvents sid s)"
    using assms(2) unfolding mirrors_def by blast
  moreover have "pgHistory t sid d = ownEvents sid d" using selectEvents_own [OF assms(1,3)] by (simp add: pgHistory_def)
  ultimately have chains: "map envChainHash (devEvents sid s) = map er_chain_hash (ownEvents sid d)"
    using scan_fields view_fields(2) by metis
  then have "devEvents sid s = [] \<longleftrightarrow> ownEvents sid d = []" by (metis map_is_Nil_conv)
  moreover have "devEvents sid s \<noteq> [] \<Longrightarrow> envChainHash (last (devEvents sid s)) = er_chain_hash (last (ownEvents sid d))"
    by (rule last_cong_map [OF chains])
  moreover have "devChainStart sha sid s = (if devEvents sid s = [] then GenesisChainHash sha sid
      else orNil (envChainHash (last (devEvents sid s))))" using assms(2) by (simp add: mirrors_def)
  ultimately show ?thesis using chainStart_own [OF r(2)] r(1) by simp
qed

lemma mirrors_append:
  assumes inv: "storeInv sha d" and rt: "roundtrips c" and sim: "\<And>sid. mirrors c sha t sid d s"
    and ok: "Append c sha flt now (Some t) sid h epoch req evs d = Inr (envs, d')"
    and fresh: "list_all (\<lambda>r. er_request r \<noteq> req) (pgHistory t sid d)"
  shows "\<exists>s' envs'. DevAppend c sha sid h epoch req evs s = (s', Inr envs') \<and> map envView envs' = map envView envs \<and>
     (\<forall>sid. mirrors c sha t sid d' s')"
proof -
  from ok have g: "appendGated c sha flt now t sid h epoch req None evs d = Inr (envs, d')" and ne: "evs \<noteq> []"
    unfolding Append_def by (rule appendTx_cases, use fresh pgHistory_request [of t sid req d] in \<open>auto simp: list_all_iff\<close>)+
  obtain r rows where r: "findSession t sid d = Some r"
    and rows: "rows = batchRows c sha now t sid req (h + 1) (db_next_global d) (db_next_xid d) (chainStart sha r) evs"
    and envs: "envs = map2 (rowEnvelope t) rows (map aiEvent evs)"
    and hist: "pgHistory t sid d' = pgHistory t sid d @ rows"
    and head: "pgHead t sid d = Some h" "pgHead t sid d' = Some (h + int (length evs))"
    and m: "\<forall>inp \<in> set evs. cMarshal c (aiEvent inp) = Some (payloadOf c inp)"
    by (rule gated_history [OF inv ne g])
  obtain agg where agg: "map_of (dvAggregates s) sid = Some agg" "sHeadSeq agg = h"
    using sim [of sid] head(1) by (auto simp: mirrors_def)
  let ?b = "devBatch c sha sid req (h + 1) (chainStart sha r) evs"
  obtain s' where s': "DevAppend c sha sid h epoch req evs s = (s', Inr ?b)" "devEvents sid s' = devEvents sid s @ ?b"
    "map_option sHeadSeq (map_of (dvAggregates s') sid) = Some (h + int (length evs))"
    "map_of (dvChainHead s') sid = Some (chainFold sha (chainStart sha r) (map (payloadOf c) evs))"
    and frame: "\<And>sid'. sid' \<noteq> sid \<Longrightarrow> devEvents sid' s' = devEvents sid' s \<and> map_of (dvAggregates s') sid' = map_of (dvAggregates s) sid' \<and>
       map_of (dvChainHead s') sid' = map_of (dvChainHead s) sid'"
    using devAppendLoop_ok [OF m agg(1), of sha req "chainStart sha r" "[]"] agg mirrors_start [OF inv sim r]
    by (auto simp: DevAppend_def Let_def devChainStart_def)
  have scan: "scanEnvelopes c t rows = Inr envs" unfolding rows envs using scanEnvelopes_batch [OF rt m] .
  have views: "map envView ?b = map envView envs" unfolding envs rows by (rule batch_views [symmetric])
  have "mirrors c sha t sid d' s'"
    using sim [of sid] s' scan views head(2) ne devBatch_last [OF ne]
    by (auto simp: mirrors_def hist scanEnvelopes_append devChainStart_def)
  moreover have "mirrors c sha t sid' d' s'" if "sid' \<noteq> sid" for sid'
    using sim [of sid'] frame [OF that] gated_frame [OF inv g, of sid' t] that
    by (simp add: mirrors_def devChainStart_def pgHead_def)
  ultimately have "mirrors c sha t sid' d' s'" for sid' by (cases "sid' = sid") auto
  with s'(1) views show ?thesis by auto
qed

lemma pgHead_new:
  assumes "insertSession r d = Inr d1" "sr_tenant r = t"
  shows "pgHead t sid (commitTx d1) = (if sid = sr_id r then Some (sr_head_seq r) else pgHead t sid d)"
    "pgHistory t sid (commitTx d1) = pgHistory t sid d" "pgHead t (sr_id r) d = None"
proof -
  have d1: "d1 = d\<lparr>db_sessions := db_sessions d @ [r]\<rparr>" "sr_id r \<notin> sr_id ` set (db_sessions d)"
    using insertSession_Inr [OF assms(1)] by auto
  have "find P (xs @ [r]) = (case find P xs of None \<Rightarrow> if P r then Some r else None | Some y \<Rightarrow> Some y)" for P xs
    by (induction xs) auto
  moreover have none: "find (\<lambda>x. sr_tenant x = t \<and> sr_id x = sr_id r) (db_sessions d) = None"
    using d1(2) unfolding find_None_iff by (metis imageI)
  ultimately show "pgHead t sid (commitTx d1) = (if sid = sr_id r then Some (sr_head_seq r) else pgHead t sid d)"
    using assms(2) d1(1) by (auto simp: pgHead_def findSession_find commitTx_def split: option.splits)
  show "pgHead t (sr_id r) d = None" using none by (simp add: pgHead_def findSession_find)
  show "pgHistory t sid (commitTx d1) = pgHistory t sid d" using d1(1) by (intro pgHistory_cong) simp
qed

lemma mirrors_absent:
  assumes "storeInv sha d" "mirrors c sha t sid d s" "pgHead t sid d = None"
  shows "map_of (dvAggregates s) sid = None" "pgHistory t sid d = []" "devEvents sid s = []" "devChainStart sha sid s = GenesisChainHash sha sid"
proof -
  show h: "pgHistory t sid d = []" using selectEvents_invisible [OF assms(1)] assms(3) by (simp add: pgHistory_def pgHead_def)
  then show e: "devEvents sid s = []" using assms(2) by (simp add: mirrors_def)
  then show "map_of (dvAggregates s) sid = None" "devChainStart sha sid s = GenesisChainHash sha sid"
    using assms(2,3) by (simp_all add: mirrors_def)
qed

lemma mirrors_open:
  assumes inv: "storeInv sha d" and sim: "\<And>sid. mirrors c sha t sid d s"
    and r: "insertSession r d = Inr d1" "sr_tenant r = t"
    and dev: "map_option sHeadSeq (map_of (dvAggregates s') (sr_id r)) = Some (sr_head_seq r)" "devEvents (sr_id r) s' = []"
      "dvChainHead s' = dvChainHead s"
      "\<And>sid. sid \<noteq> sr_id r \<Longrightarrow> map_of (dvAggregates s') sid = map_of (dvAggregates s) sid \<and> devEvents sid s' = devEvents sid s"
  shows "mirrors c sha t sid (commitTx d1) s'"
proof (cases "sid = sr_id r")
  case True
  then show ?thesis
    using mirrors_absent [OF inv sim pgHead_new(3) [OF r]] dev pgHead_new(1,2) [OF r]
    by (simp add: mirrors_def devChainStart_def)
next
  case False
  then show ?thesis using sim [of sid] dev pgHead_new(1,2) [OF r] by (simp add: mirrors_def devChainStart_def)
qed

lemma mirrors_step:
  assumes inv: "storeInv sha d" and rt: "roundtrips c" and sim: "\<And>sid. mirrors c sha t sid d s"
    and ok: "pgStep c sha t flt now op d = Inr (envs, d')" and fresh: "freshOp t op d"
  shows "\<exists>s' envs'. devStep c sha op s = (s', Inr envs') \<and> map envView envs' = map envView envs \<and>
     (\<forall>sid. mirrors c sha t sid d' s') \<and> storeInv sha d'"
proof (cases op)
  case (CreateOp sid mode)
  then obtain sess where cr: "CreateSession flt now (Some t) sid mode d = Inr (sess, d')" and envs: "envs = []"
    using ok by (auto simp: pgStep_def andThen_Inr_iff)
  obtain r d1 where r: "insertSession r d = Inr d1" "sr_tenant r = t" "d' = commitTx d1" "sr_id r = sid" "sr_head_seq r = 0"
    using cr by (rule CreateSession_Inr) auto
  note gone = mirrors_absent [OF inv sim pgHead_new(3) [OF r(1,2)]]
  have "mirrors c sha t sid' d' (fst (DevCreateSession sid mode s))" for sid'
    unfolding r(3) using gone r(4,5) by (intro mirrors_open [OF inv sim r(1,2)]) (simp_all add: DevCreateSession_def Let_def)
  then show ?thesis using CreateOp envs CreateSession_inv [OF cr inv] by (simp add: devStep_def)
next
  case (ForkOp parent atSeq sid)
  then obtain sess where fk: "Fork flt now (Some t) parent atSeq sid d = Inr (sess, d')" and envs: "envs = []"
    using ok by (auto simp: pgStep_def andThen_Inr_iff)
  obtain r d1 where r: "insertSession r d = Inr d1" "sr_tenant r = t" "d' = commitTx d1" "sr_id r = sid" "sr_head_seq r = atSeq"
    using fk by (rule Fork_Inr) auto
  have "mirrors c sha t sid' d' (fst (DevFork parent atSeq sid s))" for sid'
    unfolding r(3) using r(4,5) by (intro mirrors_open [OF inv sim r(1,2)]) (simp_all add: DevFork_def Let_def devEvents_def)
  then show ?thesis using ForkOp envs Fork_inv [OF fk inv] by (simp add: devStep_def)
next
  case (AppendOp sid h epoch req evs)
  then have ap: "Append c sha flt now (Some t) sid h epoch req evs d = Inr (envs, d')" using ok by (simp add: pgStep_def)
  then have "storeInv sha d'" using appendTx_inv inv by (auto simp: Append_def)
  with mirrors_append [OF inv rt sim ap] AppendOp fresh show ?thesis by (auto simp: freshOp_def devStep_def)
qed

lemma mirrors_run:
  assumes "storeInv sha d" "roundtrips c" "\<And>sid. mirrors c sha t sid d s" "pgRun c sha t ops d = Some (outs, d')"
  shows "\<exists>s' outs'. devRun c sha (map (snd \<circ> snd) ops) s = Some (outs', s') \<and> map (map envView) outs' = map (map envView) outs \<and>
     (\<forall>sid. mirrors c sha t sid d' s') \<and> storeInv sha d'"
  using assms
proof (induction c sha t ops d arbitrary: s outs rule: pgRun.induct)
  case (2 c sha t flt now op ops d)
  from "2.prems"(4) obtain envs d1 outs1 where st: "pgStep c sha t flt now op d = Inr (envs, d1)" "freshOp t op d"
    and run: "pgRun c sha t ops d1 = Some (outs1, d')" and outs: "outs = envs # outs1"
    by (auto split: sum.splits prod.splits if_splits)
  obtain s1 envs' where s1: "devStep c sha op s = (s1, Inr envs')" "map envView envs' = map envView envs"
    "\<And>sid. mirrors c sha t sid d1 s1" "storeInv sha d1"
    using mirrors_step [OF "2.prems"(1-3) st] by blast
  from "2.IH" [OF st(1) refl st(2) s1(4) "2.prems"(2) s1(3) run] s1(1,2) outs show ?case by auto
qed auto

section \<open>Reading and verifying\<close>

lemma chained_canonical: "chained sha prev rs \<Longrightarrow> list_all (\<lambda>x. x \<noteq> None) (map er_canonical rs)"
  by (induction rs arbitrary: prev) (auto split: option.splits)

lemma last_numbered: "xs \<noteq> [] \<Longrightarrow> map f xs = [a .. b] \<Longrightarrow> f (last xs) = (b :: int)"
  by (cases "a \<le> b") (use last_map [of xs f] upto_rec2 [of a b] in auto)

lemma scan_filter:
  "scanEnvelopes c t rs = Inr es \<Longrightarrow> scanEnvelopes c t (filter (\<lambda>r. Q (er_seq r)) rs) = Inr (filter (\<lambda>e. Q (envSeq e)) es)"
  by (induction rs arbitrary: es) (auto simp: andThen_Inr_iff scanEnvelope_def)

lemma view_filter:
  assumes "map envView xs = map envView ys"
  shows "map envView (filter (\<lambda>e. Q (envSeq e)) xs) = map envView (filter (\<lambda>e. Q (envSeq e)) ys)"
  using map_eq_imp_length_eq [OF assms] assms by (induction xs ys rule: list_induct2) (auto simp: envView_def)

lemma view_dropWhile:
  assumes "map envView xs = map envView ys"
  shows "map envView (dropWhile (\<lambda>e. envContentHash e = None) xs) = map envView (dropWhile (\<lambda>e. envContentHash e = None) ys)"
  using map_eq_imp_length_eq [OF assms] assms by (induction xs ys rule: list_induct2) (auto simp: envView_def)

lemma verify_views:
  assumes "map envView xs = map envView ys" "list_all (\<lambda>e. envPayloadCanonical e \<noteq> None) ys"
  shows "devVerifyLoop c sha prev k ys = Inr (verifyLoop sha prev k xs)"
  using map_eq_imp_length_eq [OF assms(1)] assms
  by (induction xs ys arbitrary: prev k rule: list_induct2) (auto simp: envView_def Let_def split: option.splits)

lemma view_case:
  "map envView xs = map envView ys \<Longrightarrow> (case xs of [] \<Rightarrow> x | e # _ \<Rightarrow> f (envSeq e)) = (case ys of [] \<Rightarrow> x | e # _ \<Rightarrow> f (envSeq e))"
  by (cases xs; cases ys) (auto simp: envView_def)

lemma select_history:
  assumes "storeInv sha d"
  shows "selectEvents t sid p d = filter p (pgHistory t sid d)"
  using selectEvents_own [OF assms] selectEvents_invisible [OF assms]
  by (cases "findSession t sid d") (simp_all add: pgHistory_def)

lemma mirrors_window:
  assumes "storeInv sha d" "mirrors c sha t sid d s"
  obtains es where "scanEnvelopes c t (selectEvents t sid (\<lambda>r. Q (er_seq r)) d) = Inr es"
    "map envView es = map envView (filter (\<lambda>e. Q (envSeq e)) (devEvents sid s))"
proof -
  obtain envs where "scanEnvelopes c t (pgHistory t sid d) = Inr envs" "map envView envs = map envView (devEvents sid s)"
    using assms(2) unfolding mirrors_def by blast
  then show thesis using that [OF _ view_filter] scan_filter select_history [OF assms(1)] by metis
qed

lemma mirrors_load:
  assumes "storeInv sha d" "mirrors c sha t sid d s" "t \<noteq> ''''"
  shows "\<exists>es. Load c noFaults (Some t) sid k d = Inr es \<and> map envView es = map envView (DevLoad sid k s)"
proof -
  obtain es where "scanEnvelopes c t (selectEvents t sid (\<lambda>r. k \<le> er_seq r) d) = Inr es"
    "map envView es = map envView (filter (\<lambda>e. k \<le> envSeq e) (devEvents sid s))"
    by (rule mirrors_window [OF assms(1,2), of "\<lambda>q. k \<le> q"])
  then show ?thesis using assms(3)
    by (simp add: Load_def readEvents_def DevLoad_def TenantFromContext_def beginTenantTx_def)
qed

lemma mirrors_seed:
  assumes "storeInv sha d" "mirrors c sha t sid d s"
  shows "verifySeedPrev sha noFaults t sid q d = devVerifySeedPrev sha (devEvents sid s) sid q"
proof -
  obtain es where es: "scanEnvelopes c t (selectEvents t sid (\<lambda>r. er_seq r = q - 1) d) = Inr es"
    "map envView es = map envView (filter (\<lambda>e. envSeq e = q - 1) (devEvents sid s))"
    by (rule mirrors_window [OF assms, of "\<lambda>x. x = q - 1"])
  let ?rows = "selectEvents t sid (\<lambda>r. er_seq r = q - 1) d" and ?evs = "filter (\<lambda>e. envSeq e = q - 1) (devEvents sid s)"
  have chains: "map er_chain_hash ?rows = map envChainHash ?evs" using scan_fields [OF es(1)] view_fields(2) [OF es(2)] by simp
  have find: "find P xs = (case filter P xs of [] \<Rightarrow> None | x # _ \<Rightarrow> Some x)" for P and xs :: "EventEnvelope list"
    by (induction xs) auto
  show ?thesis
    using chains unfolding verifySeedPrev_def devVerifySeedPrev_def priorChain_def find
    by (cases ?rows; cases ?evs) (auto simp: noFaults_def)
qed

lemma mirrors_session:
  assumes inv: "storeInv sha d" and sim: "mirrors c sha t sid d s" and ne0: "devEvents sid s \<noteq> []"
  obtains r where "findSession t sid d = Some r"
    "(if devEvents sid s = [] then 0 else envSeq (last (devEvents sid s))) = sr_head_seq r"
    "list_all (\<lambda>e. envPayloadCanonical e \<noteq> None) (devEvents sid s)"
proof -
  obtain es0 where es0: "scanEnvelopes c t (pgHistory t sid d) = Inr es0" "map envView es0 = map envView (devEvents sid s)"
    using sim by (auto simp: mirrors_def)
  then have ne: "pgHistory t sid d \<noteq> []" using ne0 by auto
  then obtain r where r: "findSession t sid d = Some r"
    using selectEvents_invisible [OF inv] by (cases "findSession t sid d") (auto simp: pgHistory_def)
  then have own: "pgHistory t sid d = ownEvents sid d" using selectEvents_own [OF inv] by (simp add: pgHistory_def)
  have ok: "sessionOk sha d r" "sr_id r = sid" using inv findSession_Some [OF r] by (auto simp: storeInv_def)
  have "map envSeq (devEvents sid s) = [forkBase r + 1 .. sr_head_seq r]"
    using scan_fields [OF es0(1)] view_fields(1) [OF es0(2)] ok own by (simp add: sessionOk_def)
  then have head: "(if devEvents sid s = [] then 0 else envSeq (last (devEvents sid s))) = sr_head_seq r"
    using last_numbered [OF ne0] ne0 by simp
  have "map envPayloadCanonical (devEvents sid s) = map er_canonical (ownEvents sid d)"
    using scan_fields [OF es0(1)] view_fields(3) [OF es0(2)] own by simp
  moreover have "list_all (\<lambda>x. x \<noteq> None) (map er_canonical (ownEvents sid d))"
    using ok chained_canonical by (auto simp: sessionOk_def)
  ultimately have canon: "list_all (\<lambda>e. envPayloadCanonical e \<noteq> None) (devEvents sid s)"
    by (metis (no_types, lifting) list.pred_map comp_apply list.pred_mono_strong)
  show thesis by (rule that [OF r head canon])
qed

lemma mirrors_verify:
  assumes inv: "storeInv sha d" and sim: "mirrors c sha t sid d s" and t: "t \<noteq> ''''"
  shows "VerifyChainIntegrity c sha noFaults (Some t) sid from to d = DevVerifyChainIntegrity c sha sid from to s"
proof (cases "devEvents sid s = []")
  case True
  then have "scanEnvelopes c t (pgHistory t sid d) = Inr []" using sim by (auto simp: mirrors_def)
  then have "pgHistory t sid d = []" by (simp add: scanEnvelopes_Nil_iff)
  then show ?thesis using True t
    by (auto simp: VerifyChainIntegrity_def DevVerifyChainIntegrity_def TenantFromContext_def beginTenantTx_def
        select_history [OF inv] Let_def split: option.splits)
next
  case False
  obtain r where r: "findSession t sid d = Some r"
    and head: "(if devEvents sid s = [] then 0 else envSeq (last (devEvents sid s))) = sr_head_seq r"
    and canon: "list_all (\<lambda>e. envPayloadCanonical e \<noteq> None) (devEvents sid s)"
    by (rule mirrors_session [OF inv sim False])
  define lo hi where "lo = (if from \<le> 0 then 1 else from)" and "hi = (if to \<le> 0 \<or> sr_head_seq r < to then sr_head_seq r else to)"
  note lohi = this [symmetric]
  let ?w = "dropWhile (\<lambda>e. envContentHash e = None) (filter (\<lambda>e. lo \<le> envSeq e \<and> envSeq e \<le> hi) (devEvents sid s))"
  obtain es where es: "scanEnvelopes c t (selectEvents t sid (\<lambda>r. lo \<le> er_seq r \<and> er_seq r \<le> hi) d) = Inr es"
    "map envView es = map envView (filter (\<lambda>e. lo \<le> envSeq e \<and> envSeq e \<le> hi) (devEvents sid s))"
    by (rule mirrors_window [OF inv sim, of "\<lambda>q. lo \<le> q \<and> q \<le> hi"])
  let ?v = "dropWhile (\<lambda>e. envContentHash e = None) es"
  have views: "map envView ?v = map envView ?w" by (rule view_dropWhile [OF es(2)])
  have canonw: "list_all (\<lambda>e. envPayloadCanonical e \<noteq> None) ?w"
    using canon by (auto simp: list_all_iff dest!: set_dropWhileD)
  have pgV: "VerifyChainIntegrity c sha noFaults (Some t) sid from to d = (if hi < lo then Inr vacuouslyValid else
      case ?v of [] \<Rightarrow> Inr vacuouslyValid | e # _ \<Rightarrow> Inr (verifyLoop sha (verifySeedPrev sha noFaults t sid (envSeq e) d) 0 ?v))"
    using t r es(1)
    by (simp del: verifyLoop.simps dropWhile_eq_Nil_conv
        add: VerifyChainIntegrity_def TenantFromContext_def beginTenantTx_def Let_def lohi split: list.splits)
  have devV: "DevVerifyChainIntegrity c sha sid from to s = (if hi < lo then Inr vacuouslyValid else
      case ?w of [] \<Rightarrow> Inr vacuouslyValid | e # _ \<Rightarrow> devVerifyLoop c sha (devVerifySeedPrev sha (devEvents sid s) sid (envSeq e)) 0 ?w)"
    unfolding DevVerifyChainIntegrity_def Let_def head lohi
    by (simp del: devVerifyLoop.simps dropWhile_eq_Nil_conv split: list.splits)
  show ?thesis
    unfolding pgV devV verify_views [OF views canonw] mirrors_seed [OF inv sim]
    by (intro if_cong refl view_case [OF views, where f = "\<lambda>q. Inr (verifyLoop sha (devVerifySeedPrev sha (devEvents sid s) sid q) 0 ?v)"])
qed

lemma mirrors_fresh: "db_sessions d = [] \<Longrightarrow> db_events d = [] \<Longrightarrow> mirrors c sha t sid d newStore \<and> storeInv sha d"
  by (simp add: mirrors_def newStore_def pgHead_def findSession_find pgHistory_def selectEvents_def visibleEvents_def
      devEvents_def devChainStart_def storeInv_def)


lemma demoRun_store:
  "case pgRun demoCodec demoSha ''t'' demoOps demoDb1 of None \<Rightarrow> False | Some (outs, d) \<Rightarrow>
     map length outs = [0, 2, 0, 1] \<and> VerifyChainIntegrity demoCodec demoSha noFaults (Some ''t'') ''f'' 0 0 d =
       Inr \<lparr>cvValid = True, cvFirstBadSeq = 0, cvReason = '''', cvChecked = 1\<rparr>"
  by code_simp


end
