(* ===== verification/Spec2Isabelle.thy ===== *)
theory Spec2Isabelle
  imports PolicyEngine Recovery AgentProps ToolWire DevRefine
begin

text \<open>
  \<^bold>\<open>Boltrope, a durable runtime for language model agents.\<close>

  The program runs agents for several tenants. An \<^emph>\<open>orchestrator\<close> keeps every session as an append-only,
  hash-chained event log in PostgreSQL and runs the agent loop over it: build a window from the log, stream
  one generation from the model gateway, assemble it, put every tool call through hooks, the policy engine
  and, if need be, a human, have the \<^emph>\<open>tool runtime\<close> execute what was let through, write the results back,
  and go on until the model is finished or a limit is reached. The tool runtime keeps a ledger that makes a
  call happen at most once per idempotency key, offloads large outputs to a blob store, and gates outgoing
  traffic. After a crash the loop folds the log into a plan and closes or resumes what was left open.

  \<^bold>\<open>Theories and sources.\<close> Paths are below \<^verbatim>\<open>src/internal\<close> unless they start with \<^verbatim>\<open>cmd\<close>.

  \<^item> \<^verbatim>\<open>Prelude\<close>, \<^verbatim>\<open>Encoding\<close>: byte strings, fallible results, the functions of Go's \<^verbatim>\<open>strings\<close> package the sources
    call, hexadecimal and length-prefixed encodings.
  \<^item> \<^verbatim>\<open>Domain\<close>: \<^verbatim>\<open>platform/llm\<close> and \<^verbatim>\<open>orchestrator/domain\<close> (messages, usage, stream events, events,
    envelopes, sessions). A struct is a record with prefixed field names, the sealed interface \<^verbatim>\<open>Event\<close> a datatype.
  \<^item> \<^verbatim>\<open>HashChain\<close>: \<^verbatim>\<open>domain/hashchain.go\<close> and \<^verbatim>\<open>domain/checkpoint.go\<close>, over an arbitrary hash function.
  \<^item> \<^verbatim>\<open>EventStore\<close>, \<^verbatim>\<open>EventLogInv\<close>, \<^verbatim>\<open>EventLogPort\<close>, \<^verbatim>\<open>EventLogProps\<close>, \<^verbatim>\<open>ChainVerify\<close>: the PostgreSQL store
    \<^verbatim>\<open>orchestrator/adapter/outbound/eventstore\<close>. The database is a record of row lists, row-level security a
    filter, an operation a function to an error or a result with the next database, and any statement may
    fail. The locale \<open>event_log\<close> is the port's contract, interpreted on the store as \<open>pg\<close>.
  \<^item> \<^verbatim>\<open>PolicyEngine\<close>: \<^verbatim>\<open>orchestrator/policy\<close>; locale \<open>policy_port\<close>, interpretation \<open>engine\<close>.
  \<^item> \<^verbatim>\<open>Recovery\<close>: \<^verbatim>\<open>orchestrator/app/recovery\<close>, the fold of a log into the plan of a resumed run.
  \<^item> \<^verbatim>\<open>Egress\<close>: \<^verbatim>\<open>toolruntime/adapter/outbound/egress\<close> and \<^verbatim>\<open>egressclient\<close>; locales \<open>egress_broker\<close> and
    \<open>audited_broker\<close>, interpretation \<open>broker\<close>.
  \<^item> \<^verbatim>\<open>Dedup\<close>: the execution ledger in PostgreSQL (\<^verbatim>\<open>toolruntime/adapter/outbound/dedup\<close>) and in memory
    (\<^verbatim>\<open>cmd/boltrope-dev/dedup.go\<close>); locale \<open>dedup_store\<close>, interpretations \<open>pgLedger\<close> and \<open>memLedger\<close>.
  \<^item> \<^verbatim>\<open>BlobStore\<close>: \<^verbatim>\<open>platform/blob/fsstore.go\<close>; locale \<open>blob_store\<close>, interpretation \<open>fsBlobs\<close>.
  \<^item> \<^verbatim>\<open>ToolExec\<close>: \<^verbatim>\<open>toolruntime/adapter/registry\<close> and \<^verbatim>\<open>toolruntime/app/execute\<close>, over the three above.
  \<^item> \<^verbatim>\<open>AgentCtx\<close>: \<^verbatim>\<open>orchestrator/app/agentctx\<close> (window, clearing, compaction, cache prefix).
  \<^item> \<^verbatim>\<open>Assembler\<close>, \<^verbatim>\<open>VirtualTools\<close>, \<^verbatim>\<open>AgentPorts\<close>, \<^verbatim>\<open>AgentLoop\<close>, \<^verbatim>\<open>AgentRun\<close>: \<^verbatim>\<open>orchestrator/app/agent\<close> and the ports
    of \<^verbatim>\<open>orchestrator/app\<close>. A function of the loop is a program over a machine: the loop's \<^verbatim>\<open>runState\<close>, an
    environment of arbitrary type that the ports act on, and the list of port calls made so far with their
    answers. Nothing is assumed of a port; it may answer anything and remember what it was asked.
  \<^item> \<^verbatim>\<open>AgentAuth\<close>, \<^verbatim>\<open>AgentBound\<close>, \<^verbatim>\<open>AgentBudget\<close>: what holds of the list of calls, proved function by function
    from \<^verbatim>\<open>append\<close> up to \<^verbatim>\<open>Run\<close>; \<^verbatim>\<open>AgentDemo\<close> evaluates a run on a small environment, \<^verbatim>\<open>AgentProps\<close> states the
    properties.
  \<^item> \<^verbatim>\<open>ToolWire\<close>: the loop's tool port over gRPC (\<^verbatim>\<open>orchestrator/adapter/outbound/toolrt\<close> and
    \<^verbatim>\<open>toolruntime/adapter/inbound/grpc\<close>) and in process (\<^verbatim>\<open>cmd/boltrope-dev/localexec.go\<close>); locale \<open>tool_port\<close>,
    interpretations \<open>bridgePort\<close> and \<open>wirePort\<close>.
  \<^item> \<^verbatim>\<open>DevStore\<close>, \<^verbatim>\<open>DevRefine\<close>: the in-memory event store of the development binary
    (\<^verbatim>\<open>cmd/boltrope-dev/eventstore.go\<close>, \<^verbatim>\<open>read_methods.go\<close>) and its simulation of the PostgreSQL store.

  \<^bold>\<open>What is shown.\<close> The store keeps sequence numbers without gaps, tenancy and the hash chain; an append lands
  exactly once; tenants do not see one another; verification accepts what the store wrote, and two logs that
  verify to the same link agree or exhibit a collision. The policy pipeline permits exactly what is stated,
  deny rules are absolute and taint only tightens. Recovery reports exactly the unfinished executions and
  open turns. A fetch stays on the allowlist through redirects and is audited; a completed call is not
  repeated; large outputs stay bounded and recoverable. The assembler computes what a direct reading of the
  stream says; cache keys keep tenants apart. A run of the agent loop ends, calls the model a bounded number
  of times, writes well-formed events only, executes no call that was not let through and recorded, keeps
  its accounts equal to what the log says, and does not call the model above its budget. The two ways to
  reach the tool runtime are interchangeable for the loop, and the in-memory store refines the PostgreSQL
  store on every run of one tenant without repeated requests. The last section of this theory follows the
  calls of one message from the gate of the loop to the ledger of the tool runtime.

  \<^bold>\<open>Bounds.\<close> There is no fuel. The redirect loop recurses on the redirects left, the pause loop on the
  attempts left (\<open>maxPauseContinuations\<close>), the dispatcher on the calls and workers left, and the run on
  the turns left, since a turn that asks for another has counted itself. Stepping through a list stands for
  a loop over a slice or over rows, and a stream is the finite list of what its reader returns. Sequence numbers,
  token counts and durations are mathematical integers, dollar amounts exact rationals; the only machine
  words are IP addresses.

  \<^bold>\<open>Parameters.\<close> SHA-256, JSON encoding and decoding, schema compilation, URL parsing, name resolution, the
  remote servers, the driver's failures, the file system's failures, the clock, the scheduler and the gRPC
  transport are arguments. Where a theorem needs something of them it says so as a hypothesis.

  \<^bold>\<open>Not modelled.\<close> Goroutines run their steps one at a time: the dispatcher interleaves workers, but data
  races, locks and memory visibility are outside the model, as is time (deadlines are passed on, never measured)
  and cancellation inside a tool. Listing and subscribing on the PostgreSQL store are left out because they
  read and write nothing the properties speak of. The model gateway and its provider adapters, the
  REST, MCP and gRPC front ends, the projectors and the wiring in \<^verbatim>\<open>cmd\<close> translate between external
  protocols or start processes; they are not modelled. Authentication, sandboxes, native tools, secrets,
  metrics and configuration act on the operating system or on third-party libraries. Generated code and test
  doubles are left out.
\<close>

section \<open>The calls of one message, from the gate to the ledger\<close>

definition demoSiblings :: "ToolCall list" where
  "demoSiblings = [\<lparr>tcID = ''c1'', tcName = ''t'', tcArgs = []\<rparr>, \<lparr>tcID = ''c2'', tcName = ''t'', tcArgs = [(''n'', JStr ''2'')]\<rparr>]"

definition demoMachine :: "demoWorld machine" where
  "demoMachine = \<lparr>mcRun = initialRun demoLoop demoRunInput, mcEnv = demoStart, mcTrace = []\<rparr>"

text \<open>
  C39. The calls of one assistant message share one idempotency key, and the ledger takes it for a retry.
  When two calls of a message are let through the gate and the first has completed with a result that
  reached the ledger, executing the second, whatever its tool and arguments, does not run it: the world is
  untouched and the loop is given the first call's observation as the result of the second.
\<close>

theorem siblings_share_first_result:
  assumes "gateCalls l classes calls [] Map.empty m = (m', Inr (todo, denied))" and "e1 \<in> set todo" and "e2 \<in> set todo"
    and "Execute sv (pgCollaborators oc fb noDFaults now st mc ff) su (tenantRequest tn (executionOf sid e1)) rt = (rt1, Inr res1)"
    and "wfLedger (rtLedger rt)" and "resolves su (tenantRequest tn (executionOf sid e1)) rt t1" and "tn \<noteq> ''''"
    and "roundTrips oc (xrObservation res1)" and "\<not> obIsError (xrObservation res1)"
    and "Execute sv (pgCollaborators oc fb noDFaults now st mc ff) su (tenantRequest tn (executionOf sid e2)) rt1 = (rt2, Inr res2)"
    and "resolves su (tenantRequest tn (executionOf sid e2)) rt1 t2"
  shows "rtWorld rt2 = rtWorld rt1 \<and> bridgeOutput res2 = bridgeOutput res1"
proof -
  let ?q1 = "tenantRequest tn (executionOf sid e1)" and ?q2 = "tenantRequest tn (executionOf sid e2)"
  have "rqTenantID ?q1 \<noteq> ''''" using assms(7) by (simp add: tenantRequest_def)
  from pgLedger.outcome_recorded [OF assms(4) pgCollaborators_simps(1,2) assms(5,6) this assms(8)] assms(9)
  have led: "wfLedger (rtLedger rt1)" "pgEntry oc (rtLedger rt1) (requestKey ?q1) = Some (ExecCompleted, xrObservation res1)" by auto
  have "rtWorld rt2 = rtWorld rt1 \<and> xrObservation res2 = xrObservation res1"
    using pgLedger.completed_no_effect [OF assms(10) pgCollaborators_simps(1) led(1)] led(2) assms(11)
      siblings_same_key [OF assms(1-3), of tn sid] by auto
  then show ?thesis by (simp add: bridgeOutput_def)
qed

lemma demoSiblings_gated:
  "case gateCalls demoLoop Map.empty demoSiblings [] Map.empty demoMachine of (m', r) \<Rightarrow>
     (case r of Inl _ \<Rightarrow> False | Inr (todo, denied) \<Rightarrow> map seCall todo = demoSiblings)"
  by (simp add: run_simps demoMachine_def demoSiblings_def zeroDescriptor_def cong: bindP_wcong seqP_wcong)

lemma demoFirstCall:
  assumes "seCall e = demoSiblings ! 0"
  shows "\<exists>rt1. Execute demoService (demoCo noDFaults) demoAround (tenantRequest ''T'' (executionOf ''s'' e)) (demoRuntime EgressClassNone []) =
      (rt1, Inr \<lparr>xrObservation = zeroObs\<lparr>obContent := ''ok''\<rparr>, xrBlobSizeBytes = 0\<rparr>) \<and> rtWorld rt1 = 1 \<and>
      rtRegistry rt1 = (rtRegistry (demoRuntime EgressClassNone []))\<lparr>regMCPLoaded := True\<rparr>"
  using assms
  by (simp add: demoSiblings_def tenantRequest_def bridgeRequest_def executionOf_def demo_exec)

theorem siblings_share_first_result_witness:
  "case gateCalls demoLoop Map.empty demoSiblings [] Map.empty demoMachine of (m', r) \<Rightarrow>
     (case r of Inl _ \<Rightarrow> False
      | Inr (todo, denied) \<Rightarrow> map seCall todo = demoSiblings \<and>
          (case Execute demoService (demoCo noDFaults) demoAround (tenantRequest ''T'' (executionOf ''s'' (todo ! 0)))
              (demoRuntime EgressClassNone []) of
             (rt1, r1) \<Rightarrow> rtWorld rt1 = 1 \<and>
               rtWorld (fst (Execute demoService (demoCo noDFaults) demoAround (tenantRequest ''T'' (executionOf ''s'' (todo ! 1))) rt1)) = 1))"
proof -
  obtain m' todo denied where g: "gateCalls demoLoop Map.empty demoSiblings [] Map.empty demoMachine = (m', Inr (todo, denied))"
    and calls: "map seCall todo = demoSiblings" using demoSiblings_gated by (auto split: prod.splits sum.splits)
  then have len: "length todo = 2" by (metis length_map demoSiblings_def length_Cons list.size(3) One_nat_def Suc_1)
  then have in12: "todo ! 0 \<in> set todo" "todo ! 1 \<in> set todo"
    and c12: "seCall (todo ! 0) = demoSiblings ! 0" "seCall (todo ! 1) = demoSiblings ! 1"
    using calls by (auto simp flip: calls)
  let ?q = "\<lambda>i. tenantRequest ''T'' (executionOf ''s'' (todo ! i))" and ?rt = "demoRuntime EgressClassNone []"
  obtain rt1 where x: "Execute demoService (demoCo noDFaults) demoAround (?q 0) ?rt =
      (rt1, Inr \<lparr>xrObservation = zeroObs\<lparr>obContent := ''ok''\<rparr>, xrBlobSizeBytes = 0\<rparr>)" and w1: "rtWorld rt1 = 1"
    and reg: "rtRegistry rt1 = (rtRegistry ?rt)\<lparr>regMCPLoaded := True\<rparr>"
    using demoFirstCall [OF c12(1)] by blast
  have t: "resolves demoAround (?q 0) ?rt (ValidatingTool (ToolExec.demoTool EgressClassNone) (projr (demoSchema ''x'')))"
    "resolves demoAround (?q 1) rt1 (ValidatingTool (ToolExec.demoTool EgressClassNone) (projr (demoSchema ''x'')))"
    using c12 reg by (simp_all add: demoSiblings_def tenantRequest_def bridgeRequest_def executionOf_def demo_exec)
  obtain rt2 r2 where y: "Execute demoService (demoCo noDFaults) demoAround (?q 1) rt1 = (rt2, r2)" by fastforce
  have ok: "wfLedger (rtLedger ?rt)" "roundTrips demoObsCodec (zeroObs\<lparr>obContent := ''ok''\<rparr>)" "\<not> obIsError (zeroObs\<lparr>obContent := ''ok''\<rparr>)"
    by (simp_all add: wfLedger_def demoRuntime_def roundTrips_def demoObsCodec_def zeroObs_def)
  have "seIdemKey (todo ! 1) = seIdemKey (todo ! 0)" using gateCalls_key [OF g] in12 by (simp add: list_all_iff)
  then have "isOk r2"
    using x y c12 by (auto simp: demoSiblings_def tenantRequest_def bridgeRequest_def executionOf_def demo_exec)
  then obtain res2 where r2: "r2 = Inr res2" by (auto simp: isOk_iff)
  from siblings_share_first_result [OF g in12 x [unfolded demoCo_def] ok(1) t(1) _ _ _ y [unfolded r2 demoCo_def] t(2)] ok w1
  have "rtWorld rt2 = 1" by simp
  with x w1 y g calls show ?thesis by simp
qed

end
